(* ===== verification/Os_Prelude.thy ===== *)
theory Os_Prelude
  imports Main "HOL-Library.Word"
begin

text \<open>
  Shared ground of the development: names for the fixed-width integers of the C sources, the
  little-endian layout of packed structures, C strings inside byte buffers, the positional read
  \<open>pread\<close> on a device image, and the generic list facts that the components use.

  Every program of the repository is compiled for a little-endian machine with 32-bit \<open>int\<close>,
  64-bit \<open>long\<close>, \<open>size_t\<close> and \<open>off_t\<close>.  An \<open>n\<close>-bit unsigned C integer is an
  \<open>n word\<close>; the two's complement reading of a word is \<open>sint\<close>.
\<close>

unbundle bit_operations_syntax

type_synonym u8 = "8 word"
type_synonym u16 = "16 word"
type_synonym u32 = "32 word"
type_synonym u64 = "64 word"
type_synonym bytes = "u8 list"

named_theorems layout_simps \<open>unfolding of packed structure layouts\<close>
named_theorems step_simps \<open>one-step behaviour of state-changing operations\<close>


section \<open>Machine integers\<close>

lemma unat_bounds:
  "unat (a :: u8) < 256" "unat (b :: u16) < 65536" "unat (c :: u32) < 4294967296"
  "unat (d :: u64) < 18446744073709551616"
  using unsigned_less [of a] unsigned_less [of b] unsigned_less [of c] unsigned_less [of d]
  by simp_all

lemma unat_ucast_up [simp]:
  "unat (ucast (a :: u8) :: u32) = unat a" "unat (ucast (b :: u16) :: u32) = unat b"
  "unat (ucast (a :: u8) :: u64) = unat a" "unat (ucast (b :: u16) :: u64) = unat b"
  "unat (ucast (c :: u32) :: u64) = unat c"
  using unat_bounds(1) [of a] unat_bounds(2) [of b] unat_bounds(3) [of c]
  by (simp_all add: unsigned_ucast_eq take_bit_nat_eq_self_iff)

lemma sint_of_nat32: "n < 2 ^ 31 \<Longrightarrow> sint (of_nat n :: u32) = int n"
  by (simp add: signed_of_nat signed_take_bit_int_eq_self_iff)


section \<open>Little-endian integers\<close>

definition le16 :: "bytes \<Rightarrow> nat \<Rightarrow> u16" where
  "le16 bs i = ucast (bs ! i) OR push_bit 8 (ucast (bs ! (i + 1)))"

definition le32 :: "bytes \<Rightarrow> nat \<Rightarrow> u32" where
  "le32 bs i = ucast (bs ! i) OR push_bit 8 (ucast (bs ! (i + 1)))
     OR push_bit 16 (ucast (bs ! (i + 2))) OR push_bit 24 (ucast (bs ! (i + 3)))"

definition to_le16 :: "u16 \<Rightarrow> bytes" where
  "to_le16 w = [ucast w, ucast (drop_bit 8 w)]"

definition to_le32 :: "u32 \<Rightarrow> bytes" where
  "to_le32 w = [ucast w, ucast (drop_bit 8 w), ucast (drop_bit 16 w), ucast (drop_bit 24 w)]"

definition slice :: "nat \<Rightarrow> nat \<Rightarrow> 'a list \<Rightarrow> 'a list" where
  "slice i n xs = take n (drop i xs)"

lemma length_to_le16 [simp]: "length (to_le16 w) = 2"
  by (simp add: to_le16_def)

lemma length_to_le32 [simp]: "length (to_le32 w) = 4"
  by (simp add: to_le32_def)

lemma length_slice: "length (slice i n xs) = min n (length xs - i)"
  by (simp add: slice_def)

lemma slice_append_right [simp]:
  "length xs \<le> i \<Longrightarrow> slice i n (xs @ ys) = slice (i - length xs) n ys"
  by (simp add: slice_def)

lemma slice_append_exact: "length xs = n \<Longrightarrow> slice 0 n (xs @ ys) = xs"
  by (simp add: slice_def)

lemma le16_append_right [simp]:
  "length xs \<le> i \<Longrightarrow> le16 (xs @ ys) i = le16 ys (i - length xs)"
  by (simp add: le16_def nth_append Suc_diff_le)

lemma le32_append_right [simp]:
  "length xs \<le> i \<Longrightarrow> le32 (xs @ ys) i = le32 ys (i - length xs)"
  by (simp add: le32_def nth_append Suc_diff_le)

lemma le16_Cons [simp]: "0 < i \<Longrightarrow> le16 (x # xs) i = le16 xs (i - 1)"
  using le16_append_right [of "[x]" i xs] by simp

lemma le32_Cons [simp]: "0 < i \<Longrightarrow> le32 (x # xs) i = le32 xs (i - 1)"
  using le32_append_right [of "[x]" i xs] by simp

lemma slice_Cons [simp]: "0 < i \<Longrightarrow> slice i n (x # xs) = slice (i - 1) n xs"
  using slice_append_right [of "[x]" i n xs] by simp

lemma join_bytes16:
  "ucast (ucast w :: u8) OR push_bit 8 (ucast (ucast (drop_bit 8 w) :: u8)) = (w :: u16)"
  by (rule bit_word_eqI) (auto simp: bit_simps)

lemma join_bytes32:
  "ucast (ucast w :: u8) OR push_bit 8 (ucast (ucast (drop_bit 8 w) :: u8))
     OR push_bit 16 (ucast (ucast (drop_bit 16 w) :: u8))
     OR push_bit 24 (ucast (ucast (drop_bit 24 w) :: u8)) = (w :: u32)"
proof (rule bit_word_eqI)
  fix n assume "n < LENGTH(32)"
  moreover have "n < 8 \<or> n - 8 < 8 \<or> n - 16 < 8 \<or> 24 + (n - 24) = n"
    by arith
  ultimately show "bit (ucast (ucast w :: u8) OR push_bit 8 (ucast (ucast (drop_bit 8 w) :: u8))
     OR push_bit 16 (ucast (ucast (drop_bit 16 w) :: u8))
     OR push_bit 24 (ucast (ucast (drop_bit 24 w) :: u8)) :: u32) n = bit w n"
    by (auto simp: bit_simps)
qed

lemma le16_to_le16 [simp]: "le16 (to_le16 w @ xs) 0 = w" "le16 (to_le16 w) 0 = w"
  by (simp_all add: le16_def to_le16_def join_bytes16)

lemma le32_to_le32 [simp]: "le32 (to_le32 w @ xs) 0 = w" "le32 (to_le32 w) 0 = w"
  by (simp_all add: le32_def to_le32_def join_bytes32)


section \<open>Reading a device\<close>

text \<open>
  \<open>pread(fd, buf, n, off)\<close> on a regular file or block device holding the bytes \<open>disk\<close>:
  at most \<open>n\<close> bytes are copied to the start of \<open>buf\<close>, fewer when the device ends first, none
  (the call fails with \<open>EINVAL\<close>) when the offset is negative; the rest of \<open>buf\<close> keeps its
  contents.  The sources never look at the result of the call.
\<close>

definition pread_bytes :: "bytes \<Rightarrow> nat \<Rightarrow> int \<Rightarrow> bytes" where
  "pread_bytes disk n off = (if off < 0 then [] else slice (nat off) n disk)"

definition pread :: "bytes \<Rightarrow> bytes \<Rightarrow> nat \<Rightarrow> int \<Rightarrow> bytes" where
  "pread disk buf n off =
     (let got = pread_bytes disk n off in got @ drop (length got) buf)"

lemma length_pread_bytes: "length (pread_bytes disk n off) \<le> n"
  by (simp add: pread_bytes_def length_slice)

lemma length_pread [simp]: "n \<le> length buf \<Longrightarrow> length (pread disk buf n off) = length buf"
  using length_pread_bytes [of disk n off] by (simp add: pread_def Let_def)

lemma pread_full:
  assumes "0 \<le> off" and "nat off + n \<le> length disk" and "length buf = n"
  shows "pread disk buf n off = slice (nat off) n disk"
  using assms by (simp add: pread_def pread_bytes_def length_slice Let_def)


lemma pread_full_nat:
  "k + n \<le> length disk \<Longrightarrow> length buf = n \<Longrightarrow> pread disk buf n (int k) = slice k n disk"
  using pread_full [of "int k" n disk buf] by simp


section \<open>C strings in byte buffers\<close>

text \<open>
  A C string is what a buffer holds before its first zero byte.  A buffer with no zero byte is
  not a string: reading it as one runs past its end, which the models report as \<open>None\<close>.
\<close>

definition c_string :: "bytes \<Rightarrow> bytes option" where
  "c_string buf = (if 0 \<in> set buf then Some (takeWhile (\<lambda>b. b \<noteq> 0) buf) else None)"

definition bytes_of_string :: "string \<Rightarrow> bytes" where
  "bytes_of_string s = map of_char s"

lemma c_string_Some:
  "c_string buf = Some s \<Longrightarrow> 0 \<notin> set s \<and> (\<exists>rest. buf = s @ 0 # rest)"
proof -
  assume "c_string buf = Some s"
  then have mem: "0 \<in> set buf" and s: "s = takeWhile (\<lambda>b. b \<noteq> 0) buf"
    by (auto simp: c_string_def split: if_splits)
  then obtain xs ys where "buf = xs @ 0 # ys" "0 \<notin> set xs"
    by (meson split_list_first)
  then show ?thesis using s by (auto simp: takeWhile_append)
qed

lemma c_string_terminated [simp]: "0 \<notin> set s \<Longrightarrow> c_string (s @ 0 # rest) = Some s"
  by (auto simp: c_string_def takeWhile_append)

section \<open>Decimal numbers\<close>

text \<open>What \<open>printf\<close> prints for \<open>%lu\<close> and \<open>%d\<close>.\<close>

definition digit :: "nat \<Rightarrow> char" where
  "digit d = char_of (48 + d)"

fun show_nat :: "nat \<Rightarrow> string" where
  "show_nat n = (if n < 10 then [digit n] else show_nat (n div 10) @ [digit (n mod 10)])"

declare show_nat.simps [simp del]

definition show_int :: "int \<Rightarrow> string" where
  "show_int i = (if i < 0 then CHR ''-'' # show_nat (nat (- i)) else show_nat (nat i))"

section \<open>Error numbers\<close>

definition EPERM :: int where "EPERM = 1"
definition ESRCH :: int where "ESRCH = 3"
definition ENOMEM :: int where "ENOMEM = 12"
definition EFAULT :: int where "EFAULT = 14"
definition EINVAL :: int where "EINVAL = 22"
definition ERESTARTSYS :: int where "ERESTARTSYS = 512"

lemmas errno_defs = EPERM_def ESRCH_def ENOMEM_def EFAULT_def EINVAL_def ERESTARTSYS_def

end
