(* ===== verification/Vfat_Layout.thy ===== *)
theory Vfat_Layout
  imports Os_Prelude
begin

text \<open>
  The on-disk structures of \<open>task3_vfat/vfat.c\<close>: the boot sector \<open>struct vfat_super\<close>, the
  short directory entry \<open>struct vfat_direntry\<close> and the long-name entry
  \<open>struct vfat_direntry_lfn\<close>.  All three are packed, so a structure is its fields laid end to
  end; the program obtains them by reading raw bytes over the structure.  Decoding and encoding
  are both given, with the round trips and the sizes the comments of the source announce.
\<close>

section \<open>Boot sector\<close>

record vfat_super =
  BS_jmpBoot :: bytes
  BS_OEMName :: bytes
  BPB_BytsPerSec :: u16
  BPB_SecPerClus :: u8
  BPB_RsvdSecCnt :: u16
  BPB_NumFATs :: u8
  BPB_RootEntCnt :: u16
  BPB_TotSec16 :: u16
  BPB_Media :: u8
  BPB_FATSz16 :: u16
  BPB_SecPerTrk :: u16
  BPB_NumHeads :: u16
  BPB_HiddSec :: u32
  BPB_TotSec32 :: u32
  BPB_FATSz32 :: u32
  BPB_ExtFlags :: u16
  BPB_FSVer :: u16
  BPB_RootClus :: u32
  BPB_FSInfo :: u16
  BPB_BkBootSec :: u16
  BPB_Reserved :: bytes
  BS_DrvNum :: u8
  BS_Reserved1 :: u8
  BS_BootSig :: u8
  BS_VolID :: u32
  BS_VolLab :: bytes
  BS_FilSysType :: bytes
  BS_Reserved2 :: bytes
  BS_Sig :: u16

text \<open>The arrays of the structure have the lengths the declaration gives them.\<close>

definition vfat_super_wf :: "vfat_super \<Rightarrow> bool" where
  "vfat_super_wf s \<longleftrightarrow>
     length (BS_jmpBoot s) = 3 \<and> length (BS_OEMName s) = 8 \<and> length (BPB_Reserved s) = 12 \<and>
     length (BS_VolLab s) = 11 \<and> length (BS_FilSysType s) = 8 \<and> length (BS_Reserved2 s) = 420"

definition vfat_super_of_bytes :: "bytes \<Rightarrow> vfat_super" where
  "vfat_super_of_bytes b = \<lparr>
     BS_jmpBoot = slice 0 3 b,
     BS_OEMName = slice 3 8 b,
     BPB_BytsPerSec = le16 b 11,
     BPB_SecPerClus = b ! 13,
     BPB_RsvdSecCnt = le16 b 14,
     BPB_NumFATs = b ! 16,
     BPB_RootEntCnt = le16 b 17,
     BPB_TotSec16 = le16 b 19,
     BPB_Media = b ! 21,
     BPB_FATSz16 = le16 b 22,
     BPB_SecPerTrk = le16 b 24,
     BPB_NumHeads = le16 b 26,
     BPB_HiddSec = le32 b 28,
     BPB_TotSec32 = le32 b 32,
     BPB_FATSz32 = le32 b 36,
     BPB_ExtFlags = le16 b 40,
     BPB_FSVer = le16 b 42,
     BPB_RootClus = le32 b 44,
     BPB_FSInfo = le16 b 48,
     BPB_BkBootSec = le16 b 50,
     BPB_Reserved = slice 52 12 b,
     BS_DrvNum = b ! 64,
     BS_Reserved1 = b ! 65,
     BS_BootSig = b ! 66,
     BS_VolID = le32 b 67,
     BS_VolLab = slice 71 11 b,
     BS_FilSysType = slice 82 8 b,
     BS_Reserved2 = slice 90 420 b,
     BS_Sig = le16 b 510 \<rparr>"

definition vfat_super_to_bytes :: "vfat_super \<Rightarrow> bytes" where
  "vfat_super_to_bytes s =
     BS_jmpBoot s @ BS_OEMName s @ to_le16 (BPB_BytsPerSec s) @ [BPB_SecPerClus s]
     @ to_le16 (BPB_RsvdSecCnt s) @ [BPB_NumFATs s] @ to_le16 (BPB_RootEntCnt s)
     @ to_le16 (BPB_TotSec16 s) @ [BPB_Media s] @ to_le16 (BPB_FATSz16 s)
     @ to_le16 (BPB_SecPerTrk s) @ to_le16 (BPB_NumHeads s) @ to_le32 (BPB_HiddSec s)
     @ to_le32 (BPB_TotSec32 s) @ to_le32 (BPB_FATSz32 s) @ to_le16 (BPB_ExtFlags s)
     @ to_le16 (BPB_FSVer s) @ to_le32 (BPB_RootClus s) @ to_le16 (BPB_FSInfo s)
     @ to_le16 (BPB_BkBootSec s) @ BPB_Reserved s @ [BS_DrvNum s] @ [BS_Reserved1 s]
     @ [BS_BootSig s] @ to_le32 (BS_VolID s) @ BS_VolLab s @ BS_FilSysType s
     @ BS_Reserved2 s @ to_le16 (BS_Sig s)"

definition sizeof_vfat_super :: nat where
  "sizeof_vfat_super = 512"

definition VFAT_SIGNATURE :: u16 where
  "VFAT_SIGNATURE = 0xAA55"

definition VFAT_EOC :: u32 where
  "VFAT_EOC = 0x0FFFFFF8"

section \<open>Directory entries\<close>

text \<open>
  The anonymous union of the source overlays \<open>DIR_NameExt[11]\<close> on \<open>DIR_Name[8]\<close> followed by
  \<open>DIR_Ext[3]\<close>: \<open>DIR_NameExt\<close> is the concatenation.
\<close>

record vfat_direntry =
  DIR_Name :: bytes
  DIR_Ext :: bytes
  DIR_Attr :: u8
  DIR_NTRes :: u8
  DIR_CrtTimeTenth :: u8
  DIR_CrtTime :: u16
  DIR_CrtDate :: u16
  DIR_LstAccDate :: u16
  DIR_FstClusHI :: u16
  DIR_WrtTime :: u16
  DIR_WrtDate :: u16
  DIR_FstClusLO :: u16
  DIR_FileSize :: u32

definition DIR_NameExt :: "vfat_direntry \<Rightarrow> bytes" where
  "DIR_NameExt d = DIR_Name d @ DIR_Ext d"

definition vfat_direntry_wf :: "vfat_direntry \<Rightarrow> bool" where
  "vfat_direntry_wf d \<longleftrightarrow> length (DIR_Name d) = 8 \<and> length (DIR_Ext d) = 3"

definition vfat_direntry_of_bytes :: "bytes \<Rightarrow> vfat_direntry" where
  "vfat_direntry_of_bytes b = \<lparr>
     DIR_Name = slice 0 8 b,
     DIR_Ext = slice 8 3 b,
     DIR_Attr = b ! 11,
     DIR_NTRes = b ! 12,
     DIR_CrtTimeTenth = b ! 13,
     DIR_CrtTime = le16 b 14,
     DIR_CrtDate = le16 b 16,
     DIR_LstAccDate = le16 b 18,
     DIR_FstClusHI = le16 b 20,
     DIR_WrtTime = le16 b 22,
     DIR_WrtDate = le16 b 24,
     DIR_FstClusLO = le16 b 26,
     DIR_FileSize = le32 b 28 \<rparr>"

definition vfat_direntry_to_bytes :: "vfat_direntry \<Rightarrow> bytes" where
  "vfat_direntry_to_bytes d =
     DIR_Name d @ DIR_Ext d @ [DIR_Attr d] @ [DIR_NTRes d] @ [DIR_CrtTimeTenth d]
     @ to_le16 (DIR_CrtTime d) @ to_le16 (DIR_CrtDate d) @ to_le16 (DIR_LstAccDate d)
     @ to_le16 (DIR_FstClusHI d) @ to_le16 (DIR_WrtTime d) @ to_le16 (DIR_WrtDate d)
     @ to_le16 (DIR_FstClusLO d) @ to_le32 (DIR_FileSize d)"

definition sizeof_vfat_direntry :: nat where
  "sizeof_vfat_direntry = 32"

definition VFAT_DIRNAME_NULL :: u8 where "VFAT_DIRNAME_NULL = 0x00"
definition VFAT_DIRNAME_FREE :: u8 where "VFAT_DIRNAME_FREE = 0xE5"

definition VFAT_ATTR_READ_ONLY :: u8 where "VFAT_ATTR_READ_ONLY = 0x01"
definition VFAT_ATTR_HIDDEN :: u8 where "VFAT_ATTR_HIDDEN = 0x02"
definition VFAT_ATTR_SYSTEM :: u8 where "VFAT_ATTR_SYSTEM = 0x04"
definition VFAT_ATTR_VOLUME_ID :: u8 where "VFAT_ATTR_VOLUME_ID = 0x08"
definition VFAT_ATTR_DIRECTORY :: u8 where "VFAT_ATTR_DIRECTORY = 0x10"
definition VFAT_ATTR_ARCHIVE :: u8 where "VFAT_ATTR_ARCHIVE = 0x20"

definition VFAT_IS_ATTR :: "u8 \<Rightarrow> u8 \<Rightarrow> bool" where
  "VFAT_IS_ATTR attr y \<longleftrightarrow> attr AND y = y"

definition VFAT_ATTR_LFN :: u8 where
  "VFAT_ATTR_LFN =
     VFAT_ATTR_READ_ONLY OR VFAT_ATTR_HIDDEN OR VFAT_ATTR_SYSTEM OR VFAT_ATTR_VOLUME_ID"

record vfat_direntry_lfn =
  LDIR_Ord :: u8
  LDIR_Name1 :: "u16 list"
  LDIR_Attr :: u8
  LDIR_Type :: u8
  LDIR_Chksum :: u8
  LDIR_Name2 :: "u16 list"
  LDIR_FstClusLO :: u16
  LDIR_Name3 :: "u16 list"

definition le16s :: "bytes \<Rightarrow> nat \<Rightarrow> nat \<Rightarrow> u16 list" where
  "le16s b i n = map (\<lambda>k. le16 b (i + 2 * k)) [0..<n]"

definition vfat_direntry_lfn_of_bytes :: "bytes \<Rightarrow> vfat_direntry_lfn" where
  "vfat_direntry_lfn_of_bytes b = \<lparr>
     LDIR_Ord = b ! 0,
     LDIR_Name1 = le16s b 1 5,
     LDIR_Attr = b ! 11,
     LDIR_Type = b ! 12,
     LDIR_Chksum = b ! 13,
     LDIR_Name2 = le16s b 14 6,
     LDIR_FstClusLO = le16 b 26,
     LDIR_Name3 = le16s b 28 2 \<rparr>"

definition VFAT_DIRENTRY_CLUSTER :: "vfat_direntry \<Rightarrow> u32" where
  "VFAT_DIRENTRY_CLUSTER d =
     push_bit 16 (0xFFFF AND ucast (DIR_FstClusHI d)) OR (0xFFFF AND ucast (DIR_FstClusLO d))"

definition IS_EOC :: "u32 \<Rightarrow> bool" where
  "IS_EOC x \<longleftrightarrow> x \<ge> VFAT_EOC"


section \<open>Round trips and sizes\<close>

lemma nth_append_right [simp]:
  "length xs \<le> i \<Longrightarrow> (xs @ ys) ! i = ys ! (i - length xs)"
  by (simp add: nth_append)

lemma vfat_super_to_bytes_length:
  "vfat_super_wf s \<Longrightarrow> length (vfat_super_to_bytes s) = sizeof_vfat_super"
  by (simp add: vfat_super_to_bytes_def vfat_super_wf_def sizeof_vfat_super_def)

lemma vfat_direntry_to_bytes_length:
  "vfat_direntry_wf d \<Longrightarrow> length (vfat_direntry_to_bytes d) = sizeof_vfat_direntry"
  by (simp add: vfat_direntry_to_bytes_def vfat_direntry_wf_def sizeof_vfat_direntry_def)

lemma vfat_super_roundtrip_aux:
  "vfat_super_wf s \<Longrightarrow> vfat_super_of_bytes (vfat_super_to_bytes s) = s"
  by (simp add: vfat_super_of_bytes_def vfat_super_to_bytes_def vfat_super_wf_def slice_append_exact)

lemma vfat_direntry_roundtrip_aux:
  "vfat_direntry_wf d \<Longrightarrow> vfat_direntry_of_bytes (vfat_direntry_to_bytes d) = d"
  by (simp add: vfat_direntry_of_bytes_def vfat_direntry_to_bytes_def vfat_direntry_wf_def slice_append_exact)

section \<open>Properties\<close>

text \<open>A boot sector structure occupies exactly 512 bytes, and reading those bytes back over the
  structure, as \<open>pread(f->fs, f->boot_sector, sizeof(*f->boot_sector), 0)\<close> does, gives every
  field its value; the signature is found at byte 510.\<close>

theorem vfat_super_roundtrip:
  assumes "vfat_super_wf s"
  shows "length (vfat_super_to_bytes s) = sizeof_vfat_super
    \<and> vfat_super_of_bytes (vfat_super_to_bytes s) = s
    \<and> le16 (vfat_super_to_bytes s) 510 = BS_Sig s"
proof (intro conjI)
  show rt: "vfat_super_of_bytes (vfat_super_to_bytes s) = s"
    using assms by (rule vfat_super_roundtrip_aux)
  show "length (vfat_super_to_bytes s) = sizeof_vfat_super"
    using assms by (rule vfat_super_to_bytes_length)
  show "le16 (vfat_super_to_bytes s) 510 = BS_Sig s"
    using rt by (metis vfat_super.select_convs(29) vfat_super_of_bytes_def)
qed

definition sample_super :: vfat_super where
  "sample_super = \<lparr>
     BS_jmpBoot = [0xEB, 0x58, 0x90], BS_OEMName = replicate 8 0x20,
     BPB_BytsPerSec = 512, BPB_SecPerClus = 1, BPB_RsvdSecCnt = 32, BPB_NumFATs = 2,
     BPB_RootEntCnt = 0, BPB_TotSec16 = 0, BPB_Media = 0xF8, BPB_FATSz16 = 0,
     BPB_SecPerTrk = 32, BPB_NumHeads = 64, BPB_HiddSec = 0, BPB_TotSec32 = 70000,
     BPB_FATSz32 = 600, BPB_ExtFlags = 0, BPB_FSVer = 0, BPB_RootClus = 2, BPB_FSInfo = 1,
     BPB_BkBootSec = 6, BPB_Reserved = replicate 12 0, BS_DrvNum = 0x80, BS_Reserved1 = 0,
     BS_BootSig = 0x29, BS_VolID = 0xDEADBEEF, BS_VolLab = replicate 11 0x20,
     BS_FilSysType = replicate 8 0x20, BS_Reserved2 = replicate 420 0, BS_Sig = 0xAA55 \<rparr>"

lemma sample_super_wf: "vfat_super_wf sample_super"
  by (simp add: vfat_super_wf_def sample_super_def)

theorem vfat_super_roundtrip_witness:
  "vfat_super_wf sample_super
   \<and> vfat_super_of_bytes (vfat_super_to_bytes sample_super) = sample_super
   \<and> le16 (vfat_super_to_bytes sample_super) 510 = VFAT_SIGNATURE"
  using vfat_super_roundtrip [OF sample_super_wf] sample_super_wf
  by (simp add: sample_super_def VFAT_SIGNATURE_def)

end
