(* ===== verification/Vfat_Init.thy ===== *)
theory Vfat_Init
  imports Vfat_Layout
begin

text \<open>
  The global state \<open>struct vfat vfat_info\<close> of \<open>task3_vfat/vfat.c\<close>, the start-up code
  \<open>vfat_init\<close> that reads the boot sector and derives the geometry of the volume, and the address
  macros.  Every early exit of \<open>vfat_init\<close> is a value of \<open>vfat_abort\<close>.
\<close>

section \<open>State\<close>

text \<open>
  A linked list of \<open>struct list_direntry\<close> nodes: it ends with a null \<open>next\<close>, or in a node
  whose fields were never written.  The device behind the descriptor \<open>f->fs\<close> is its byte
  image.  Other pointers that may be null are options.
\<close>

datatype list_direntry =
    Dnull
  | Dnode vfat_direntry list_direntry
  | Duninit

record vfat =
  dev :: "string option"
  fs :: bytes
  boot_sector :: "vfat_super option"
  RootDirSectors :: u32
  FATSz :: u32
  FirstDataSector :: u32
  TotSec :: u32
  DataSec :: u32
  CountOfClusters :: u32
  root_direntries_list :: list_direntry
  current_direntries_list :: list_direntry
  current_direntry :: "vfat_direntry option"
  currentDirentry :: vfat_direntry
  currentClusterNumber :: u32
  nextClusterNumber :: u32
  mount_uid :: nat
  mount_gid :: nat
  mount_time :: nat

datatype vfat_abort =
    Open_failed          \<comment> \<open>\<open>err(1, "open(...)")\<close>\<close>
  | Short_boot_sector    \<comment> \<open>the device ends inside the boot sector, fields stay uninitialised\<close>
  | Division_by_zero     \<comment> \<open>the machine traps\<close>
  | Fat12_volume         \<comment> \<open>\<open>err(1, ...)\<close>\<close>
  | Fat16_volume         \<comment> \<open>\<open>err(1, ...)\<close>\<close>
  | Bad_signature        \<comment> \<open>\<open>err(1, ...)\<close>\<close>

text \<open>What the C library and the kernel answer while \<open>vfat_init\<close> runs.\<close>

record init_env =
  env_image :: "bytes option"   \<comment> \<open>\<open>open\<close>: the device, or failure\<close>
  env_malloc :: bool            \<comment> \<open>\<open>malloc\<close> of the boot sector succeeds\<close>
  env_uid :: nat
  env_gid :: nat
  env_time :: nat

text \<open>The global \<open>vfat_info\<close> before \<open>main\<close> runs: static storage is zeroed.\<close>

definition vfat_info :: vfat where
  "vfat_info = \<lparr>dev = None, fs = [], boot_sector = None, RootDirSectors = 0, FATSz = 0,
     FirstDataSector = 0, TotSec = 0, DataSec = 0, CountOfClusters = 0,
     root_direntries_list = Dnull, current_direntries_list = Dnull, current_direntry = None,
     currentDirentry = vfat_direntry_of_bytes (replicate 32 0),
     currentClusterNumber = 0, nextClusterNumber = 0,
     mount_uid = 0, mount_gid = 0, mount_time = 0\<rparr>"

section \<open>Geometry\<close>

definition root_dir_sectors :: "vfat_super \<Rightarrow> u32" where
  "root_dir_sectors bs =
     word_of_int ((uint (BPB_RootEntCnt bs) * 32 + (uint (BPB_BytsPerSec bs) - 1))
       div uint (BPB_BytsPerSec bs))"

definition fat_sz :: "vfat_super \<Rightarrow> u32" where
  "fat_sz bs = (if BPB_FATSz16 bs \<noteq> 0 then 0x0000FFFF AND ucast (BPB_FATSz16 bs)
                else BPB_FATSz32 bs)"

definition tot_sec :: "vfat_super \<Rightarrow> u32" where
  "tot_sec bs = (if BPB_TotSec16 bs \<noteq> 0 then 0xFFFF AND ucast (BPB_TotSec16 bs)
                 else BPB_TotSec32 bs)"

definition first_data_sector :: "vfat_super \<Rightarrow> u32" where
  "first_data_sector bs =
     ucast (BPB_RsvdSecCnt bs) + (ucast (BPB_NumFATs bs) * fat_sz bs) + root_dir_sectors bs"

definition data_sec :: "vfat_super \<Rightarrow> u32" where
  "data_sec bs = tot_sec bs
     - (ucast (BPB_RsvdSecCnt bs) + (ucast (BPB_NumFATs bs) * fat_sz bs) + root_dir_sectors bs)"

definition count_of_clusters :: "vfat_super \<Rightarrow> u32" where
  "count_of_clusters bs = data_sec bs div ucast (BPB_SecPerClus bs)"

definition vfat_init :: "init_env \<Rightarrow> string \<Rightarrow> vfat \<Rightarrow> vfat_abort + vfat" where
  "vfat_init env d f =
     (let f = f\<lparr>mount_uid := env_uid env, mount_gid := env_gid env, mount_time := env_time env\<rparr> in
      case env_image env of
        None \<Rightarrow> Inl Open_failed
      | Some img \<Rightarrow>
         let f = f\<lparr>fs := img, dev := Some d\<rparr> in
         if \<not> env_malloc env then Inr (f\<lparr>boot_sector := None\<rparr>)
         else if length img < sizeof_vfat_super then Inl Short_boot_sector
         else
           let bs = vfat_super_of_bytes (pread_bytes img sizeof_vfat_super 0);
               f = f\<lparr>boot_sector := Some bs\<rparr> in
           if BPB_BytsPerSec bs = 0 then Inl Division_by_zero
           else
             let f = f\<lparr>RootDirSectors := root_dir_sectors bs, FATSz := fat_sz bs,
                       FirstDataSector := first_data_sector bs, TotSec := tot_sec bs,
                       DataSec := data_sec bs\<rparr> in
             if BPB_SecPerClus bs = 0 then Inl Division_by_zero
             else
               let f = f\<lparr>CountOfClusters := count_of_clusters bs\<rparr> in
               if CountOfClusters f < 4085 then Inl Fat12_volume
               else if CountOfClusters f < 65525 then Inl Fat16_volume
               else if BS_Sig bs \<noteq> VFAT_SIGNATURE then Inl Bad_signature
               else Inr f)"

section \<open>Address macros\<close>

definition ComputeFirstSectorOfCluster :: "vfat \<Rightarrow> vfat_super \<Rightarrow> u32 \<Rightarrow> u32" where
  "ComputeFirstSectorOfCluster f bs N =
     FirstDataSector f + ((N - 2) * ucast (BPB_SecPerClus bs))"

definition FATOffset :: "vfat_super \<Rightarrow> u32 \<Rightarrow> u32" where
  "FATOffset bs N = (if BPB_TotSec16 bs \<noteq> 0 then push_bit 1 N else push_bit 2 N)"

definition ThisFATSecNum :: "vfat_super \<Rightarrow> u32 \<Rightarrow> u32" where
  "ThisFATSecNum bs N =
     ucast (BPB_RsvdSecCnt bs) + (FATOffset bs N div ucast (BPB_BytsPerSec bs))"

definition ThisFATEntOffset :: "vfat_super \<Rightarrow> u32 \<Rightarrow> u32" where
  "ThisFATEntOffset bs N = FATOffset bs N mod ucast (BPB_BytsPerSec bs)"

section \<open>Facts\<close>

lemma vfat_init_Inr_cases:
  assumes "vfat_init env d f = Inr f'" and "env_malloc env"
  obtains img bs where
    "env_image env = Some img" "sizeof_vfat_super \<le> length img"
    "bs = vfat_super_of_bytes (slice 0 sizeof_vfat_super img)"
    "fs f' = img" "boot_sector f' = Some bs"
    "BPB_BytsPerSec bs \<noteq> 0" "BPB_SecPerClus bs \<noteq> 0" "BS_Sig bs = VFAT_SIGNATURE"
    "FirstDataSector f' = first_data_sector bs" "TotSec f' = tot_sec bs"
    "DataSec f' = data_sec bs" "CountOfClusters f' = count_of_clusters bs"
    "65525 \<le> count_of_clusters bs"
  using assms
  by (auto simp: vfat_init_def Let_def pread_bytes_def not_less split: option.splits if_splits)

text \<open>The overhead in sectors, computed without wrap-around.\<close>

definition overhead_sectors :: "vfat_super \<Rightarrow> nat" where
  "overhead_sectors bs =
     unat (BPB_RsvdSecCnt bs) + unat (BPB_NumFATs bs) * unat (fat_sz bs) + unat (root_dir_sectors bs)"

lemma unat_first_data_sector:
  assumes "overhead_sectors bs < 2 ^ 32"
  shows "unat (first_data_sector bs) = overhead_sectors bs"
proof -
  have m: "unat (ucast (BPB_NumFATs bs) * fat_sz bs :: u32)
      = unat (BPB_NumFATs bs) * unat (fat_sz bs)"
    using assms by (subst unat_mult_lem [THEN iffD1]) (simp_all add: overhead_sectors_def)
  have a: "unat (ucast (BPB_RsvdSecCnt bs) + ucast (BPB_NumFATs bs) * fat_sz bs :: u32)
      = unat (BPB_RsvdSecCnt bs) + unat (BPB_NumFATs bs) * unat (fat_sz bs)"
    using assms by (subst unat_add_lem [THEN iffD1]) (simp_all add: overhead_sectors_def m)
  show ?thesis unfolding first_data_sector_def
    using assms by (subst unat_add_lem [THEN iffD1]) (simp_all add: overhead_sectors_def a)
qed

lemma data_sec_eq: "data_sec bs = tot_sec bs - first_data_sector bs"
  by (simp add: data_sec_def first_data_sector_def)

lemma unat_count_of_clusters:
  assumes "overhead_sectors bs \<le> unat (tot_sec bs)"
  shows "unat (count_of_clusters bs)
           = (unat (tot_sec bs) - overhead_sectors bs) div unat (BPB_SecPerClus bs)"
proof -
  have lt: "overhead_sectors bs < 2 ^ 32"
    using assms unat_bounds(3) [of "tot_sec bs"] by (simp add: le_less_trans)
  have "unat (data_sec bs) = unat (tot_sec bs) - overhead_sectors bs"
    unfolding data_sec_eq using assms lt
    by (simp add: unat_sub word_le_nat_alt unat_first_data_sector)
  then show ?thesis by (simp add: count_of_clusters_def unat_div)
qed

lemma cluster_sector_unat:
  assumes init: "FirstDataSector f = first_data_sector bs"
    and fit: "overhead_sectors bs \<le> unat (tot_sec bs)"
    and N: "2 \<le> unat N" "unat N < unat (count_of_clusters bs) + 2"
  shows "unat (ComputeFirstSectorOfCluster f bs N)
           = overhead_sectors bs + (unat N - 2) * unat (BPB_SecPerClus bs)"
    and "unat (ComputeFirstSectorOfCluster f bs N) + unat (BPB_SecPerClus bs) \<le> unat (tot_sec bs)"
proof -
  let ?s = "unat (BPB_SecPerClus bs)"
  have sub: "unat (N - 2) = unat N - 2"
    using N(1) by (simp add: unat_sub word_le_nat_alt)
  have "unat N - 2 + 1 \<le> unat (count_of_clusters bs)" using N by simp
  then have "(unat N - 2 + 1) * ?s \<le> (unat (tot_sec bs) - overhead_sectors bs) div ?s * ?s"
    by (metis fit mult_le_mono1 unat_count_of_clusters)
  also have "\<dots> \<le> unat (tot_sec bs) - overhead_sectors bs"
    by simp
  finally have le: "(unat N - 2) * ?s + ?s \<le> unat (tot_sec bs) - overhead_sectors bs"
    by (simp add: algebra_simps)
  have tot: "unat (tot_sec bs) < 2 ^ 32"
    using unat_bounds(3) [of "tot_sec bs"] by simp
  have m: "unat ((N - 2) * ucast (BPB_SecPerClus bs) :: u32) = (unat N - 2) * ?s"
    using le tot by (subst unat_mult_lem [THEN iffD1]) (simp_all add: sub)
  have over: "unat (first_data_sector bs) = overhead_sectors bs"
    using fit tot by (simp add: unat_first_data_sector)
  show eq: "unat (ComputeFirstSectorOfCluster f bs N) = overhead_sectors bs + (unat N - 2) * ?s"
    unfolding ComputeFirstSectorOfCluster_def init
    using le tot fit by (subst unat_add_lem [THEN iffD1]) (simp_all add: m over)
  show "unat (ComputeFirstSectorOfCluster f bs N) + ?s \<le> unat (tot_sec bs)"
    using eq le fit by simp
qed

section \<open>Properties\<close>


definition sample_env :: init_env where
  "sample_env = \<lparr>env_image = Some (vfat_super_to_bytes sample_super), env_malloc = True,
     env_uid = 0, env_gid = 0, env_time = 0\<rparr>"

lemma sample_image: "take 512 (vfat_super_to_bytes sample_super) = vfat_super_to_bytes sample_super"
  "length (vfat_super_to_bytes sample_super) = 512"
  using vfat_super_to_bytes_length [OF sample_super_wf] by (simp_all add: sizeof_vfat_super_def)

lemma sample_count: "count_of_clusters sample_super = 68768"
  by (simp add: count_of_clusters_def data_sec_def tot_sec_def fat_sz_def root_dir_sectors_def
      sample_super_def)


text \<open>C10: On an accepted volume whose reserved area, FATs and root directory fit in its sector
  count, every data cluster number addresses sectors behind that area and inside the volume, and
  different clusters address disjoint sectors; no 32-bit sum or product wraps.\<close>

theorem cluster_sectors_in_volume:
  assumes init: "vfat_init env d f = Inr f'" "env_malloc env" "boot_sector f' = Some bs"
    and fit: "overhead_sectors bs \<le> unat (TotSec f')"
    and N: "2 \<le> unat N" "unat N < unat (CountOfClusters f') + 2"
    and M: "2 \<le> unat M" "unat M < unat N"
  shows "overhead_sectors bs \<le> unat (ComputeFirstSectorOfCluster f' bs M)
    \<and> unat (ComputeFirstSectorOfCluster f' bs M) + unat (BPB_SecPerClus bs)
          \<le> unat (ComputeFirstSectorOfCluster f' bs N)
    \<and> unat (ComputeFirstSectorOfCluster f' bs N) + unat (BPB_SecPerClus bs) \<le> unat (TotSec f')"
proof -
  obtain facts: "FirstDataSector f' = first_data_sector bs" "TotSec f' = tot_sec bs"
      "CountOfClusters f' = count_of_clusters bs"
    using vfat_init_Inr_cases [OF init(1,2)] init(3) by (metis option.inject)
  let ?s = "unat (BPB_SecPerClus bs)"
  have N': "unat (ComputeFirstSectorOfCluster f' bs N) = overhead_sectors bs + (unat N - 2) * ?s"
    "unat (ComputeFirstSectorOfCluster f' bs N) + ?s \<le> unat (tot_sec bs)"
    using cluster_sector_unat [OF facts(1)] fit N facts by simp_all
  have M': "unat (ComputeFirstSectorOfCluster f' bs M) = overhead_sectors bs + (unat M - 2) * ?s"
    using cluster_sector_unat(1) [OF facts(1)] fit N M facts by simp
  have "(unat M - 2) + 1 \<le> unat N - 2" using M by simp
  then have "((unat M - 2) + 1) * ?s \<le> (unat N - 2) * ?s" by (rule mult_le_mono1)
  then show ?thesis using N' M' facts by simp
qed

lemma sample_init:
  "\<exists>f'. vfat_init sample_env ''sda1'' vfat_info = Inr f' \<and> boot_sector f' = Some sample_super
     \<and> TotSec f' = 70000 \<and> CountOfClusters f' = 68768"
proof -
  have 1: "vfat_super_of_bytes (pread_bytes (vfat_super_to_bytes sample_super) 512 0)
      = sample_super"
    by (simp add: pread_bytes_def slice_def sizeof_vfat_super_def sample_image
        vfat_super_roundtrip_aux sample_super_wf)
  have 2: "BPB_BytsPerSec sample_super \<noteq> 0" "BPB_SecPerClus sample_super \<noteq> 0"
      "BS_Sig sample_super = VFAT_SIGNATURE" "tot_sec sample_super = 70000"
    by (simp_all add: sample_super_def VFAT_SIGNATURE_def tot_sec_def)
  show ?thesis
    by (simp add: vfat_init_def sample_env_def sample_image 1 2 sample_count sizeof_vfat_super_def
        Let_def)
qed

theorem cluster_sectors_in_volume_witness:
  "\<exists>f'. vfat_init sample_env ''sda1'' vfat_info = Inr f'
     \<and> unat (ComputeFirstSectorOfCluster f' sample_super 68769) + 1 \<le> 70000
     \<and> unat (ComputeFirstSectorOfCluster f' sample_super 2) + 1
         \<le> unat (ComputeFirstSectorOfCluster f' sample_super 68769)"
proof -
  obtain f' where f': "vfat_init sample_env ''sda1'' vfat_info = Inr f'"
      "boot_sector f' = Some sample_super" "TotSec f' = 70000" "CountOfClusters f' = 68768"
    using sample_init by blast
  have fit: "overhead_sectors sample_super \<le> unat (TotSec f')"
    by (simp add: f'(3) overhead_sectors_def fat_sz_def root_dir_sectors_def sample_super_def)
  have m: "env_malloc sample_env" by (simp add: sample_env_def)
  have n: "2 \<le> unat (68769 :: u32)" "unat (68769 :: u32) < unat (CountOfClusters f') + 2"
      "2 \<le> unat (2 :: u32)" "unat (2 :: u32) < unat (68769 :: u32)"
    by (simp_all add: f'(4))
  have "unat (BPB_SecPerClus sample_super) = 1" by (simp add: sample_super_def)
  with cluster_sectors_in_volume [OF f'(1) m f'(2) fit n] f' show ?thesis by auto
qed

text \<open>The same boot sector with a total sector count below its own overhead.\<close>

definition wrapped_super :: vfat_super where
  "wrapped_super = sample_super\<lparr>BPB_TotSec32 := 1\<rparr>"

definition wrapped_env :: init_env where
  "wrapped_env = sample_env\<lparr>env_image := Some (vfat_super_to_bytes wrapped_super)\<rparr>"

text \<open>The subtraction that yields \<open>DataSec\<close> is unsigned and unchecked: a volume of one sector
  that claims 1232 sectors of reserved area and FATs is accepted as FAT32, with more clusters than
  the volume has sectors and a data area that starts behind its end.\<close>

theorem vfat_init_accepts_wrapped_geometry:
  "\<exists>f'. vfat_init wrapped_env ''sda1'' vfat_info = Inr f' \<and> boot_sector f' = Some wrapped_super
     \<and> unat (TotSec f') = 1 \<and> unat (FirstDataSector f') = 1232
     \<and> unat (CountOfClusters f') = 4294966065"
proof -
  have wf: "vfat_super_wf wrapped_super"
    using sample_super_wf by (simp add: wrapped_super_def vfat_super_wf_def)
  have len: "length (vfat_super_to_bytes wrapped_super) = 512"
    using vfat_super_to_bytes_length [OF wf] by (simp add: sizeof_vfat_super_def)
  have 1: "vfat_super_of_bytes (pread_bytes (vfat_super_to_bytes wrapped_super) 512 0)
      = wrapped_super"
    by (simp add: pread_bytes_def slice_def sizeof_vfat_super_def len vfat_super_roundtrip_aux wf)
  have 2: "BPB_BytsPerSec wrapped_super \<noteq> 0" "BPB_SecPerClus wrapped_super \<noteq> 0"
      "BS_Sig wrapped_super = VFAT_SIGNATURE" "tot_sec wrapped_super = 1"
      "first_data_sector wrapped_super = 1232" "count_of_clusters wrapped_super = 4294966065"
    by (simp_all add: wrapped_super_def sample_super_def VFAT_SIGNATURE_def tot_sec_def
        first_data_sector_def count_of_clusters_def data_sec_def fat_sz_def root_dir_sectors_def)
  show ?thesis
    by (simp add: vfat_init_def wrapped_env_def sample_env_def len 1 2 sizeof_vfat_super_def Let_def)
qed

end
