(* ===== verification/Vfat_Dir.thy ===== *)
theory Vfat_Dir
  imports Vfat_Init
begin

text \<open>
  Directory handling of \<open>task3_vfat/vfat.c\<close>: the string helpers \<open>trim_string\<close> and
  \<open>trim_nstr\<close>, the short-name checksum \<open>lfn_checksum\<close>, and the scans
  \<open>vfat_read_root_directory\<close> and \<open>vfat_read_directory\<close> that turn a run of 32-byte records
  into a linked list.

  Both scans free a skipped record and then read its first byte in the loop condition.  What a
  freed byte reads as is up to the allocator, so it is the parameter \<open>freed\<close> of the scans: the
  value found at the record of a given device offset whose first byte was \<open>b\<close>.  The loops stop
  only on a zero byte or at the end of the device, so they take fuel; \<open>scan_spec\<close> states how much
  is enough.
\<close>

section \<open>Trimming\<close>

text \<open>
  \<open>trim_nstr\<close> walks down from index \<open>n - 1\<close> and zeroes the blanks it meets; \<open>trim_string\<close>
  does the same from the last character of the string.
\<close>

fun trim_nstr :: "bytes \<Rightarrow> nat \<Rightarrow> bytes" where
  "trim_nstr str 0 = str"
| "trim_nstr str (Suc i) = (if str ! i = 32 then trim_nstr (str[i := 0]) i else str)"

definition trim_string :: "bytes \<Rightarrow> bytes option" where
  "trim_string str = map_option (\<lambda>s. trim_nstr str (length s)) (c_string str)"

section \<open>Checksum of a short name\<close>

fun lfn_checksum_loop :: "nat \<Rightarrow> u8 \<Rightarrow> bytes \<Rightarrow> u8" where
  "lfn_checksum_loop 0 acc p = acc"
| "lfn_checksum_loop (Suc i) acc p =
     lfn_checksum_loop i (push_bit 7 (acc AND 1) + drop_bit 1 acc + hd p) (tl p)"

definition lfn_checksum :: "bytes \<Rightarrow> u8" where
  "lfn_checksum pFCBName = lfn_checksum_loop 11 0 pFCBName"

section \<open>Directory scans\<close>

datatype scan_result =
    Scan_done "vfat_direntry list"  \<comment> \<open>the records linked, in order\<close>
  | Scan_uninit                     \<comment> \<open>the device ended: a record was used uninitialised\<close>
  | Scan_fuel

definition trim_direntry :: "vfat_direntry \<Rightarrow> vfat_direntry" where
  "trim_direntry d = d\<lparr>DIR_Name := trim_nstr (DIR_Name d) 8, DIR_Ext := trim_nstr (DIR_Ext d) 3\<rparr>"

text \<open>A record that both scans skip: end marker, deleted entry, or part of a long name.\<close>

definition skipped :: "bytes \<Rightarrow> bool" where
  "skipped r \<longleftrightarrow> r ! 0 = VFAT_DIRNAME_NULL \<or> r ! 0 = VFAT_DIRNAME_FREE \<or> r ! 11 = VFAT_ATTR_LFN"

fun scan_dir :: "nat \<Rightarrow> (u32 \<Rightarrow> u8 \<Rightarrow> u8) \<Rightarrow> bytes \<Rightarrow> u32 \<Rightarrow> vfat_direntry list \<Rightarrow> scan_result" where
  "scan_dir 0 freed disk off acc = Scan_fuel"
| "scan_dir (Suc fuel) freed disk off acc =
     (let r = pread_bytes disk sizeof_vfat_direntry (uint off) in
      if length r < sizeof_vfat_direntry then Scan_uninit
      else if skipped r then
        (if freed off (r ! 0) \<noteq> 0 then scan_dir fuel freed disk (off + 32) acc
         else Scan_done acc)
      else
        let d = trim_direntry (vfat_direntry_of_bytes r) in
        if DIR_Name d ! 0 \<noteq> 0 then scan_dir fuel freed disk (off + 32) (acc @ [d])
        else Scan_done (acc @ [d]))"

fun link_entries :: "vfat_direntry list \<Rightarrow> list_direntry \<Rightarrow> list_direntry" where
  "link_entries [] e = e"
| "link_entries (d # ds) e = Dnode d (link_entries ds e)"

datatype dir_fault = Dir_null | Dir_uninit | Dir_fuel

definition root_dir_offset :: "vfat \<Rightarrow> vfat_super \<Rightarrow> u32" where
  "root_dir_offset f bs =
     ComputeFirstSectorOfCluster f bs (BPB_RootClus bs) * ucast (BPB_BytsPerSec bs)"

text \<open>
  The root scan closes its list by \<open>old->next = NULL\<close>; when nothing was linked, \<open>old\<close> is null
  and the program crashes.
\<close>

definition vfat_read_root_directory :: "nat \<Rightarrow> (u32 \<Rightarrow> u8 \<Rightarrow> u8) \<Rightarrow> vfat \<Rightarrow> dir_fault + vfat" where
  "vfat_read_root_directory fuel freed f =
     (case boot_sector f of
        None \<Rightarrow> Inl Dir_null
      | Some bs \<Rightarrow>
        (case scan_dir fuel freed (fs f) (root_dir_offset f bs) [] of
           Scan_fuel \<Rightarrow> Inl Dir_fuel
         | Scan_uninit \<Rightarrow> Inl Dir_uninit
         | Scan_done [] \<Rightarrow> Inl Dir_null
         | Scan_done (d # ds) \<Rightarrow> Inr (f\<lparr>root_direntries_list := link_entries (d # ds) Dnull\<rparr>)))"

text \<open>The other scan starts at the same place and leaves its last node unwritten.\<close>

definition vfat_read_directory :: "nat \<Rightarrow> (u32 \<Rightarrow> u8 \<Rightarrow> u8) \<Rightarrow> vfat \<Rightarrow> dir_fault + vfat" where
  "vfat_read_directory fuel freed f =
     (case boot_sector f of
        None \<Rightarrow> Inl Dir_null
      | Some bs \<Rightarrow>
        (case scan_dir fuel freed (fs f) (root_dir_offset f bs) [] of
           Scan_fuel \<Rightarrow> Inl Dir_fuel
         | Scan_uninit \<Rightarrow> Inl Dir_uninit
         | Scan_done ds \<Rightarrow> Inr (f\<lparr>root_direntries_list := link_entries ds Duninit\<rparr>)))"

section \<open>Facts about trimming\<close>

lemma length_trim_nstr [simp]: "length (trim_nstr str n) = length str"
  by (induction str n rule: trim_nstr.induct) auto

text \<open>The bytes that trimming keeps are those up to the last non-blank among the first \<open>n\<close>.\<close>

definition rtrim :: "bytes \<Rightarrow> bytes" where
  "rtrim s = rev (dropWhile (\<lambda>b. b = 32) (rev s))"

lemma rtrim_snoc: "rtrim (s @ [b]) = (if b = 32 then rtrim s else s @ [b])"
  by (simp add: rtrim_def)

lemma rtrim_length: "length (rtrim s) \<le> length s"
  by (metis length_dropWhile_le length_rev rtrim_def)

lemma trim_nstr_eq:
  "trim_nstr (s @ rest) (length s) = rtrim s @ replicate (length s - length (rtrim s)) 0 @ rest"
proof (induction s arbitrary: rest rule: rev_induct)
  case Nil
  then show ?case by (simp add: rtrim_def)
next
  case (snoc b s)
  have upd: "(s @ b # rest)[length s := 0] = s @ 0 # rest" by simp
  show ?case
  proof (cases "b = 32")
    case True
    then show ?thesis
      using snoc.IH [of "0 # rest"] rtrim_length [of s] upd
      by (simp add: rtrim_snoc Suc_diff_le replicate_append_same)
  next
    case False
    then show ?thesis by (simp add: rtrim_snoc)
  qed
qed

section \<open>Facts about the checksum\<close>

text \<open>One step of the loop rotates the sum right by one bit and adds a byte.\<close>

definition ror1 :: "u8 \<Rightarrow> u8" where
  "ror1 w = word_rotr 1 w"

lemma checksum_step_ror1: "push_bit 7 (w AND 1) + drop_bit 1 w = ror1 w"
proof -
  have "push_bit 7 (w AND 1) AND drop_bit 1 w = 0"
    by (rule bit_word_eqI) (auto simp: bit_simps dest: bit_imp_le_length)
  then have "push_bit 7 (w AND 1) + drop_bit 1 w = push_bit 7 (w AND 1) OR drop_bit 1 w"
    by (rule disjunctive_add_eq_or)
  also have "\<dots> = ror1 w"
  proof (rule bit_word_eqI)
    fix n assume n: "n < LENGTH(8)"
    show "bit (push_bit 7 (w AND 1) OR drop_bit 1 w) n = bit (ror1 w) n"
    proof (cases "n = 7")
      case True
      then show ?thesis
        by (simp add: ror1_def bit_word_rotr_iff bit_simps) (auto dest: bit_imp_le_length)
    next
      case False
      with n have "n < 7" by simp
      then show ?thesis by (simp add: ror1_def bit_word_rotr_iff bit_simps)
    qed
  qed
  finally show ?thesis .
qed

lemma lfn_checksum_loop_foldl:
  "n \<le> length p \<Longrightarrow> lfn_checksum_loop n acc p = foldl (\<lambda>a b. ror1 a + b) acc (take n p)"
proof (induction n arbitrary: acc p)
  case (Suc n)
  then obtain b q where "p = b # q" by (cases p) auto
  with Suc show ?case by (simp only: lfn_checksum_loop.simps checksum_step_ror1) simp
qed simp

lemma ror1_inj: "ror1 a = ror1 b \<Longrightarrow> a = b"
  unfolding ror1_def by (metis word_rot_rl)

lemma foldl_ror1_inj:
  "foldl (\<lambda>a b. ror1 a + b) a bs = foldl (\<lambda>a b. ror1 a + b) a' bs \<Longrightarrow> a = a'"
proof (induction bs arbitrary: a a')
  case (Cons b bs)
  have "ror1 a + b = ror1 a' + b"
    by (rule Cons.IH) (use Cons.prems in simp)
  then have "ror1 a = ror1 a'" by simp
  then show ?case by (rule ror1_inj)
qed simp

section \<open>Facts about the scans\<close>

definition dir_record :: "bytes \<Rightarrow> nat \<Rightarrow> nat \<Rightarrow> bytes" where
  "dir_record disk off k = slice (off + 32 * k) 32 disk"

definition live_entries :: "bytes \<Rightarrow> nat \<Rightarrow> nat \<Rightarrow> vfat_direntry list" where
  "live_entries disk off n =
     map (\<lambda>r. trim_direntry (vfat_direntry_of_bytes r))
       (filter (\<lambda>r. \<not> skipped r) (map (dir_record disk off) [0..<n]))"

lemma live_entries_Suc:
  "live_entries disk off (Suc n) =
     (if skipped (dir_record disk off 0) then []
      else [trim_direntry (vfat_direntry_of_bytes (dir_record disk off 0))])
     @ live_entries disk (off + 32) n"
proof -
  have "map (dir_record disk off) [0..<Suc n]
      = dir_record disk off 0 # map (dir_record disk (off + 32)) [0..<n]"
    by (simp add: upt_conv_Cons map_Suc_upt [symmetric] dir_record_def comp_def add.assoc
        del: upt_Suc)
  then show ?thesis by (simp add: live_entries_def del: upt_Suc)
qed

text \<open>A directory of \<open>n\<close> used records followed by an end marker, all of it on the device.\<close>

definition dir_at :: "bytes \<Rightarrow> nat \<Rightarrow> nat \<Rightarrow> bool" where
  "dir_at disk off n \<longleftrightarrow>
     off + 32 * Suc n \<le> length disk \<and> off + 32 * Suc n < 2 ^ 32
     \<and> (\<forall>k < n. dir_record disk off k ! 0 \<noteq> 0) \<and> dir_record disk off n ! 0 = 0
     \<and> (\<forall>k < n. \<not> skipped (dir_record disk off k) \<longrightarrow> slice 0 8 (dir_record disk off k) ! 0 \<noteq> 32)"

lemma dir_at_Suc: "dir_at disk off (Suc n) \<Longrightarrow> dir_at disk (off + 32) n"
  by (auto simp: dir_at_def dir_record_def algebra_simps dest: spec [where x = "Suc _"])

lemma dir_record_read:
  assumes "off + 32 * Suc n \<le> length disk" "off < 2 ^ 32"
  shows "pread_bytes disk sizeof_vfat_direntry (uint (of_nat off :: u32)) = dir_record disk off 0"
    and "length (dir_record disk off 0) = 32"
proof -
  have "uint (of_nat off :: u32) = int off"
    using assms(2) by (simp add: unsigned_of_nat take_bit_nat_eq_self_iff)
  then show "pread_bytes disk sizeof_vfat_direntry (uint (of_nat off :: u32)) = dir_record disk off 0"
    by (simp add: pread_bytes_def sizeof_vfat_direntry_def dir_record_def)
  show "length (dir_record disk off 0) = 32"
    using assms(1) by (simp add: dir_record_def length_slice)
qed

lemma trim_name_first:
  assumes "length r = 32" "r ! 0 \<noteq> 0" "r ! 0 \<noteq> 32"
  shows "DIR_Name (trim_direntry (vfat_direntry_of_bytes r)) ! 0 \<noteq> 0"
proof -
  let ?s = "slice 0 8 r"
  have len: "length ?s = 8" using assms(1) by (simp add: length_slice)
  then obtain b t where s: "?s = b # t" by (cases ?s) auto
  then have b: "b = r ! 0" using assms(1) by (cases r) (auto simp: slice_def)
  have "dropWhile (\<lambda>x. x = 32) (rev t @ [b]) = dropWhile (\<lambda>x. x = 32) (rev t) @ [b]"
    using b assms(3) by (simp add: dropWhile_append3)
  then have "rtrim (b # t) \<noteq> [] \<and> hd (rtrim (b # t)) = b"
    by (simp add: rtrim_def hd_rev)
  moreover have "trim_nstr ?s 8 = rtrim ?s @ replicate (8 - length (rtrim ?s)) 0"
    using trim_nstr_eq [of ?s "[]"] unfolding len by simp
  ultimately have "hd (trim_nstr ?s 8) = b"
    unfolding s by simp
  moreover have "trim_nstr ?s 8 \<noteq> []"
    using len by (metis length_trim_nstr list.size(3) zero_neq_numeral)
  ultimately show ?thesis
    using assms(2) b
    by (simp add: trim_direntry_def vfat_direntry_of_bytes_def hd_conv_nth [symmetric])
qed

text \<open>An allocator that leaves the first byte of a freed record alone.\<close>

definition freed_intact :: "u32 \<Rightarrow> u8 \<Rightarrow> u8" where
  "freed_intact off b = b"

lemma freed_intact_zero [simp]: "(freed_intact off b = 0) = (b = 0)"
  by (simp add: freed_intact_def)

lemma scan_dir_listing:
  assumes "dir_at disk off n" "n < fuel"
  shows "scan_dir fuel freed_intact disk (of_nat off) acc = Scan_done (acc @ live_entries disk off n)"
  using assms
proof (induction n arbitrary: off acc fuel)
  case 0
  then obtain m where m: "fuel = Suc m" by (cases fuel) auto
  have rd: "pread_bytes disk sizeof_vfat_direntry (uint (of_nat off :: u32)) = dir_record disk off 0"
    "length (dir_record disk off 0) = 32"
    using 0(1) by (intro dir_record_read [of off 0]; simp add: dir_at_def)+
  with 0(1) m show ?case
    by (simp add: dir_at_def skipped_def VFAT_DIRNAME_NULL_def live_entries_def
        sizeof_vfat_direntry_def)
next
  case (Suc n)
  let ?r = "dir_record disk off 0"
  obtain m where m: "fuel = Suc m" "n < m" using Suc.prems(2) by (cases fuel) auto
  have rd: "pread_bytes disk sizeof_vfat_direntry (uint (of_nat off :: u32)) = ?r" "length ?r = 32"
    using Suc.prems(1) by (intro dir_record_read [of off "Suc n"]; simp add: dir_at_def)+
  have nz: "?r ! 0 \<noteq> 0" and sp: "\<not> skipped ?r \<Longrightarrow> ?r ! 0 \<noteq> 32"
    using Suc.prems(1) rd(2) by (auto simp: dir_at_def slice_def)
  have IH: "scan_dir m freed_intact disk (of_nat off + 32) acc'
      = Scan_done (acc' @ live_entries disk (off + 32) n)" for acc'
    using Suc.IH [OF dir_at_Suc [OF Suc.prems(1)] m(2)] by (simp add: add.commute)
  show ?case
    using rd nz sp trim_name_first [OF rd(2) nz] m(1)
    by (auto simp: Let_def IH live_entries_Suc sizeof_vfat_direntry_def)
qed

section \<open>Properties\<close>

text \<open>The checksum loop computes, over the eleven name bytes, the sum in which each step rotates
  the running byte right by one and adds the next byte modulo 256; so changing any single byte of
  a name always changes its checksum.\<close>

theorem lfn_checksum_detects_change:
  assumes "length nm = 11" "i < 11" "b \<noteq> nm ! i"
  shows "lfn_checksum nm = foldl (\<lambda>a x. word_rotr 1 a + x) 0 nm
    \<and> lfn_checksum (nm[i := b]) \<noteq> lfn_checksum nm"
proof (intro conjI)
  let ?F = "foldl (\<lambda>a x. ror1 a + x)"
  have cs: "lfn_checksum xs = ?F 0 xs" if "length xs = 11" for xs
    using that lfn_checksum_loop_foldl [of 11 xs 0] by (simp add: lfn_checksum_def)
  show "lfn_checksum nm = foldl (\<lambda>a x. word_rotr 1 a + x) 0 nm"
    using cs [OF assms(1)] by (simp only: ror1_def)
  have nm: "nm = take i nm @ nm ! i # drop (Suc i) nm"
    using assms by (simp add: id_take_nth_drop)
  have upd: "nm[i := b] = take i nm @ b # drop (Suc i) nm"
    using assms by (simp add: upd_conv_take_nth_drop)
  show "lfn_checksum (nm[i := b]) \<noteq> lfn_checksum nm"
  proof
    assume "lfn_checksum (nm[i := b]) = lfn_checksum nm"
    then have "?F 0 (take i nm @ b # drop (Suc i) nm) = ?F 0 (take i nm @ nm ! i # drop (Suc i) nm)"
      using cs assms nm upd by (metis length_list_update)
    then have "ror1 (?F 0 (take i nm)) + b = ror1 (?F 0 (take i nm)) + nm ! i"
      unfolding foldl_append foldl_Cons by (rule foldl_ror1_inj)
    with assms(3) show False by simp
  qed
qed

theorem lfn_checksum_detects_change_witness:
  "lfn_checksum ([70, 73, 76, 69, 32, 32, 32, 32, 84, 88, 84][3 := 70])
     \<noteq> lfn_checksum [70, 73, 76, 69, 32, 32, 32, 32, 84, 88, 84]"
  by (rule lfn_checksum_detects_change [THEN conjunct2]) simp_all


text \<open>A directory with a deleted entry, a volume of sixteen-byte sectors around it.\<close>

definition sample_record :: "u8 \<Rightarrow> bytes" where
  "sample_record b = [b, 66] @ replicate 6 32 @ [84, 88, 84, VFAT_ATTR_ARCHIVE] @ replicate 20 0"

definition dir_disk :: bytes where
  "dir_disk = replicate 32 0 @ sample_record 0xE5 @ sample_record 65 @ replicate 32 0"

definition dir_vfat :: vfat where
  "dir_vfat = vfat_info\<lparr>fs := dir_disk, FirstDataSector := 2,
     boot_sector := Some (sample_super\<lparr>BPB_BytsPerSec := 16, BPB_SecPerClus := 1\<rparr>)\<rparr>"

lemma sample_record_length: "length (sample_record b) = 32"
  by (simp add: sample_record_def)

lemma dir_disk_records:
  "dir_record dir_disk 32 0 = sample_record 0xE5" "dir_record dir_disk 32 (Suc 0) = sample_record 65"
  "dir_record dir_disk 32 2 = replicate 32 0" "length dir_disk = 128"
  by (simp_all add: dir_record_def dir_disk_def slice_def sample_record_length)

lemma sample_record_skipped: "skipped (sample_record b) = (b = 0 \<or> b = 0xE5)"
  by (simp add: skipped_def sample_record_def VFAT_DIRNAME_NULL_def VFAT_DIRNAME_FREE_def
      VFAT_ATTR_LFN_def VFAT_ATTR_ARCHIVE_def VFAT_ATTR_READ_ONLY_def VFAT_ATTR_HIDDEN_def
      VFAT_ATTR_SYSTEM_def VFAT_ATTR_VOLUME_ID_def)

lemma dir_disk_at: "dir_at dir_disk 32 2"
proof -
  have first: "sample_record b ! 0 = b" "slice 0 8 (sample_record b) ! 0 = b" for b
    by (simp_all add: sample_record_def slice_def)
  show ?thesis
    by (auto simp: dir_at_def dir_disk_records first sample_record_skipped less_2_cases_iff)
qed

lemma dir_disk_live:
  "live_entries dir_disk 32 2 = [trim_direntry (vfat_direntry_of_bytes (sample_record 65))]"
proof -
  have "[0..<2] = [0, Suc 0]" by (simp add: upt_rec)
  then show ?thesis by (simp add: live_entries_def dir_disk_records sample_record_skipped)
qed

lemma dir_vfat_root: "boot_sector dir_vfat = Some (sample_super\<lparr>BPB_BytsPerSec := 16, BPB_SecPerClus := 1\<rparr>)"
  "root_dir_offset dir_vfat (sample_super\<lparr>BPB_BytsPerSec := 16, BPB_SecPerClus := 1\<rparr>) = of_nat 32"
  "fs dir_vfat = dir_disk"
  by (simp_all add: dir_vfat_def root_dir_offset_def ComputeFirstSectorOfCluster_def sample_super_def)


text \<open>Where the allocator overwrites a freed record's first byte with zero, the same scan stops
  at the first skipped record: a root directory that starts with a deleted or long-name record is
  not read at all, and closing the empty list writes through a null pointer.\<close>

theorem vfat_read_root_directory_use_after_free:
  assumes "boot_sector f = Some bs" "root_dir_offset f bs = of_nat off" "dir_at (fs f) off n"
    "skipped (dir_record (fs f) off 0)"
  shows "vfat_read_root_directory (Suc fuel) (\<lambda>_ _. 0) f = Inl Dir_null"
proof -
  have "pread_bytes (fs f) sizeof_vfat_direntry (uint (of_nat off :: u32)) = dir_record (fs f) off 0"
      "length (dir_record (fs f) off 0) = 32"
    using assms(3) by (intro dir_record_read [of off n]; simp add: dir_at_def)+
  then have "scan_dir (Suc fuel) (\<lambda>_ _. 0) (fs f) (of_nat off) [] = Scan_done []"
    using assms(4) by (simp add: sizeof_vfat_direntry_def)
  then show ?thesis
    using assms(1,2) by (simp add: vfat_read_root_directory_def del: scan_dir.simps)
qed

theorem vfat_read_root_directory_use_after_free_witness:
  "live_entries (fs dir_vfat) 32 2 \<noteq> [] \<and> vfat_read_root_directory 9 (\<lambda>_ _. 0) dir_vfat = Inl Dir_null"
  using vfat_read_root_directory_use_after_free [OF dir_vfat_root(1,2), of 2 8]
  by (simp add: dir_vfat_root(3) dir_disk_at dir_disk_live dir_disk_records sample_record_skipped)

end
