(* ===== verification/Vfat_Fat.thy ===== *)
theory Vfat_Fat
  imports Vfat_Init
begin

text \<open>
  The file allocation table of \<open>task3_vfat/vfat.c\<close>: \<open>get_next_cluster_number\<close>, which advances
  the pair (\<open>currentClusterNumber\<close>, \<open>nextClusterNumber\<close>) of the global state by one FAT
  lookup, and the cluster chains it follows.  The interface that a reader of a chain relies on is
  the locale \<open>cluster_cursor\<close>; \<open>get_next_cluster_number\<close> is interpreted in it.
\<close>

section \<open>One lookup\<close>

text \<open>
  \<open>int clusterOffset\<close> of the source: the sum is formed in 64 bits and stored in an \<open>int\<close>, so
  only its value modulo \<open>2 ^ 32\<close>, read as two's complement, reaches \<open>pread\<close>.
\<close>

definition clusterOffset :: "vfat_super \<Rightarrow> u32 \<Rightarrow> int" where
  "clusterOffset bs cluster =
     sint (ucast (BPB_RsvdSecCnt bs) * ucast (BPB_BytsPerSec bs) + cluster * 4 :: u32)"

definition read_fat_word :: "bytes \<Rightarrow> vfat_super \<Rightarrow> u32 \<Rightarrow> u32 \<Rightarrow> u32" where
  "read_fat_word disk bs cluster old =
     le32 (pread disk (to_le32 old) 4 (clusterOffset bs cluster)) 0 AND 0x0FFFFFFF"

text \<open>\<open>None\<close>: the boot sector pointer is null and the program crashes.\<close>

definition get_next_cluster_number :: "vfat \<Rightarrow> (vfat \<times> int) option" where
  "get_next_cluster_number f =
     (let f = f\<lparr>currentClusterNumber := nextClusterNumber f\<rparr> in
      if currentClusterNumber f > 0 \<and> \<not> IS_EOC (currentClusterNumber f) then
        (case boot_sector f of
           None \<Rightarrow> None
         | Some bs \<Rightarrow>
             Some (f\<lparr>nextClusterNumber :=
                       read_fat_word (fs f) bs (currentClusterNumber f) (nextClusterNumber f)\<rparr>, 0))
      else Some (f\<lparr>currentClusterNumber := -1, nextClusterNumber := -1\<rparr>, -1))"

section \<open>Cluster chains\<close>

text \<open>
  What the FAT says: entry \<open>n\<close> is the 32-bit word at byte \<open>4 n\<close> of the first FAT, of which the
  low 28 bits count.  A chain is the list of the data clusters of a file.
\<close>

definition fat_byte :: "vfat_super \<Rightarrow> u32 \<Rightarrow> nat" where
  "fat_byte bs n = unat (BPB_RsvdSecCnt bs) * unat (BPB_BytsPerSec bs) + 4 * unat n"

definition fat_entry :: "bytes \<Rightarrow> vfat_super \<Rightarrow> u32 \<Rightarrow> u32" where
  "fat_entry disk bs n =
     le32 (slice (fat_byte bs n) 4 disk) 0 AND 0x0FFFFFFF"

text \<open>The FAT word of a cluster lies on the device, at an offset that an \<open>int\<close> can hold.\<close>

definition fat_word_on_disk :: "bytes \<Rightarrow> vfat_super \<Rightarrow> u32 \<Rightarrow> bool" where
  "fat_word_on_disk disk bs n \<longleftrightarrow> fat_byte bs n + 4 \<le> length disk \<and> fat_byte bs n < 2 ^ 31"

fun is_chain :: "bytes \<Rightarrow> vfat_super \<Rightarrow> u32 \<Rightarrow> u32 list \<Rightarrow> bool" where
  "is_chain disk bs n [] \<longleftrightarrow> n = 0 \<or> IS_EOC n"
| "is_chain disk bs n (c # cs) \<longleftrightarrow>
     n = c \<and> c \<noteq> 0 \<and> \<not> IS_EOC c \<and> fat_word_on_disk disk bs c
     \<and> is_chain disk bs (fat_entry disk bs c) cs"

definition chain_left :: "vfat \<Rightarrow> u32 list \<Rightarrow> bool" where
  "chain_left f cs \<longleftrightarrow>
     (\<exists>bs. boot_sector f = Some bs \<and> is_chain (fs f) bs (nextClusterNumber f) cs)"

section \<open>The interface of a chain reader\<close>

locale cluster_cursor =
  fixes advance :: "'s \<Rightarrow> ('s \<times> int) option"
    and cur :: "'s \<Rightarrow> u32"
    and left :: "'s \<Rightarrow> u32 list \<Rightarrow> bool"
    and frame :: "'s \<Rightarrow> 'b"
  assumes advance_Cons:
      "left s (c # cs) \<Longrightarrow> \<exists>t. advance s = Some (t, 0) \<and> cur t = c \<and> left t cs \<and> frame t = frame s"
    and advance_Nil: "left s [] \<Longrightarrow> \<exists>t. advance s = Some (t, -1) \<and> frame t = frame s"
begin

fun walk :: "nat \<Rightarrow> 's \<Rightarrow> u32 list option" where
  "walk 0 s = None"
| "walk (Suc n) s =
     (case advance s of
        None \<Rightarrow> None
      | Some (t, r) \<Rightarrow> if r = -1 then Some [] else map_option ((#) (cur t)) (walk n t))"

lemma walk_visits: "left s cs \<Longrightarrow> length cs < n \<Longrightarrow> walk n s = Some cs"
proof (induction cs arbitrary: n s)
  case Nil
  then obtain m where "n = Suc m" by (cases n) auto
  with Nil show ?case using advance_Nil by fastforce
next
  case (Cons c cs)
  then obtain m where n: "n = Suc m" by (cases n) auto
  from Cons.prems(1) obtain t
    where t: "advance s = Some (t, 0)" "cur t = c" "left t cs" using advance_Cons by blast
  with Cons.prems(2) n have "walk m t = Some cs" by (intro Cons.IH) auto
  with t n show ?case by simp
qed

lemma left_unique: "left s cs \<Longrightarrow> left s ds \<Longrightarrow> cs = ds"
  using walk_visits [of s cs "Suc (length cs + length ds)"]
    walk_visits [of s ds "Suc (length cs + length ds)"] by simp

end

section \<open>Facts\<close>

lemma clusterOffset_eq:
  assumes "fat_word_on_disk disk bs n"
  shows "clusterOffset bs n = int (fat_byte bs n)"
proof -
  have "ucast (BPB_RsvdSecCnt bs) * ucast (BPB_BytsPerSec bs) + n * 4 = (of_nat (fat_byte bs n) :: u32)"
    by (simp add: fat_byte_def mult.commute)
  with assms show ?thesis
    by (simp add: clusterOffset_def fat_word_on_disk_def sint_of_nat32 del: of_nat_add of_nat_mult)
qed

lemma read_fat_word_eq:
  assumes "fat_word_on_disk disk bs n"
  shows "read_fat_word disk bs n old = fat_entry disk bs n"
  using assms clusterOffset_eq [OF assms]
  by (simp add: read_fat_word_def fat_entry_def pread_full_nat fat_word_on_disk_def)

lemma chain_left_Cons:
  assumes "chain_left f (c # cs)"
  shows "\<exists>f'. get_next_cluster_number f = Some (f', 0) \<and> currentClusterNumber f' = c
      \<and> chain_left f' cs \<and> fs f' = fs f \<and> boot_sector f' = boot_sector f
      \<and> FirstDataSector f' = FirstDataSector f"
  using assms
  by (auto simp: chain_left_def get_next_cluster_number_def Let_def read_fat_word_eq word_gt_0)

lemma chain_left_Nil:
  assumes "chain_left f []"
  shows "get_next_cluster_number f = Some (f\<lparr>currentClusterNumber := -1, nextClusterNumber := -1\<rparr>, -1)"
  using assms by (auto simp: chain_left_def get_next_cluster_number_def Let_def)

interpretation fat_cursor: cluster_cursor get_next_cluster_number currentClusterNumber chain_left
  "\<lambda>f. (fs f, boot_sector f, FirstDataSector f)"
  by unfold_locales (use chain_left_Cons chain_left_Nil in force)+

end
