(* ===== verification/Vfat_Read.thy ===== *)
theory Vfat_Read
  imports Vfat_Fat
begin

text \<open>
  \<open>vfat_fuse_read\<close> of \<open>task3_vfat/vfat.c\<close>.  The handler does not look at its path: it reads
  the directory entry at a fixed byte of the device and copies clusters of that entry's chain
  into the caller's buffer.  Its loop has no bound of its own (it stops when the chain does or
  after the round that sets \<open>last_round\<close>), so the model takes fuel; \<open>read_loop_enough\<close> shows
  that one unit per cluster of the chain, and one to see its end, is enough.
\<close>

section \<open>The handler\<close>

datatype read_result =
    Read_done vfat bytes  \<comment> \<open>the loop ended: state and buffer\<close>
  | Read_overrun          \<comment> \<open>more bytes were copied than the buffer holds\<close>
  | Read_crash            \<comment> \<open>null boot sector\<close>
  | Read_fuel             \<comment> \<open>the loop is still running\<close>

text \<open>The variable \<open>bytes_per_sector\<close>, which is the size of a cluster; it fits an \<open>int\<close>.\<close>

definition bytes_per_sector :: "vfat_super \<Rightarrow> u32" where
  "bytes_per_sector bs = ucast (BPB_BytsPerSec bs) * ucast (BPB_SecPerClus bs)"

text \<open>
  \<open>pread(f->fs, buf, to_read, dataStart + current_offset)\<close>: \<open>to_read\<close> is an \<open>int\<close> that is
  sign-extended to \<open>size_t\<close>, the position is an unsigned 32-bit sum.
\<close>

definition read_cluster :: "vfat \<Rightarrow> bytes \<Rightarrow> u32 \<Rightarrow> u32 \<Rightarrow> bytes option" where
  "read_cluster f buf to_read position =
     (let n = unat (scast to_read :: u64) in
      if length buf < length (pread_bytes (fs f) n (uint position)) then None
      else Some (pread (fs f) buf n (uint position)))"

fun read_loop :: "nat \<Rightarrow> vfat \<Rightarrow> vfat_super \<Rightarrow> u64 \<Rightarrow> u64 \<Rightarrow> bool \<Rightarrow> bytes \<Rightarrow> read_result" where
  "read_loop 0 f bs sz offset last_round buf = Read_fuel"
| "read_loop (Suc fuel) f bs sz offset last_round buf =
     (if last_round then Read_done f buf
      else case get_next_cluster_number f of
        None \<Rightarrow> Read_crash
      | Some (f, r) \<Rightarrow>
        if r = -1 then Read_done f buf
        else
          let bps = bytes_per_sector bs;
              dataStart = ucast (BPB_BytsPerSec bs)
                            * ComputeFirstSectorOfCluster f bs (currentClusterNumber f) in
          if sz + offset \<le> scast bps then
            (case read_cluster f buf (ucast (sz - offset)) (dataStart + ucast offset) of
               None \<Rightarrow> Read_overrun
             | Some buf \<Rightarrow> read_loop fuel f bs sz offset (sz + offset < scast bps) buf)
          else if sint offset \<ge> sint bps then
            read_loop fuel f bs sz (offset - scast bps) last_round buf
          else if sz > scast bps then
            (case read_cluster f buf (ucast (scast bps - offset)) (dataStart + ucast offset) of
               None \<Rightarrow> Read_overrun
             | Some buf \<Rightarrow> read_loop fuel f bs (sz - scast bps) 0 last_round buf)
          else
            (case read_cluster f buf (ucast (scast bps - offset)) (dataStart + ucast offset) of
               None \<Rightarrow> Read_overrun
             | Some buf \<Rightarrow>
                 read_loop fuel f bs
                   (sz - scast (ucast (scast bps - offset) :: u32)) 0 last_round buf))"

text \<open>The hard-coded position of the directory entry.\<close>

definition read_direntry_offset :: u32 where
  "read_direntry_offset = 0x000FDC20"

definition load_read_direntry :: "vfat \<Rightarrow> vfat" where
  "load_read_direntry f =
     (let d = vfat_direntry_of_bytes
                (pread (fs f) (vfat_direntry_to_bytes (currentDirentry f)) sizeof_vfat_direntry
                   (uint read_direntry_offset));
          c = VFAT_DIRENTRY_CLUSTER d
      in f\<lparr>currentDirentry := d, nextClusterNumber := c, currentClusterNumber := c\<rparr>)"

text \<open>
  The handler returns an \<open>int\<close>: \<open>-1\<close> when the offset is not below the size, else the
  requested size (\<open>total_bytes_read\<close>), whatever was read.
\<close>

definition vfat_fuse_read ::
  "nat \<Rightarrow> vfat \<Rightarrow> string \<Rightarrow> bytes \<Rightarrow> u64 \<Rightarrow> u64 \<Rightarrow> read_result \<times> int" where
  "vfat_fuse_read fuel f path buf sz offset =
     (if offset \<ge> sz then (Read_done f buf, -1)
      else
        let f = load_read_direntry f in
        case boot_sector f of
          None \<Rightarrow> (Read_crash, 0)
        | Some bs \<Rightarrow>
            (read_loop fuel f bs sz offset False buf, sint (ucast sz :: u32)))"

section \<open>Arithmetic of the loop\<close>

definition bps_nat :: "vfat_super \<Rightarrow> nat" where
  "bps_nat bs = unat (BPB_BytsPerSec bs) * unat (BPB_SecPerClus bs)"

lemma bps_nat_bound: "bps_nat bs < 2 ^ 24"
proof -
  have "unat (BPB_BytsPerSec bs) * unat (BPB_SecPerClus bs) \<le> 65535 * 255"
    using unat_bounds(2) [of "BPB_BytsPerSec bs"] unat_bounds(1) [of "BPB_SecPerClus bs"]
    by (intro mult_le_mono) auto
  then show ?thesis by (simp add: bps_nat_def)
qed

lemma bytes_per_sector_of_nat: "bytes_per_sector bs = of_nat (bps_nat bs)"
  by (simp add: bytes_per_sector_def bps_nat_def)

lemma unat_of_nat_small:
  "n < 2 ^ 31 \<Longrightarrow> unat (of_nat n :: u32) = n" "m < 2 ^ 63 \<Longrightarrow> unat (of_nat m :: u64) = m"
  by (simp_all add: unsigned_of_nat take_bit_nat_eq_self_iff)

lemma scast_of_nat_small: "n < 2 ^ 31 \<Longrightarrow> (scast (of_nat n :: u32) :: u64) = of_nat n"
  by (simp add: scast_eq sint_of_nat32)

lemma ucast_of_nat_down: "(ucast (of_nat n :: u64) :: u32) = of_nat n"
  by (rule unsigned_word_eqI) (simp add: unsigned_ucast_eq unsigned_of_nat take_bit_take_bit)

text \<open>
  The comparisons and differences of the loop over values below \<open>2 ^ 62\<close> are those of the
  natural numbers.
\<close>

lemma loop_arith:
  assumes "s < 2 ^ 62" "t < 2 ^ 62" "b < 2 ^ 24"
  shows "(of_nat s + of_nat t \<le> (scast (of_nat b :: u32) :: u64)) = (s + t \<le> b)"
    and "(of_nat s + of_nat t < (scast (of_nat b :: u32) :: u64)) = (s + t < b)"
    and "(sint (of_nat b :: u32) \<le> sint (of_nat t :: u64)) = (b \<le> t)"
    and "((scast (of_nat b :: u32) :: u64) < of_nat s) = (b < s)"
    and "t \<le> s \<Longrightarrow> (of_nat s :: u64) - of_nat t = of_nat (s - t)"
    and "b \<le> s \<Longrightarrow> (of_nat s :: u64) - scast (of_nat b :: u32) = of_nat (s - b)"
    and "t \<le> b \<Longrightarrow> (scast (of_nat b :: u32) :: u64) - of_nat t = of_nat (b - t)"
proof -
  have sc: "(scast (of_nat b :: u32) :: u64) = of_nat b"
    using assms by (simp add: scast_of_nat_small)
  have u: "unat (of_nat (s + t) :: u64) = s + t" "unat (of_nat b :: u64) = b"
      "unat (of_nat s :: u64) = s"
    using assms by (simp_all add: unat_of_nat_small del: of_nat_add)
  show "(of_nat s + of_nat t \<le> (scast (of_nat b :: u32) :: u64)) = (s + t \<le> b)"
    unfolding sc using u by (simp add: word_le_nat_alt)
  show "(of_nat s + of_nat t < (scast (of_nat b :: u32) :: u64)) = (s + t < b)"
    unfolding sc using u by (simp add: word_less_nat_alt)
  show "((scast (of_nat b :: u32) :: u64) < of_nat s) = (b < s)"
    unfolding sc using u by (simp add: word_less_nat_alt)
  have "sint (of_nat t :: u64) = int t"
    using assms by (simp add: signed_of_nat signed_take_bit_int_eq_self_iff)
  then show "(sint (of_nat b :: u32) \<le> sint (of_nat t :: u64)) = (b \<le> t)"
    using assms by (simp add: sint_of_nat32)
qed (use assms in \<open>simp_all add: scast_of_nat_small\<close>)

section \<open>One round of the loop\<close>

definition cluster_pos :: "vfat \<Rightarrow> vfat_super \<Rightarrow> u32 \<Rightarrow> nat \<Rightarrow> u32" where
  "cluster_pos f bs c k =
     ucast (BPB_BytsPerSec bs) * ComputeFirstSectorOfCluster f bs c + of_nat k"

lemma read_cluster_ok:
  assumes "n \<le> length buf" "n < 2 ^ 31"
  shows "read_cluster f buf (of_nat n) pos = Some (pread (fs f) buf n (uint pos))"
proof -
  have n: "unat (scast (of_nat n :: u32) :: u64) = n"
    using assms(2) by (simp add: scast_of_nat_small unat_of_nat_small)
  have "length (pread_bytes (fs f) n (uint pos)) \<le> n" by (rule length_pread_bytes)
  with assms show ?thesis by (simp add: read_cluster_def n Let_def)
qed

lemma read_loop_round:
  assumes adv: "get_next_cluster_number f = Some (f', 0)" and lt: "t < s" "s < 2 ^ 62"
    and buf: "s \<le> length buf"
  shows "read_loop (Suc fuel) f bs (of_nat s) (of_nat t) False buf =
    (let b = bps_nat bs; pos = cluster_pos f' bs (currentClusterNumber f') t in
     if s + t \<le> b then
       read_loop fuel f' bs (of_nat s) (of_nat t) (s + t < b) (pread (fs f') buf (s - t) (uint pos))
     else if b \<le> t then read_loop fuel f' bs (of_nat s) (of_nat (t - b)) False buf
     else if b < s then
       read_loop fuel f' bs (of_nat (s - b)) 0 False (pread (fs f') buf (b - t) (uint pos))
     else read_loop fuel f' bs (of_nat (s - (b - t))) 0 False (pread (fs f') buf (b - t) (uint pos)))"
proof -
  have b: "bps_nat bs < 2 ^ 24" by (rule bps_nat_bound)
  have t: "t < 2 ^ 62" using lt by simp
  note ar = loop_arith [OF lt(2) t b]
  have sb: "bps_nat bs \<le> t \<Longrightarrow> (of_nat t :: u64) - scast (of_nat (bps_nat bs) :: u32) = of_nat (t - bps_nat bs)"
    using loop_arith(6) [OF t t b] .
  have sx: "bps_nat bs - t \<le> s \<Longrightarrow>
      (of_nat s :: u64) - scast (of_nat (bps_nat bs - t) :: u32) = of_nat (s - (bps_nat bs - t))"
    using loop_arith(6) [OF lt(2) t, of "bps_nat bs - t"] b by simp
  show ?thesis
    using adv lt buf b ar(5,6,7) sb sx
    by (simp add: Let_def bytes_per_sector_of_nat ar(1-4) cluster_pos_def ucast_of_nat_down
        read_cluster_ok not_le del: of_nat_diff of_nat_add)
qed

section \<open>Facts about whole runs\<close>

lemma get_next_result:
  "get_next_cluster_number f = Some (f', r) \<Longrightarrow> r = 0 \<or> r = -1"
  by (auto simp: get_next_cluster_number_def Let_def split: if_splits option.splits)

lemma read_loop_round_ex:
  assumes adv: "get_next_cluster_number f = Some (f', 0)" and st: "t < s" "s < 2 ^ 62"
    and buf: "s \<le> length buf"
  shows "\<exists>s' t' last' buf'. t' < s' \<and> s' \<le> s \<and> length buf' = length buf
    \<and> read_loop (Suc fuel) f bs (of_nat s) (of_nat t) False buf
        = read_loop fuel f' bs (of_nat s') (of_nat t') last' buf'"
proof -
  let ?b = "bps_nat bs" and ?pos = "uint (cluster_pos f' bs (currentClusterNumber f') t)"
  note round = read_loop_round [OF adv st buf, of fuel bs, unfolded Let_def]
  consider "s + t \<le> ?b" | "\<not> s + t \<le> ?b" "?b \<le> t" | "\<not> s + t \<le> ?b" "\<not> ?b \<le> t" "?b < s"
    | "\<not> s + t \<le> ?b" "\<not> ?b \<le> t" "\<not> ?b < s" by blast
  then show ?thesis
  proof cases
    case 1
    then show ?thesis using round st buf
      by (intro exI [of _ s] exI [of _ t] exI [of _ "s + t < ?b"]
          exI [of _ "pread (fs f') buf (s - t) ?pos"]) simp
  next
    case 2
    then show ?thesis using round st
      by (intro exI [of _ s] exI [of _ "t - ?b"] exI [of _ False] exI [of _ buf])
        (simp del: of_nat_diff)
  next
    case 3
    then show ?thesis using round buf
      by (intro exI [of _ "s - ?b"] exI [of _ 0] exI [of _ False]
          exI [of _ "pread (fs f') buf (?b - t) ?pos"]) (simp del: of_nat_diff)
  next
    case 4
    then show ?thesis using round buf
      by (intro exI [of _ "s - (?b - t)"] exI [of _ 0] exI [of _ False]
          exI [of _ "pread (fs f') buf (?b - t) ?pos"]) (simp del: of_nat_diff)
  qed
qed

lemma read_loop_safe:
  assumes "t < s" "s < 2 ^ 62" "s \<le> length buf"
  shows "read_loop fuel f bs (of_nat s) (of_nat t) last_round buf \<noteq> Read_overrun
    \<and> (\<forall>f' buf'. read_loop fuel f bs (of_nat s) (of_nat t) last_round buf = Read_done f' buf'
          \<longrightarrow> length buf' = length buf)"
  using assms
proof (induction fuel arbitrary: f s t last_round buf)
  case (Suc fuel)
  show ?case
  proof (cases "last_round \<or> (\<nexists>f'. get_next_cluster_number f = Some (f', 0))")
    case True
    then consider last_round | "\<not> last_round" "get_next_cluster_number f = None"
      | g where "\<not> last_round" "get_next_cluster_number f = Some (g, -1)"
      using get_next_result by (metis option.exhaust prod.exhaust)
    then show ?thesis by cases simp_all
  next
    case False
    then obtain f' where f': "\<not> last_round" "get_next_cluster_number f = Some (f', 0)" by auto
    obtain s' t' l' buf' where "t' < s'" "s' \<le> s" "length buf' = length buf"
        "read_loop (Suc fuel) f bs (of_nat s) (of_nat t) False buf
           = read_loop fuel f' bs (of_nat s') (of_nat t') l' buf'"
      using read_loop_round_ex [OF f'(2) Suc.prems] by blast
    with f'(1) Suc.IH [of t' s' buf'] Suc.prems show ?thesis
      by (simp del: read_loop.simps)
  qed
qed simp

lemma read_loop_enough:
  assumes "chain_left f cs" "length cs < fuel" "t < s" "s < 2 ^ 62" "s \<le> length buf"
  shows "\<exists>f' buf'. read_loop fuel f bs (of_nat s) (of_nat t) last_round buf = Read_done f' buf'"
  using assms
proof (induction cs arbitrary: fuel f s t last_round buf)
  case Nil
  then obtain m where "fuel = Suc m" by (cases fuel) auto
  with Nil show ?case by (simp add: chain_left_Nil)
next
  case (Cons c cs)
  then obtain m where m: "fuel = Suc m" "length cs < m" by (cases fuel) auto
  from Cons.prems(1) obtain f' where f': "get_next_cluster_number f = Some (f', 0)" "chain_left f' cs"
    using chain_left_Cons by blast
  obtain s' t' l' buf' where "t' < s'" "s' \<le> s" "length buf' = length buf"
      "read_loop (Suc m) f bs (of_nat s) (of_nat t) False buf
         = read_loop m f' bs (of_nat s') (of_nat t') l' buf'"
    using read_loop_round_ex [OF f'(1) Cons.prems(3-5)] by blast
  with m Cons.IH [OF f'(2) m(2), of t' s' buf'] Cons.prems(4,5) show ?case
    by (cases last_round) (simp_all del: read_loop.simps(2), simp)
qed

text \<open>\<open>n\<close> bytes of cluster \<open>c\<close> lie on the device; and those bytes.\<close>

definition cluster_on_disk :: "vfat \<Rightarrow> vfat_super \<Rightarrow> nat \<Rightarrow> u32 \<Rightarrow> bool" where
  "cluster_on_disk f bs n c \<longleftrightarrow> unat (cluster_pos f bs c 0) + n \<le> length (fs f)"

definition cluster_data :: "vfat \<Rightarrow> vfat_super \<Rightarrow> nat \<Rightarrow> u32 \<Rightarrow> bytes" where
  "cluster_data f bs n c = slice (unat (cluster_pos f bs c 0)) n (fs f)"

lemma cluster_frame:
  assumes "fs f' = fs f" "FirstDataSector f' = FirstDataSector f"
  shows "cluster_on_disk f' bs n c = cluster_on_disk f bs n c"
    and "cluster_data f' bs n c = cluster_data f bs n c"
    and "cluster_pos f' bs c k = cluster_pos f bs c k"
  using assms
  by (simp_all add: cluster_on_disk_def cluster_data_def cluster_pos_def ComputeFirstSectorOfCluster_def)

lemma pread_cluster:
  assumes "cluster_on_disk f bs n c" "n \<le> length buf"
  shows "pread (fs f) buf n (uint (cluster_pos f bs c 0)) = cluster_data f bs n c @ drop n buf"
proof -
  have "length (cluster_data f bs n c) = n"
    using assms(1) by (simp add: cluster_data_def cluster_on_disk_def length_slice)
  then show ?thesis
    by (simp add: pread_def pread_bytes_def cluster_data_def Let_def)
qed

lemma length_cluster_data: "cluster_on_disk f bs n c \<Longrightarrow> length (cluster_data f bs n c) = n"
  by (simp add: cluster_data_def cluster_on_disk_def length_slice)

lemma read_last_round: "read_loop (Suc fuel) f bs sz off True buf = Read_done f buf"
  by simp

lemma read_one_cluster_aux:
  assumes "chain_left f (c # cs)" "0 < s" "s < bps_nat bs" "s \<le> length buf"
    "cluster_on_disk f bs s c" "2 \<le> fuel"
  shows "\<exists>f'. read_loop fuel f bs (of_nat s) 0 False buf
    = Read_done f' (cluster_data f bs s c @ drop s buf)"
proof -
  obtain m where m: "fuel = Suc (Suc m)" using assms(6) by (metis add_2_eq_Suc le_Suc_ex)
  obtain f' where f': "get_next_cluster_number f = Some (f', 0)" "currentClusterNumber f' = c"
      "fs f' = fs f" "FirstDataSector f' = FirstDataSector f"
    using chain_left_Cons [OF assms(1)] by blast
  have s: "s < 2 ^ 62" using assms(3) bps_nat_bound [of bs] by simp
  have "pread (fs f') buf s (uint (cluster_pos f' bs c 0)) = cluster_data f bs s c @ drop s buf"
    using pread_cluster [of f' bs s c buf] assms(4,5) by (simp add: cluster_frame [OF f'(3,4)])
  then show ?thesis
    using read_loop_round [OF f'(1) assms(2) s assms(4), of "Suc m" bs] assms(3) f'(2)
    unfolding m by (simp add: Let_def del: read_loop.simps add: read_last_round)
qed

lemma read_exact_cluster_aux:
  assumes "chain_left f cs" "bps_nat bs = b" "0 < b" "length buf = b"
    "\<And>c. c \<in> set cs \<Longrightarrow> cluster_on_disk f bs b c" "length cs < fuel"
  shows "\<exists>f'. read_loop fuel f bs (of_nat b) 0 False buf
    = Read_done f' (if cs = [] then buf else cluster_data f bs b (last cs))"
  using assms
proof (induction cs arbitrary: f buf fuel)
  case Nil
  then obtain m where "fuel = Suc m" by (cases fuel) auto
  with Nil show ?case by (simp add: chain_left_Nil)
next
  case (Cons c cs)
  obtain m where m: "fuel = Suc m" "length cs < m" using Cons.prems(6) by (cases fuel) auto
  obtain f' where f': "get_next_cluster_number f = Some (f', 0)" "currentClusterNumber f' = c"
      "fs f' = fs f" "FirstDataSector f' = FirstDataSector f" "chain_left f' cs"
    using chain_left_Cons [OF Cons.prems(1)] by blast
  note fr = cluster_frame [OF f'(3,4)]
  have b: "b < 2 ^ 62" using Cons.prems(2) bps_nat_bound [of bs] by simp
  have on: "cluster_on_disk f' bs b c" using Cons.prems(5) by (simp add: fr)
  have buf': "pread (fs f') buf b (uint (cluster_pos f' bs c 0)) = cluster_data f bs b c"
    using pread_cluster [OF on, of buf] Cons.prems(4) by (simp add: fr)
  have step: "read_loop fuel f bs (of_nat b) 0 False buf
      = read_loop m f' bs (of_nat b) 0 False (cluster_data f bs b c)"
    using read_loop_round [OF f'(1) Cons.prems(3) b, of buf m bs] Cons.prems(2,4) f'(2) buf'
    unfolding m by (simp add: Let_def del: read_loop.simps)
  have "length (cluster_data f bs b c) = b" using on by (simp add: fr length_cluster_data)
  then obtain g where "read_loop m f' bs (of_nat b) 0 False (cluster_data f bs b c)
      = Read_done g (if cs = [] then cluster_data f bs b c else cluster_data f' bs b (last cs))"
    using Cons.IH [OF f'(5) Cons.prems(2,3) _ _ m(2)] Cons.prems(5) by (auto simp: fr)
  with step show ?case by (auto simp: fr)
qed

lemma read_two_clusters_aux:
  assumes "chain_left f (c # e # cs)" "bps_nat bs = b" "b < s" "s < 2 * b" "length buf = s"
    "cluster_on_disk f bs b c" "cluster_on_disk f bs (s - b) e" "3 \<le> fuel"
  shows "\<exists>f'. read_loop fuel f bs (of_nat s) 0 False buf
    = Read_done f' (cluster_data f bs (s - b) e @ drop (s - b) (cluster_data f bs b c @ drop b buf))"
proof -
  obtain m where m: "fuel = Suc m" "2 \<le> m" using assms(8) by (cases fuel) auto
  obtain f' where f': "get_next_cluster_number f = Some (f', 0)" "currentClusterNumber f' = c"
      "fs f' = fs f" "FirstDataSector f' = FirstDataSector f" "chain_left f' (e # cs)"
    using chain_left_Cons [OF assms(1)] by blast
  note fr = cluster_frame [OF f'(3,4)]
  let ?buf = "cluster_data f bs b c @ drop b buf"
  have s: "s < 2 ^ 62" "0 < s" using assms(2,3,4) bps_nat_bound [of bs] by simp_all
  have on: "cluster_on_disk f' bs b c" "cluster_on_disk f' bs (s - b) e"
    using assms(6,7) by (simp_all add: fr)
  have "pread (fs f') buf b (uint (cluster_pos f' bs c 0)) = ?buf"
    using pread_cluster [OF on(1), of buf] assms(3,5) by (simp add: fr)
  then have step: "read_loop fuel f bs (of_nat s) 0 False buf
      = read_loop m f' bs (of_nat (s - b)) 0 False ?buf"
    using read_loop_round [OF f'(1) s(2,1), of buf m bs] assms(2-5) f'(2) unfolding m
    by (simp add: Let_def del: read_loop.simps of_nat_diff)
  have "\<exists>g. read_loop m f' bs (of_nat (s - b)) 0 False ?buf
      = Read_done g (cluster_data f' bs (s - b) e @ drop (s - b) ?buf)"
    by (rule read_one_cluster_aux [OF f'(5)]) (use assms on m in auto)
  with step show ?thesis by (auto simp: fr)
qed

section \<open>Properties\<close>

text \<open>A request of \<open>s\<close> bytes at offset \<open>t\<close> into a buffer of \<open>s\<close> bytes reaches the loop.\<close>

lemma vfat_fuse_read_nat:
  assumes "t < s" "s < 2 ^ 62" "boot_sector f = Some bs"
  shows "vfat_fuse_read fuel f path buf (of_nat s) (of_nat t)
    = (read_loop fuel (load_read_direntry f) bs (of_nat s) (of_nat t) False buf,
       sint (of_nat s :: u32))"
proof -
  have "\<not> (of_nat s :: u64) \<le> of_nat t"
    using assms by (simp add: word_le_nat_alt unat_of_nat_small)
  moreover have "boot_sector (load_read_direntry f) = Some bs"
    using assms(3) by (simp add: load_read_direntry_def Let_def)
  ultimately show ?thesis by (simp add: vfat_fuse_read_def Let_def ucast_of_nat_down)
qed

text \<open>C8: Whatever the device holds, a read request never copies more bytes than the caller's buffer
  has room for, for any chain of clusters, any cluster size and any number of rounds, and the
  buffer keeps its length.\<close>

theorem vfat_fuse_read_in_buffer:
  assumes "boot_sector f = Some bs" "t < s" "s < 2 ^ 62" "length buf = s"
  shows "fst (vfat_fuse_read fuel f path buf (of_nat s) (of_nat t)) \<noteq> Read_overrun
    \<and> (\<forall>f' buf'. fst (vfat_fuse_read fuel f path buf (of_nat s) (of_nat t)) = Read_done f' buf'
          \<longrightarrow> length buf' = s)"
  using assms read_loop_safe [of t s buf fuel "load_read_direntry f" bs False]
  by (auto simp: vfat_fuse_read_nat)


text \<open>A request at offset 0 for less than a cluster returns exactly the first bytes of the
  file's first cluster.\<close>

theorem vfat_fuse_read_first_cluster:
  assumes "boot_sector f = Some bs" "chain_left (load_read_direntry f) (c # cs)"
    "0 < s" "s < bps_nat bs" "length buf = s" "cluster_on_disk f bs s c" "2 \<le> fuel"
  shows "\<exists>f'. vfat_fuse_read fuel f path buf (of_nat s) 0
    = (Read_done f' (cluster_data f bs s c), int s)"
proof -
  let ?g = "load_read_direntry f"
  have fr: "fs ?g = fs f" "FirstDataSector ?g = FirstDataSector f"
    by (simp_all add: load_read_direntry_def Let_def)
  have s: "s < 2 ^ 31" using assms(4) bps_nat_bound [of bs] by simp
  have "\<exists>f'. read_loop fuel ?g bs (of_nat s) 0 False buf
      = Read_done f' (cluster_data ?g bs s c @ drop s buf)"
    by (rule read_one_cluster_aux) (use assms in \<open>simp_all add: cluster_frame [OF fr]\<close>)
  with assms s show ?thesis
    using vfat_fuse_read_nat [of 0 s f bs fuel path buf]
    by (auto simp: cluster_frame [OF fr] sint_of_nat32)
qed

text \<open>A request that spans two clusters leaves the second cluster's bytes at the start of the
  buffer, over the first cluster's: the clusters are not concatenated, yet the full size is
  reported.\<close>

theorem vfat_fuse_read_two_clusters_overwrites:
  assumes "boot_sector f = Some bs" "chain_left (load_read_direntry f) (c # e # cs)"
    "bps_nat bs = b" "b < s" "s < 2 * b" "length buf = s"
    "cluster_on_disk f bs b c" "cluster_on_disk f bs (s - b) e" "3 \<le> fuel"
  shows "\<exists>f'. vfat_fuse_read fuel f path buf (of_nat s) 0
    = (Read_done f' (cluster_data f bs (s - b) e
         @ drop (s - b) (cluster_data f bs b c) @ drop b buf), int s)"
proof -
  let ?g = "load_read_direntry f"
  have fr: "fs ?g = fs f" "FirstDataSector ?g = FirstDataSector f"
    by (simp_all add: load_read_direntry_def Let_def)
  have s: "s < 2 ^ 31" using assms(3,5) bps_nat_bound [of bs] by simp
  have "\<exists>f'. read_loop fuel ?g bs (of_nat s) 0 False buf = Read_done f' (cluster_data ?g bs (s - b) e
      @ drop (s - b) (cluster_data ?g bs b c @ drop b buf))"
    by (rule read_two_clusters_aux [OF assms(2)])
      (use assms in \<open>simp_all add: cluster_frame [OF fr]\<close>)
  moreover have "length (cluster_data f bs b c) = b" using assms(7) by (rule length_cluster_data)
  ultimately show ?thesis
    using vfat_fuse_read_nat [of 0 s f bs fuel path buf] assms s
    by (auto simp: cluster_frame [OF fr] sint_of_nat32)
qed

text \<open>A request at offset 0 for exactly one cluster does not stop after the first round
  (\<open>last_round\<close> is set only when the request is strictly smaller): it returns the bytes of the
  last cluster of the chain.\<close>

theorem vfat_fuse_read_exact_cluster:
  assumes "boot_sector f = Some bs" "chain_left (load_read_direntry f) cs" "cs \<noteq> []"
    "bps_nat bs = b" "0 < b" "length buf = b" "length cs < fuel"
    "\<forall>c \<in> set cs. cluster_on_disk f bs b c"
  shows "\<exists>f'. vfat_fuse_read fuel f path buf (of_nat b) 0
    = (Read_done f' (cluster_data f bs b (last cs)), int b)"
proof -
  let ?g = "load_read_direntry f"
  have fr: "fs ?g = fs f" "FirstDataSector ?g = FirstDataSector f"
    by (simp_all add: load_read_direntry_def Let_def)
  have b: "b < 2 ^ 31" using assms(4) bps_nat_bound [of bs] by simp
  have "\<exists>f'. read_loop fuel ?g bs (of_nat b) 0 False buf
      = Read_done f' (if cs = [] then buf else cluster_data ?g bs b (last cs))"
    by (rule read_exact_cluster_aux [OF assms(2)])
      (use assms in \<open>simp_all add: cluster_frame [OF fr]\<close>)
  then show ?thesis
    using vfat_fuse_read_nat [of 0 b f bs fuel path buf] assms b
    by (auto simp: cluster_frame [OF fr] sint_of_nat32)
qed

section \<open>A small volume\<close>

text \<open>
  Sixteen-byte sectors, one per cluster; the FAT in sectors 1 and 2 links cluster 2 to cluster 3,
  which ends its chain; the data area starts at sector 3.  The device is shorter than the fixed
  offset of the directory entry, so the entry in memory, whose first cluster is 2, stays.
\<close>

definition tiny_disk :: bytes where
  "tiny_disk = replicate 16 0
     @ to_le32 0x0FFFFFF8 @ to_le32 0x0FFFFFFF @ to_le32 3 @ to_le32 0x0FFFFFFF @ replicate 16 0
     @ replicate 16 65 @ replicate 16 66"

definition tiny_super :: vfat_super where
  "tiny_super = sample_super\<lparr>BPB_BytsPerSec := 16, BPB_SecPerClus := 1, BPB_RsvdSecCnt := 1\<rparr>"

definition tiny_vfat :: vfat where
  "tiny_vfat = vfat_info\<lparr>fs := tiny_disk, boot_sector := Some tiny_super, FirstDataSector := 3,
     currentDirentry := (vfat_direntry_of_bytes (replicate 32 0))\<lparr>DIR_FstClusLO := 2\<rparr>\<rparr>"

lemma tiny_entry_wf: "vfat_direntry_wf (currentDirentry tiny_vfat)"
  by (simp add: tiny_vfat_def vfat_direntry_wf_def vfat_direntry_of_bytes_def slice_def)

lemma tiny_load: "load_read_direntry tiny_vfat
    = tiny_vfat\<lparr>nextClusterNumber := 2, currentClusterNumber := 2\<rparr>"
proof -
  have "length tiny_disk = 80" by (simp add: tiny_disk_def)
  then have "pread (fs tiny_vfat) buf n (uint read_direntry_offset) = buf" for buf n
    by (simp add: tiny_vfat_def pread_def pread_bytes_def slice_def read_direntry_offset_def Let_def)
  moreover have "VFAT_DIRENTRY_CLUSTER (currentDirentry tiny_vfat) = 2"
    by (simp add: tiny_vfat_def VFAT_DIRENTRY_CLUSTER_def vfat_direntry_of_bytes_def le16_def)
  ultimately show ?thesis
    by (simp add: load_read_direntry_def vfat_direntry_roundtrip_aux tiny_entry_wf Let_def)
qed

lemma tiny_fat: "fat_word_on_disk tiny_disk tiny_super 2" "fat_word_on_disk tiny_disk tiny_super 3"
  "fat_entry tiny_disk tiny_super 2 = 3" "fat_entry tiny_disk tiny_super 3 = 0x0FFFFFFF"
  by (simp_all add: fat_word_on_disk_def fat_entry_def fat_byte_def tiny_super_def tiny_disk_def
      slice_append_exact sample_super_def)

lemma tiny_chain: "chain_left (load_read_direntry tiny_vfat) [2, 3]"
  unfolding tiny_load by (simp add: chain_left_def tiny_vfat_def tiny_fat IS_EOC_def VFAT_EOC_def)

lemma tiny_facts: "boot_sector tiny_vfat = Some tiny_super" "bps_nat tiny_super = 16"
  "cluster_on_disk tiny_vfat tiny_super n 2 = (n \<le> 32)"
  "cluster_on_disk tiny_vfat tiny_super n 3 = (n \<le> 16)"
  "cluster_data tiny_vfat tiny_super n 2 = take n (replicate 16 65 @ replicate 16 66)"
  "cluster_data tiny_vfat tiny_super n 3 = take n (replicate 16 66)"
  by (simp_all add: tiny_vfat_def bps_nat_def tiny_super_def cluster_on_disk_def cluster_data_def
      cluster_pos_def ComputeFirstSectorOfCluster_def tiny_disk_def slice_def)

theorem vfat_fuse_read_in_buffer_witness:
  "fst (vfat_fuse_read 9 tiny_vfat ''/a'' (replicate 20 0) 20 5) \<noteq> Read_overrun"
  using vfat_fuse_read_in_buffer [of tiny_vfat tiny_super 5 20 "replicate 20 0" 9 "''/a''"]
  by (simp add: tiny_facts)


theorem vfat_fuse_read_first_cluster_witness:
  "\<exists>f'. vfat_fuse_read 2 tiny_vfat ''/a'' (replicate 4 0) 4 0 = (Read_done f' [65, 65, 65, 65], 4)"
  using vfat_fuse_read_first_cluster [OF tiny_facts(1) tiny_chain, of 4 "replicate 4 0" 2 "''/a''"]
  by (simp add: tiny_facts numeral_eq_Suc)

theorem vfat_fuse_read_two_clusters_overwrites_witness:
  "\<exists>f'. vfat_fuse_read 3 tiny_vfat ''/a'' (replicate 20 0) 20 0
     = (Read_done f' (replicate 4 66 @ replicate 12 65 @ replicate 4 0), 20)"
  using vfat_fuse_read_two_clusters_overwrites
    [OF tiny_facts(1) tiny_chain tiny_facts(2), of 20 "replicate 20 0" 3 "''/a''"]
  by (simp add: tiny_facts)

theorem vfat_fuse_read_exact_cluster_witness:
  "\<exists>f'. vfat_fuse_read 3 tiny_vfat ''/a'' (replicate 16 0) 16 0 = (Read_done f' (replicate 16 66), 16)"
  using vfat_fuse_read_exact_cluster
    [OF tiny_facts(1) tiny_chain _ tiny_facts(2), of "replicate 16 0" 3 "''/a''"]
  by (simp add: tiny_facts)

end
