(* ===== verification/Vfat_Fuse.thy ===== *)
theory Vfat_Fuse
  imports Vfat_Dir Vfat_Read
begin

text \<open>
  The FUSE side of \<open>task3_vfat/vfat.c\<close>: path splitting and resolution, the handlers
  \<open>getattr\<close> and \<open>readdir\<close>, the option callback and the start-up sequence of \<open>main\<close>.  FUSE
  itself is not part of the repository: the directory filler it hands to \<open>readdir\<close> is a
  parameter, a function that adds a name to the caller's data (its result is ignored by the code).
\<close>

section \<open>Paths\<close>

text \<open>
  A \<open>char *\<close> into a buffer is the buffer and an index; an index at or past the end of the
  buffer cannot be read (\<open>None\<close>).
\<close>

definition c_str_at :: "bytes \<Rightarrow> nat \<Rightarrow> bytes option" where
  "c_str_at buf i = c_string (drop i buf)"

function path_end :: "bytes \<Rightarrow> nat \<Rightarrow> nat option" where
  "path_end buf i =
     (if i < length buf then (if buf ! i = 0 \<or> buf ! i = 47 then Some i else path_end buf (Suc i))
      else None)"
  by pat_completeness auto
termination
  by (relation "measure (\<lambda>(buf, i). length buf - i)") auto

declare path_end.simps [simp del]

text \<open>
  \<open>split_path_root(&path, &head)\<close>: the buffer with a zero written after the head, the position
  of the head, and the new position of the path.
\<close>

definition split_path_root :: "bytes \<Rightarrow> nat \<Rightarrow> (bytes \<times> nat \<times> nat) option" where
  "split_path_root buf path =
     (if path < length buf then
        let head = (if buf ! path \<noteq> 0 \<and> buf ! path = 47 then Suc path else path) in
        map_option (\<lambda>e. (buf[e := 0], head, Suc e)) (path_end buf head)
      else None)"

fun strcmp_nonzero :: "bytes \<Rightarrow> bytes \<Rightarrow> bool option" where
  "strcmp_nonzero (x # xs) (y # ys) =
     (if x \<noteq> y then Some True else if x = 0 then Some False else strcmp_nonzero xs ys)"
| "strcmp_nonzero _ _ = None"

datatype resolve_fault = Res_overread | Res_uninit | Res_scan dir_fault | Res_fuel

fun pick_entry :: "list_direntry \<Rightarrow> bytes \<Rightarrow> resolve_fault + vfat_direntry option" where
  "pick_entry Dnull head = Inr None"
| "pick_entry Duninit head = Inl Res_uninit"
| "pick_entry (Dnode d rest) head =
     (case strcmp_nonzero head (vfat_direntry_to_bytes d) of
        None \<Rightarrow> Inl Res_overread
      | Some True \<Rightarrow> Inr (Some d)
      | Some False \<Rightarrow> pick_entry rest head)"

fun vfat_resolve_dir ::
  "nat \<Rightarrow> nat \<Rightarrow> (u32 \<Rightarrow> u8 \<Rightarrow> u8) \<Rightarrow> vfat \<Rightarrow> bytes \<Rightarrow> nat \<Rightarrow> resolve_fault + vfat \<times> int" where
  "vfat_resolve_dir 0 scan_fuel freed f buf path = Inl Res_fuel"
| "vfat_resolve_dir (Suc n) scan_fuel freed f buf path =
     (case c_str_at buf path of
        None \<Rightarrow> Inl Res_overread
      | Some s \<Rightarrow>
        if s = [] then Inr (f, 1)
        else case split_path_root buf path of
          None \<Rightarrow> Inl Res_overread
        | Some (buf, head, path) \<Rightarrow>
          (case c_str_at buf path of
             None \<Rightarrow> Inl Res_overread
           | Some tail \<Rightarrow>
             (case pick_entry (current_direntries_list f) (drop head buf) of
                Inl e \<Rightarrow> Inl e
              | Inr None \<Rightarrow> Inr (f, 0)
              | Inr (Some d) \<Rightarrow>
                let f = f\<lparr>current_direntry := Some d\<rparr> in
                if DIR_Attr d = VFAT_ATTR_DIRECTORY then
                  (case vfat_read_directory scan_fuel freed f of
                     Inl e \<Rightarrow> Inl (Res_scan e)
                   | Inr f \<Rightarrow> vfat_resolve_dir n scan_fuel freed f buf path)
                else Inr (f, if tail = [] then 1 else 0))))"

definition vfat_resolve :: "vfat \<Rightarrow> string \<Rightarrow> vfat \<times> int" where
  "vfat_resolve f path_cst =
     (if path_cst = [] then (f, 1)
      else (f\<lparr>current_direntries_list := root_direntries_list f\<rparr>, 0))"

section \<open>Handlers\<close>

record stat_buf =
  st_mode :: nat
  st_nlink :: nat
  st_size :: nat
  st_uid :: nat
  st_gid :: nat

definition zero_stat :: stat_buf where
  "zero_stat = \<lparr>st_mode = 0, st_nlink = 0, st_size = 0, st_uid = 0, st_gid = 0\<rparr>"

definition S_IFDIR :: nat where "S_IFDIR = 0x4000"
definition S_IFREG :: nat where "S_IFREG = 0x8000"
definition ENOENT :: int where "ENOENT = 2"

definition hello_str :: string where "hello_str = ''Hello World!'' @ [CHR 0x0A]"
definition hello_path :: string where "hello_path = ''/hello''"

definition vfat_fuse_getattr :: "string \<Rightarrow> stat_buf \<times> int" where
  "vfat_fuse_getattr path =
     (if path = ''/'' then (zero_stat\<lparr>st_mode := S_IFDIR OR 0x1ED, st_nlink := 2\<rparr>, 0)
      else if path = hello_path then
        (zero_stat\<lparr>st_mode := S_IFREG OR 0x124, st_nlink := 1, st_size := length hello_str\<rparr>, 0)
      else (zero_stat, - ENOENT))"

datatype readdir_fault = Name_overread | List_uninit

text \<open>\<open>strncpy(name, DIR_Name, 8)\<close> into eight zeroed bytes.\<close>

definition strncpy8 :: "bytes \<Rightarrow> bytes" where
  "strncpy8 src = (let s = takeWhile (\<lambda>b. b \<noteq> 0) (take 8 src) in s @ replicate (8 - length s) 0)"

fun readdir_loop :: "('d \<Rightarrow> bytes \<Rightarrow> 'd) \<Rightarrow> list_direntry \<Rightarrow> 'd \<Rightarrow> readdir_fault + 'd" where
  "readdir_loop filler Dnull data = Inr data"
| "readdir_loop filler Duninit data = Inl List_uninit"
| "readdir_loop filler (Dnode d rest) data =
     (let name = strncpy8 (DIR_Name d) in
      case c_string name of
        None \<Rightarrow> Inl Name_overread
      | Some _ \<Rightarrow>
        (case c_string (trim_nstr name 8) of
           None \<Rightarrow> Inl Name_overread
         | Some n \<Rightarrow> readdir_loop filler rest (filler data n)))"

definition vfat_readdir :: "('d \<Rightarrow> bytes \<Rightarrow> 'd) \<Rightarrow> vfat \<Rightarrow> 'd \<Rightarrow> readdir_fault + 'd" where
  "vfat_readdir filler f data =
     readdir_loop filler (current_direntries_list f)
       (filler (filler data (bytes_of_string ''.'')) (bytes_of_string ''..''))"

definition vfat_fuse_readdir ::
  "('d \<Rightarrow> bytes \<Rightarrow> 'd) \<Rightarrow> vfat \<Rightarrow> string \<Rightarrow> 'd \<Rightarrow> readdir_fault + vfat \<times> 'd \<times> int" where
  "vfat_fuse_readdir filler f path data =
     (if path \<noteq> ''/'' then Inr (f, data, - ENOENT)
      else
        let f = fst (vfat_resolve f path) in
        case vfat_readdir filler f data of
          Inl e \<Rightarrow> Inl e
        | Inr data \<Rightarrow> Inr (f, data, 0))"

record vfat_search_data =
  sd_name :: string
  sd_found :: int
  sd_st :: stat_buf

definition vfat_search_entry ::
  "vfat_search_data \<Rightarrow> string \<Rightarrow> stat_buf \<Rightarrow> vfat_search_data \<times> int" where
  "vfat_search_entry sd name st =
     (if sd_name sd \<noteq> name then (sd, 0) else (sd\<lparr>sd_found := 1, sd_st := st\<rparr>, 1))"

section \<open>Start-up\<close>

definition FUSE_OPT_KEY_NONOPT :: int where "FUSE_OPT_KEY_NONOPT = -2"

definition vfat_opt_args :: "vfat \<Rightarrow> string \<Rightarrow> int \<Rightarrow> vfat \<times> int" where
  "vfat_opt_args f arg key =
     (if key = FUSE_OPT_KEY_NONOPT \<and> dev f = None then (f\<lparr>dev := Some arg\<rparr>, 0) else (f, 1))"

text \<open>\<open>fuse_opt_parse\<close> calls the callback for every argument, each with its key.\<close>

fun parse_args :: "vfat \<Rightarrow> (string \<times> int) list \<Rightarrow> vfat" where
  "parse_args f [] = f"
| "parse_args f ((arg, key) # args) = parse_args (fst (vfat_opt_args f arg key)) args"

datatype main_fault = Missing_device | Init_abort vfat_abort | Root_fault dir_fault

definition vfat_main ::
  "(string \<Rightarrow> init_env) \<Rightarrow> nat \<Rightarrow> (u32 \<Rightarrow> u8 \<Rightarrow> u8) \<Rightarrow> vfat \<Rightarrow> (string \<times> int) list \<Rightarrow> main_fault + vfat" where
  "vfat_main env fuel freed f args =
     (let f = parse_args f args in
      case dev f of
        None \<Rightarrow> Inl Missing_device
      | Some d \<Rightarrow>
        (case vfat_init (env d) d f of
           Inl e \<Rightarrow> Inl (Init_abort e)
         | Inr f \<Rightarrow>
           (case vfat_read_root_directory fuel freed f of
              Inl e \<Rightarrow> Inl (Root_fault e)
            | Inr f \<Rightarrow> Inr f)))"

section \<open>Facts\<close>

lemma path_end_found:
  "i \<le> e \<Longrightarrow> e < length buf \<Longrightarrow> buf ! e = 0 \<or> buf ! e = 47 \<Longrightarrow>
   (\<And>k. i \<le> k \<Longrightarrow> k < e \<Longrightarrow> buf ! k \<noteq> 0 \<and> buf ! k \<noteq> 47) \<Longrightarrow> path_end buf i = Some e"
proof (induction "e - i" arbitrary: i)
  case 0
  then show ?case by (subst path_end.simps) auto
next
  case (Suc n)
  then have "i < e" "n = e - Suc i" by auto
  with Suc have "path_end buf (Suc i) = Some e" by auto
  with Suc.prems \<open>i < e\<close> show ?case by (subst path_end.simps) auto
qed

lemma path_end_component:
  assumes "0 \<notin> set seg" "47 \<notin> set seg" "t = 0 \<or> t = 47"
  shows "path_end (pre @ seg @ t # rest) (length pre) = Some (length pre + length seg)"
proof (rule path_end_found)
  fix k assume k: "length pre \<le> k" "k < length pre + length seg"
  then have "k - length pre < length seg" by arith
  with k have "(pre @ seg @ t # rest) ! k \<in> set seg"
    by (simp add: nth_append)
  then show "(pre @ seg @ t # rest) ! k \<noteq> 0 \<and> (pre @ seg @ t # rest) ! k \<noteq> 47"
    using assms by metis
qed (use assms(3) in auto)

lemma split_path_component:
  assumes "0 \<notin> set seg" "47 \<notin> set seg" "t = 0 \<or> t = 47" "lead = [] \<or> lead = [47]"
    and "lead = [] \<Longrightarrow> seg \<noteq> []"
  shows "split_path_root (pre @ lead @ seg @ t # rest) (length pre)
    = Some (pre @ lead @ seg @ 0 # rest, length pre + length lead,
            Suc (length pre + length lead + length seg))"
proof -
  have e: "path_end ((pre @ lead) @ seg @ t # rest) (length (pre @ lead))
      = Some (length (pre @ lead) + length seg)"
    by (rule path_end_component) (use assms in auto)
  show ?thesis
  proof (cases "lead = []")
    case True
    with assms obtain x xs where "seg = x # xs" "x \<noteq> 0" "x \<noteq> 47" by (cases seg) auto
    with e True show ?thesis by (simp add: split_path_root_def Let_def list_update_append)
  next
    case False
    with assms have "lead = [47]" by simp
    with e show ?thesis by (simp add: split_path_root_def Let_def list_update_append)
  qed
qed

lemma c_str_at_terminated:
  "0 \<notin> set seg \<Longrightarrow> c_str_at (pre @ seg @ 0 # rest) (length pre) = Some seg"
  by (simp add: c_str_at_def)

text \<open>The name \<open>readdir\<close> reports for an entry.\<close>

definition short_name :: "vfat_direntry \<Rightarrow> bytes" where
  "short_name d = takeWhile (\<lambda>b. b \<noteq> 0) (DIR_Name d)"

lemma strncpy8_terminated:
  assumes "length (DIR_Name d) = 8" "0 \<in> set (DIR_Name d)"
  shows "c_string (strncpy8 (DIR_Name d)) = Some (short_name d)"
    and "trim_nstr (strncpy8 (DIR_Name d)) 8 = strncpy8 (DIR_Name d)"
proof -
  let ?s = "short_name d"
  have "c_string (DIR_Name d) = Some ?s"
    using assms(2) by (simp add: c_string_def short_name_def)
  then obtain rest where "DIR_Name d = ?s @ 0 # rest"
    using c_string_Some by blast
  then have lt: "length ?s < 8"
    using assms(1) by (metis add_Suc_right length_Cons length_append less_add_Suc1)
  then obtain m where m: "8 - length ?s = Suc m" by (metis Suc_diff_Suc)
  have eq: "strncpy8 (DIR_Name d) = ?s @ 0 # replicate m 0"
    using assms m by (simp add: strncpy8_def short_name_def)
  have "0 \<notin> set ?s"
    unfolding short_name_def by (auto dest: set_takeWhileD)
  then show "c_string (strncpy8 (DIR_Name d)) = Some ?s"
    unfolding eq by (rule c_string_terminated)
  have "(?s @ 0 # replicate m 0) ! 7 = 0"
    using lt m by (auto simp: nth_append nth_Cons')
  then have "strncpy8 (DIR_Name d) ! 7 \<noteq> 32" by (simp add: eq)
  then show "trim_nstr (strncpy8 (DIR_Name d)) 8 = strncpy8 (DIR_Name d)"
    by (simp add: numeral_eq_Suc)
qed

lemma readdir_loop_names:
  assumes "\<And>d. d \<in> set ds \<Longrightarrow> length (DIR_Name d) = 8 \<and> 0 \<in> set (DIR_Name d)"
  shows "readdir_loop filler (link_entries ds Dnull) data
    = Inr (foldl filler data (map short_name ds))"
  using assms
  by (induction ds arbitrary: data) (simp_all add: Let_def strncpy8_terminated)

lemma set_rtrim: "set (rtrim s) \<subseteq> set s"
  unfolding rtrim_def by (auto dest: set_dropWhileD)

text \<open>The name field of a record with no zero byte and at least one trailing blank.\<close>

definition padded_name :: "bytes \<Rightarrow> bool" where
  "padded_name r \<longleftrightarrow> length r = 32 \<and> 0 \<notin> set (take 8 r) \<and> r ! 7 = 32"

lemma trim_padded_name:
  assumes "padded_name r"
  defines "d \<equiv> trim_direntry (vfat_direntry_of_bytes r)"
  shows "length (DIR_Name d) = 8" and "0 \<in> set (DIR_Name d)" and "short_name d = rtrim (take 8 r)"
proof -
  let ?s = "take 8 r"
  have len: "length ?s = 8" and nz: "0 \<notin> set ?s"
    using assms(1) by (simp_all add: padded_name_def)
  have "?s = take 7 r @ [32]"
    using assms(1) take_Suc_conv_app_nth [of 7 r] by (simp add: padded_name_def)
  then have "rtrim ?s = rtrim (take 7 r)" by (simp add: rtrim_snoc)
  then have "length (rtrim ?s) \<le> 7" using rtrim_length [of "take 7 r"] by simp
  then obtain m where m: "8 - length (rtrim ?s) = Suc m" by (cases "8 - length (rtrim ?s)") auto
  have nm: "DIR_Name d = rtrim ?s @ 0 # replicate m 0"
    using trim_nstr_eq [of ?s "[]"] unfolding len m
    by (simp add: d_def trim_direntry_def vfat_direntry_of_bytes_def slice_def)
  show "length (DIR_Name d) = 8"
    using len by (simp add: d_def trim_direntry_def vfat_direntry_of_bytes_def slice_def)
  show "0 \<in> set (DIR_Name d)" by (simp add: nm)
  have "0 \<notin> set (rtrim ?s)" using nz set_rtrim by blast
  then show "short_name d = rtrim ?s"
    unfolding short_name_def nm by (auto simp: takeWhile_append)
qed

section \<open>Properties\<close>



text \<open>A name that fills all eight bytes is copied without a terminating zero, so \<open>readdir\<close>
  reads past the end of its buffer as soon as such an entry is in the list.\<close>

theorem readdir_full_name_overreads:
  assumes "length (DIR_Name d) = 8" "0 \<notin> set (DIR_Name d)"
    and "current_direntries_list f = Dnode d rest"
  shows "vfat_readdir filler f data = Inl Name_overread"
proof -
  have tw: "takeWhile (\<lambda>b. b \<noteq> 0) (DIR_Name d) = DIR_Name d"
    using assms(2) by (simp add: takeWhile_eq_all_conv) metis
  have "strncpy8 (DIR_Name d) = DIR_Name d"
    using assms(1) by (simp add: strncpy8_def tw Let_def del: takeWhile_eq_all_conv)
  then show ?thesis
    using assms by (simp add: vfat_readdir_def c_string_def)
qed

theorem readdir_full_name_overreads_witness:
  "vfat_readdir (\<lambda>xs x. xs @ [x])
     (vfat_info\<lparr>current_direntries_list :=
        Dnode ((vfat_direntry_of_bytes (replicate 32 0))\<lparr>DIR_Name := replicate 8 65\<rparr>) Dnull\<rparr>) []
   = Inl Name_overread"
  by (rule readdir_full_name_overreads [where rest = Dnull]) auto

text \<open>Splitting \<open>/seg/rest\<close> yields \<open>seg\<close> as the head and leaves the path at \<open>rest\<close>; splitting a
  last component yields it as the head but moves the path past the terminating zero, out of the
  buffer.\<close>

theorem split_path_root_components:
  assumes "0 \<notin> set seg" "47 \<notin> set seg"
  shows "(\<exists>buf' h. split_path_root (pre @ [47] @ seg @ 47 # rest) (length pre)
            = Some (buf', h, length buf' - length rest)
        \<and> c_str_at buf' h = Some seg \<and> drop (length buf' - length rest) buf' = rest)
    \<and> (\<exists>buf' h. split_path_root (pre @ [47] @ seg @ [0]) (length pre) = Some (buf', h, length buf')
        \<and> c_str_at buf' h = Some seg \<and> c_str_at buf' (length buf') = None)"
proof -
  have head: "c_str_at (pre @ [47] @ seg @ 0 # r) (length pre + 1) = Some seg" for r
    using c_str_at_terminated [OF assms(1), of "pre @ [47]" r] by simp
  show ?thesis
    using split_path_component [of seg 47 "[47]" pre rest]
      split_path_component [of seg 0 "[47]" pre "[]"] assms head [of rest] head [of "[]"]
    by (simp add: c_str_at_def c_string_def)
qed

theorem split_path_root_components_witness:
  "\<exists>buf' h. split_path_root [47, 97, 98, 47, 99, 0] 0
       = Some (buf', h, length buf' - length [99 :: u8, 0])
     \<and> c_str_at buf' h = Some [97, 98] \<and> drop (length buf' - length [99 :: u8, 0]) buf' = [99, 0]"
  using split_path_root_components [of "[97, 98]" "[]" "[99, 0]"] by simp

end
