(* ===== verification/Shell_Sys.thy ===== *)
theory Shell_Sys
  imports Os_Prelude
begin

text \<open>
  The process that runs \<open>task1_shell/shell.c\<close>, as its system calls see it: the descriptor
  table, the buffer of \<open>stdout\<close>, the three static variables of the program and the trace of what
  the process did to the outside world.

  Descriptor calls follow POSIX exactly: \<open>open\<close>, \<open>dup\<close> and \<open>pipe\<close> take the lowest free
  descriptors of a table of fixed size (the table's length is the process's descriptor limit),
  \<open>dup2\<close> replaces its target, \<open>close\<close> frees a slot, and every one of them returns \<open>-1\<close> on a bad
  descriptor or a full table.  What the kernel, the file system and the other processes answer
  (whether a file can be opened, which side of a \<open>fork\<close> this process is, how a child ended) is the
  record \<open>env\<close>, a parameter of every operation; its functions take the number of answers given so
  far, so that any history of answers is an \<open>env\<close>.

  \<open>fork\<close> is one such answer: \<open>-1\<close>, \<open>0\<close> in the child, the child's id in the parent.  The model
  follows one process, and so speaks of both sides of every fork.
\<close>

section \<open>Data\<close>

text \<open>
  The two ways the shell opens a file: \<open>O_RDONLY\<close>, and \<open>O_WRONLY | O_CREAT | O_TRUNC\<close> with a
  creation mode; and what a descriptor refers to.
\<close>

datatype open_how = O_rdonly | O_wronly_creat_trunc nat

datatype ofd =
    Of_std nat
  | Of_file string open_how
  | Of_pipe_read nat
  | Of_pipe_write nat

type_synonym fd_table = "ofd option list"

datatype event =
    Ev_write "ofd option" string
  | Ev_warn string
  | Ev_chdir string int
  | Ev_fork int
  | Ev_exec "string list" "ofd option" "ofd option"
  | Ev_wait int "int option"

datatype crash = Null_deref | Out_of_bounds

datatype 'a outcome =
    Ret 'a
  | Exit int
  | Exec "string list"
  | Crash crash

record env =
  e_fork :: "nat \<Rightarrow> int"
  e_wait :: "nat \<Rightarrow> int \<Rightarrow> int option"
  e_open :: "nat \<Rightarrow> string \<Rightarrow> open_how \<Rightarrow> bool"
  e_cwd :: "nat \<Rightarrow> string"
  e_cwdmode :: "nat \<Rightarrow> nat"
  e_chdir :: "nat \<Rightarrow> string \<Rightarrow> int"
  e_exec :: "nat \<Rightarrow> string list \<Rightarrow> bool"
  e_pipe :: "nat \<Rightarrow> bool"

text \<open>\<open>error\<close>, \<open>inout\<close> and \<open>conditional_run\<close> are the statics of the source.\<close>

record proc =
  p_fds :: fd_table
  p_obuf :: string
  p_clock :: nat
  p_trace :: "event list"
  p_error :: int
  inout0 :: int
  inout1 :: int
  conditional_run :: bool

type_synonym 'a act = "proc \<Rightarrow> 'a outcome \<times> proc"

definition bnd :: "'a act \<Rightarrow> ('a \<Rightarrow> 'b act) \<Rightarrow> 'b act" where
  "bnd m f s = (case m s of
       (Ret a, t) \<Rightarrow> f a t
     | (Exit c, t) \<Rightarrow> (Exit c, t)
     | (Exec v, t) \<Rightarrow> (Exec v, t)
     | (Crash c, t) \<Rightarrow> (Crash c, t))"

lemma bnd_cong [fundef_cong]:
  "m s = m' s' \<Longrightarrow> (\<And>a t. m' s' = (Ret a, t) \<Longrightarrow> f a t = g a t) \<Longrightarrow> bnd m f s = bnd m' g s'"
  by (auto simp: bnd_def split: prod.splits outcome.splits)

abbreviation seqn :: "'a act \<Rightarrow> 'b act \<Rightarrow> 'b act" where
  "seqn m n \<equiv> bnd m (\<lambda>_. n)"

definition retn :: "'a \<Rightarrow> 'a act" where
  "retn a s = (Ret a, s)"

definition whn :: "bool \<Rightarrow> unit act \<Rightarrow> unit act" where
  "whn b m = (if b then m else retn ())"

definition emit :: "event \<Rightarrow> unit act" where
  "emit e s = (Ret (), s\<lparr>p_trace := p_trace s @ [e]\<rparr>)"

section \<open>Descriptors\<close>

definition fd_get :: "fd_table \<Rightarrow> int \<Rightarrow> ofd option" where
  "fd_get T fd = (if 0 \<le> fd \<and> nat fd < length T then T ! nat fd else None)"

fun lowest_free :: "fd_table \<Rightarrow> nat option" where
  "lowest_free [] = None"
| "lowest_free (None # T) = Some 0"
| "lowest_free (Some x # T) = map_option Suc (lowest_free T)"

definition fd_alloc :: "fd_table \<Rightarrow> ofd \<Rightarrow> int \<times> fd_table" where
  "fd_alloc T x = (case lowest_free T of
       None \<Rightarrow> (-1, T)
     | Some i \<Rightarrow> (int i, T[i := Some x]))"

definition fd_dup :: "fd_table \<Rightarrow> int \<Rightarrow> int \<times> fd_table" where
  "fd_dup T fd = (case fd_get T fd of None \<Rightarrow> (-1, T) | Some x \<Rightarrow> fd_alloc T x)"

definition fd_dup2 :: "fd_table \<Rightarrow> int \<Rightarrow> int \<Rightarrow> int \<times> fd_table" where
  "fd_dup2 T old new = (case fd_get T old of
       None \<Rightarrow> (-1, T)
     | Some x \<Rightarrow> if 0 \<le> new \<and> nat new < length T then (new, T[nat new := Some x]) else (-1, T))"

definition fd_close :: "fd_table \<Rightarrow> int \<Rightarrow> int \<times> fd_table" where
  "fd_close T fd = (case fd_get T fd of None \<Rightarrow> (-1, T) | Some _ \<Rightarrow> (0, T[nat fd := None]))"

definition fd_pipe :: "fd_table \<Rightarrow> nat \<Rightarrow> (int \<times> int \<times> fd_table) option" where
  "fd_pipe T k =
     (let (r, T1) = fd_alloc T (Of_pipe_read k); (w, T2) = fd_alloc T1 (Of_pipe_write k)
      in if r = -1 \<or> w = -1 then None else Some (r, w, T2))"

section \<open>System and library calls\<close>

definition tick :: "unit act" where
  "tick s = (Ret (), s\<lparr>p_clock := Suc (p_clock s)\<rparr>)"

definition sys_dup :: "int \<Rightarrow> int act" where
  "sys_dup fd s = (let (r, T) = fd_dup (p_fds s) fd in (Ret r, s\<lparr>p_fds := T\<rparr>))"

definition sys_dup2 :: "int \<Rightarrow> int \<Rightarrow> int act" where
  "sys_dup2 old new s = (let (r, T) = fd_dup2 (p_fds s) old new in (Ret r, s\<lparr>p_fds := T\<rparr>))"

definition sys_close :: "int \<Rightarrow> int act" where
  "sys_close fd s = (let (r, T) = fd_close (p_fds s) fd in (Ret r, s\<lparr>p_fds := T\<rparr>))"

definition sys_open :: "env \<Rightarrow> string \<Rightarrow> open_how \<Rightarrow> int act" where
  "sys_open E path how s =
     (let s' = s\<lparr>p_clock := Suc (p_clock s)\<rparr> in
      if e_open E (p_clock s) path how then
        let (r, T) = fd_alloc (p_fds s) (Of_file path how) in (Ret r, s'\<lparr>p_fds := T\<rparr>)
      else (Ret (-1), s'))"

definition sys_pipe :: "env \<Rightarrow> (int \<times> int) option act" where
  "sys_pipe E s =
     (let s' = s\<lparr>p_clock := Suc (p_clock s)\<rparr> in
      if e_pipe E (p_clock s) then
        (case fd_pipe (p_fds s) (p_clock s) of
           None \<Rightarrow> (Ret None, s')
         | Some (r, w, T) \<Rightarrow> (Ret (Some (r, w)), s'\<lparr>p_fds := T\<rparr>))
      else (Ret None, s'))"

definition sys_fork :: "env \<Rightarrow> int act" where
  "sys_fork E s =
     (let r = e_fork E (p_clock s) in
      (Ret r, s\<lparr>p_clock := Suc (p_clock s), p_trace := p_trace s @ [Ev_fork r]\<rparr>))"

text \<open>\<open>waitpid(pid, &error, 0)\<close>: a failing call leaves \<open>error\<close> alone.\<close>

definition sys_waitpid :: "env \<Rightarrow> int \<Rightarrow> unit act" where
  "sys_waitpid E pid s =
     (let r = e_wait E (p_clock s) pid in
      (Ret (), s\<lparr>p_clock := Suc (p_clock s), p_trace := p_trace s @ [Ev_wait pid r],
                p_error := (case r of None \<Rightarrow> p_error s | Some st \<Rightarrow> st)\<rparr>))"

definition sys_chdir :: "env \<Rightarrow> string \<Rightarrow> int act" where
  "sys_chdir E path s =
     (let r = e_chdir E (p_clock s) path in
      (Ret r, s\<lparr>p_clock := Suc (p_clock s), p_trace := p_trace s @ [Ev_chdir path r]\<rparr>))"

text \<open>\<open>execvp\<close> replaces the process image, or returns \<open>-1\<close>.\<close>

definition sys_execvp :: "env \<Rightarrow> string list \<Rightarrow> int act" where
  "sys_execvp E argv s =
     (let s' = s\<lparr>p_clock := Suc (p_clock s)\<rparr> in
      if e_exec E (p_clock s) argv then
        (Exec argv,
         s'\<lparr>p_trace := p_trace s @ [Ev_exec argv (fd_get (p_fds s) 0) (fd_get (p_fds s) 1)]\<rparr>)
      else (Ret (-1), s'))"

text \<open>
  \<open>stdout\<close> is fully buffered: \<open>printf\<close> appends to the buffer, \<open>fflush(stdout)\<close> and \<open>exit\<close>
  write the buffer to whatever descriptor 1 is at that time.  \<open>stderr\<close> is unbuffered.
\<close>

definition printf :: "string \<Rightarrow> unit act" where
  "printf str s = (Ret (), s\<lparr>p_obuf := p_obuf s @ str\<rparr>)"

definition fflush_stdout :: "unit act" where
  "fflush_stdout s =
     (if p_obuf s = [] then (Ret (), s)
      else (Ret (), s\<lparr>p_obuf := [], p_trace := p_trace s @ [Ev_write (fd_get (p_fds s) 1) (p_obuf s)]\<rparr>))"

definition warn :: "string \<Rightarrow> unit act" where
  "warn msg = emit (Ev_warn msg)"

definition exit_with :: "int \<Rightarrow> 'a act" where
  "exit_with code s = (case fflush_stdout s of (_, t) \<Rightarrow> (Exit (code mod 256), t))"

definition err1 :: "string \<Rightarrow> 'a act" where
  "err1 msg = seqn (warn msg) (exit_with 1)"

definition crash :: "crash \<Rightarrow> 'a act" where
  "crash c s = (Crash c, s)"

lemmas act_defs = bnd_def retn_def whn_def emit_def tick_def sys_dup_def sys_dup2_def sys_close_def
  sys_open_def sys_pipe_def sys_fork_def sys_waitpid_def sys_chdir_def sys_execvp_def printf_def
  fflush_stdout_def warn_def exit_with_def err1_def crash_def

section \<open>Facts about descriptors\<close>

lemma lowest_free_Some:
  "lowest_free T = Some i \<Longrightarrow> i < length T \<and> T ! i = None \<and> (\<forall>j<i. T ! j \<noteq> None)"
proof (induction T arbitrary: i rule: lowest_free.induct)
  case (3 x T)
  then show ?case by (auto simp: nth_Cons split: nat.splits)
qed auto

lemma lowest_free_None: "lowest_free T = None \<longleftrightarrow> None \<notin> set T"
  by (induction T rule: lowest_free.induct) auto

lemma length_fd_ops [simp]:
  "length (snd (fd_alloc T x)) = length T" "length (snd (fd_dup T a)) = length T"
  "length (snd (fd_dup2 T a b)) = length T" "length (snd (fd_close T a)) = length T"
  by (auto simp: fd_alloc_def fd_dup_def fd_dup2_def fd_close_def split: option.splits)

text \<open>The number of free slots; every allocation takes one.\<close>

definition free_slots :: "fd_table \<Rightarrow> nat" where
  "free_slots T = count_list T None"

lemma free_slots_pos: "0 < free_slots T \<longleftrightarrow> None \<in> set T"
  unfolding free_slots_def by (metis count_list_0_iff neq0_conv)

lemma count_list_update:
  "i < length xs \<Longrightarrow> count_list (xs[i := y]) a + (if xs ! i = a then 1 else 0)
     = count_list xs a + (if y = a then 1 else 0)"
proof (induction xs arbitrary: i)
  case (Cons x xs)
  show ?case
  proof (cases i)
    case (Suc m)
    with Cons.prems have "m < length xs" by simp
    from Cons.IH [OF this] Suc show ?thesis by (simp split: if_splits)
  qed simp
qed simp

lemma free_slots_update:
  "i < length T \<Longrightarrow> free_slots (T[i := y]) + (if T ! i = None then 1 else 0)
     = free_slots T + (if y = None then 1 else 0)"
  unfolding free_slots_def by (rule count_list_update)

lemma free_slots_move:
  assumes "i < length T" "T ! i \<noteq> None" "n < length T" "n \<noteq> i" "T ! n \<noteq> None"
  shows "free_slots (T[i := Some x, n := None]) = Suc (free_slots T)"
  using free_slots_update [OF assms(1), of "Some x"] free_slots_update [of n "T[i := Some x]" None] assms
  by auto

lemma fd_alloc_ok:
  assumes "0 < free_slots T"
  obtains i where "fd_alloc T x = (int i, T[i := Some x])" "i < length T" "T ! i = None"
    "free_slots (T[i := Some x]) = free_slots T - 1"
proof -
  from assms obtain i where "lowest_free T = Some i"
    using lowest_free_None [of T] free_slots_pos by fastforce
  moreover from lowest_free_Some [OF this] have "i < length T" "T ! i = None" by auto
  moreover from free_slots_update [OF this(1), of "Some x"] this(2)
  have "free_slots (T[i := Some x]) = free_slots T - 1" by simp
  ultimately show thesis using that by (simp add: fd_alloc_def)
qed

lemma fd_get_update:
  "i < length T \<Longrightarrow> fd_get (T[i := y]) fd = (if fd = int i then y else fd_get T fd)"
  by (auto simp: fd_get_def nth_list_update)

lemma fd_get_Some: "fd_get T fd = Some x \<Longrightarrow> 0 \<le> fd \<and> nat fd < length T \<and> T ! nat fd = Some x"
  by (simp add: fd_get_def split: if_splits)

lemma fd_get_int:
  "fd_get T fd = Some x \<Longrightarrow> 2 \<le> fd \<Longrightarrow> \<exists>n. fd = int n \<and> 2 \<le> n \<and> n < length T \<and> T ! n = Some x"
  by (rule exI [of _ "nat fd"]) (auto simp: fd_get_def split: if_splits)

section \<open>Reasoning about actions\<close>

text \<open>\<open>post m s Q\<close>: if \<open>m\<close> returns from \<open>s\<close>, then with a value and a state in \<open>Q\<close>.\<close>

definition post :: "'a act \<Rightarrow> proc \<Rightarrow> ('a \<Rightarrow> proc \<Rightarrow> bool) \<Rightarrow> bool" where
  "post m s Q \<longleftrightarrow> (\<forall>a t. m s = (Ret a, t) \<longrightarrow> Q a t)"

lemma post_bnd [simp]: "post (bnd m f) s Q \<longleftrightarrow> post m s (\<lambda>a t. post (f a) t Q)"
  by (auto simp: post_def bnd_def split: outcome.splits prod.splits)

lemma post_basic [simp]:
  "post (retn x) s P \<longleftrightarrow> P x s"
  "post (emit e) s Q \<longleftrightarrow> Q () (s\<lparr>p_trace := p_trace s @ [e]\<rparr>)"
  "post (warn msg) s Q \<longleftrightarrow> Q () (s\<lparr>p_trace := p_trace s @ [Ev_warn msg]\<rparr>)"
  "post (printf str) s Q \<longleftrightarrow> Q () (s\<lparr>p_obuf := p_obuf s @ str\<rparr>)"
  "post (exit_with c) s Q1" "post (err1 msg) s Q2" "post (crash k) s Q3"
  by (auto simp: post_def act_defs split: outcome.splits prod.splits if_splits)

lemma post_exit_state [simp]: "post (\<lambda>s. exit_with (f s) s) t Q"
  by (auto simp: post_def act_defs split: if_splits prod.splits)

lemma post_skip: "(\<And>a t. post (f a) t Q) \<Longrightarrow> post (bnd m f) s Q"
  unfolding post_bnd by (simp add: post_def [of m])

lemma post_whn [simp]: "post (whn b m) s Q \<longleftrightarrow> (if b then post m s Q else Q () s)"
  by (simp add: whn_def)

lemma post_True [simp]: "post m s (\<lambda>a t. True)"
  by (simp add: post_def)

lemma post_mono: "post m s P \<Longrightarrow> (\<And>a t. P a t \<Longrightarrow> Q a t) \<Longrightarrow> post m s Q"
  by (auto simp: post_def)

lemma post_conj: "post m s P \<Longrightarrow> post m s Q \<Longrightarrow> post m s (\<lambda>a t. P a t \<and> Q a t)"
  by (auto simp: post_def)

lemma postD: "post m s Q \<Longrightarrow> m s = (Ret a, t) \<Longrightarrow> Q a t"
  by (auto simp: post_def)

text \<open>
  A relation between process states that every system call respects is respected by every program
  built from them.  The laws are the ways in which the calls change the state.
\<close>

locale act_rel =
  fixes R :: "proc \<Rightarrow> proc \<Rightarrow> bool"
  assumes R_refl: "R s s"
    and R_trans: "R s t \<Longrightarrow> R t u \<Longrightarrow> R s u"
    and R_fds: "length T = length (p_fds s) \<Longrightarrow> R s (s\<lparr>p_fds := T\<rparr>)"
    and R_obuf: "R s (s\<lparr>p_obuf := b\<rparr>)"
    and R_clock: "R s (s\<lparr>p_clock := Suc (p_clock s)\<rparr>)"
    and R_trace: "R s (s\<lparr>p_trace := p_trace s @ [e]\<rparr>)"
    and R_error: "R s (s\<lparr>p_error := x\<rparr>)"
    and R_inout0: "R s (s\<lparr>inout0 := fd\<rparr>)"
    and R_inout1: "R s (s\<lparr>inout1 := fd\<rparr>)"
    and R_cond: "R s (s\<lparr>conditional_run := c\<rparr>)"
begin

definition keeps :: "'a act \<Rightarrow> bool" where
  "keeps m \<longleftrightarrow> (\<forall>s. R s (snd (m s)))"

lemma keepsD: "keeps m \<Longrightarrow> m s = (r, t) \<Longrightarrow> R s t"
  by (metis keeps_def snd_conv)

lemma keepsI: "(\<And>s r t. m s = (r, t) \<Longrightarrow> R s t) \<Longrightarrow> keeps m"
  unfolding keeps_def by (metis prod.collapse)

lemma keeps_bnd: "keeps m \<Longrightarrow> (\<And>a. keeps (f a)) \<Longrightarrow> keeps (bnd m f)"
  unfolding keeps_def bnd_def
  by (auto split: prod.splits outcome.splits) (metis R_trans snd_conv)+

lemma keeps_state: "(\<And>s. keeps (m s)) \<Longrightarrow> keeps (\<lambda>s. m s s)"
  by (simp add: keeps_def)

lemma keeps_basic:
  "keeps (retn x)" "keeps (emit e)" "keeps tick" "keeps (printf str)" "keeps (crash c)"
  by (simp_all add: keeps_def act_defs R_refl R_trace R_clock R_obuf)

lemma keeps_fflush: "keeps fflush_stdout"
proof -
  have "R s (s\<lparr>p_obuf := [], p_trace := p_trace s @ [e]\<rparr>)" for s e
    using R_trans [OF R_obuf R_trace, of s "[]" e] by simp
  then show ?thesis by (simp add: keeps_def fflush_stdout_def R_refl)
qed

lemma keeps_exit: "keeps (exit_with c)"
  using keeps_fflush by (auto simp: keeps_def exit_with_def split: prod.splits) (metis snd_conv)

lemma keeps_whn: "keeps m \<Longrightarrow> keeps (whn b m)"
  by (simp add: whn_def keeps_basic)

lemma keeps_warn: "keeps (warn msg)" "keeps (err1 msg)"
  by (simp_all add: warn_def err1_def keeps_basic keeps_bnd keeps_exit)

lemma R_clock_fds: "length T = length (p_fds s) \<Longrightarrow> R s (s\<lparr>p_clock := Suc (p_clock s), p_fds := T\<rparr>)"
  using R_trans [OF R_clock R_fds, of T s] by simp

lemma R_clock_trace: "R s (s\<lparr>p_clock := Suc (p_clock s), p_trace := p_trace s @ [e]\<rparr>)"
  using R_trans [OF R_clock R_trace, of s e] by simp

lemma keeps_fd:
  "keeps (sys_dup fd)" "keeps (sys_dup2 fd fd')" "keeps (sys_close fd)"
  by (auto simp: keeps_def act_defs Let_def split: prod.splits intro!: R_fds)
     (metis length_fd_ops snd_conv)+

lemma keeps_open: "keeps (sys_open E path how)"
  by (auto simp: keeps_def sys_open_def Let_def R_clock split: prod.splits intro!: R_clock_fds)
     (metis length_fd_ops(1) snd_conv)

lemma length_fd_pipe: "fd_pipe T k = Some (r, w, T') \<Longrightarrow> length T' = length T"
  by (auto simp: fd_pipe_def Let_def split: prod.splits if_splits) (metis length_fd_ops(1) snd_conv)

lemma keeps_pipe: "keeps (sys_pipe E)"
  by (auto simp: keeps_def sys_pipe_def Let_def R_clock length_fd_pipe split: option.splits
      intro!: R_clock_fds)

lemma keeps_world:
  "keeps (sys_fork E)" "keeps (sys_chdir E path)" "keeps (sys_execvp E argv)"
  by (auto simp: keeps_def act_defs Let_def R_clock R_clock_trace)

lemma keeps_waitpid: "keeps (sys_waitpid E pid)"
  unfolding keeps_def sys_waitpid_def Let_def snd_conv
  by (intro allI R_trans [OF R_clock_trace R_error])

lemmas keeps_intros = keeps_bnd keeps_basic keeps_fflush keeps_exit keeps_whn keeps_warn keeps_fd
  keeps_open keeps_pipe keeps_world keeps_waitpid

end

text \<open>The table keeps its size, the trace only grows and answers are used in order.\<close>

definition grows :: "proc \<Rightarrow> proc \<Rightarrow> bool" where
  "grows s t \<longleftrightarrow> length (p_fds t) = length (p_fds s) \<and> p_clock s \<le> p_clock t
     \<and> (\<exists>es. p_trace t = p_trace s @ es)"

interpretation grows: act_rel grows
  by unfold_locales (force simp: grows_def)+

end
