(* ===== verification/Shell_Parse.thy ===== *)
theory Shell_Parse
  imports Shell_Sys
begin

text \<open>
  The word scanner of \<open>task1_shell/shell.c\<close>.  The command line is an array of characters and a
  pointer into it an index; \<open>None\<close> is a read past the end of the array.
\<close>

section \<open>Characters and buffers\<close>

abbreviation nul :: char where
  "nul \<equiv> CHR 0x00"

text \<open>\<open>isspace\<close> of the C locale.\<close>

definition isspace :: "char \<Rightarrow> bool" where
  "isspace c \<longleftrightarrow> c \<in> {CHR '' '', CHR 0x09, CHR 0x0A, CHR 0x0B, CHR 0x0C, CHR 0x0D}"

text \<open>
  \<open>strchr(" \t;&|><\n#", c) != NULL\<close>: the terminating zero of the literal counts as part of it.
\<close>

definition isdelim :: "char \<Rightarrow> bool" where
  "isdelim c \<longleftrightarrow>
     c \<in> {CHR '' '', CHR 0x09, CHR '';'', CHR ''&'', CHR ''|'', CHR ''>'', CHR ''<'', CHR 0x0A,
          CHR ''#'', nul}"

text \<open>The string a pointer into the line denotes, and a line as \<open>fgets\<close> leaves it.\<close>

definition str_at :: "string \<Rightarrow> nat \<Rightarrow> string" where
  "str_at buf i = takeWhile (\<lambda>c. c \<noteq> nul) (drop i buf)"

definition terminated :: "string \<Rightarrow> nat \<Rightarrow> bool" where
  "terminated buf p \<longleftrightarrow> nul \<in> set (drop p buf)"

section \<open>parseword\<close>

function skip_while :: "(char \<Rightarrow> bool) \<Rightarrow> string \<Rightarrow> nat \<Rightarrow> nat option" where
  "skip_while P buf p =
     (if p < length buf then if P (buf ! p) then skip_while P buf (Suc p) else Some p else None)"
  by pat_completeness auto
termination by (relation "measure (\<lambda>(P, buf, p). length buf - p)") auto

declare skip_while.simps [simp del]

definition parseword :: "string \<Rightarrow> nat \<Rightarrow> (nat \<times> nat option) option" where
  "parseword buf p =
     (case skip_while isspace buf p of
        None \<Rightarrow> None
      | Some word \<Rightarrow>
          (case skip_while (\<lambda>c. \<not> isdelim c) buf word of
             None \<Rightarrow> None
           | Some q \<Rightarrow> Some (q, if q \<noteq> word then Some word else None)))"

section \<open>Facts\<close>

lemma nul_simps [simp]: "\<not> isspace nul" "isdelim nul"
  by (simp_all add: isspace_def isdelim_def)

lemma skip_while_split:
  "drop p buf = ws @ c # rest \<Longrightarrow> list_all P ws \<Longrightarrow> \<not> P c
     \<Longrightarrow> skip_while P buf p = Some (p + length ws)"
proof (induction ws arbitrary: p)
  case Nil
  then have "p < length buf" "buf ! p = c"
    by (metis append_Nil drop_eq_Nil linorder_not_less list.distinct(1))
       (metis Nil.prems(1) append_Nil hd_drop_conv_nth drop_eq_Nil linorder_not_less list.distinct(1) list.sel(1))
  with Nil.prems show ?case by (simp add: skip_while.simps)
next
  case (Cons w ws)
  then have p: "p < length buf" "buf ! p = w"
    by (metis append_Cons drop_eq_Nil linorder_not_less list.distinct(1))
       (metis Cons.prems(1) append_Cons hd_drop_conv_nth drop_eq_Nil linorder_not_less list.distinct(1) list.sel(1))
  have "drop (Suc p) buf = ws @ c # rest"
    using Cons.prems(1) p by (metis append_Cons drop_Suc list.sel(3) tl_drop)
  with Cons show ?case using p by (simp add: skip_while.simps [of P buf p])
qed

lemma skip_while_total:
  assumes "x \<in> set (drop p buf)" and "\<not> P x"
  obtains ws c rest where "drop p buf = ws @ c # rest" "list_all P ws" "\<not> P c"
    "skip_while P buf p = Some (p + length ws)"
proof -
  let ?ws = "takeWhile P (drop p buf)"
  from assms have ne: "dropWhile P (drop p buf) \<noteq> []" by auto
  then obtain c rest where c: "dropWhile P (drop p buf) = c # rest" by (cases "dropWhile P (drop p buf)") auto
  then have "\<not> P c" using hd_dropWhile [OF ne] by simp
  moreover have "drop p buf = ?ws @ c # rest" using c by (metis takeWhile_dropWhile_id)
  moreover have "list_all P ?ws" by (auto simp: list_all_iff dest: set_takeWhileD)
  ultimately show thesis using that skip_while_split by blast
qed

lemma drop_split: "drop p buf = ws @ zs \<Longrightarrow> drop (p + length ws) buf = zs"
  by (metis append_eq_conv_conj drop_drop add.commute)

lemma parseword_split:
  assumes "drop p buf = sp @ w @ d # rest" and "list_all isspace sp"
    and "list_all (\<lambda>c. \<not> isdelim c) w" and "isdelim d"
    and "w \<noteq> [] \<longrightarrow> \<not> isspace (hd w)" and "w = [] \<longrightarrow> \<not> isspace d"
  shows "parseword buf p =
     Some (p + length sp + length w, if w = [] then None else Some (p + length sp))"
proof -
  have sp: "skip_while isspace buf p = Some (p + length sp)"
  proof (cases w)
    case Nil
    with assms show ?thesis using skip_while_split [of p buf sp d rest isspace] by simp
  next
    case (Cons a as)
    with assms show ?thesis using skip_while_split [of p buf sp a "as @ d # rest" isspace] by simp
  qed
  have "drop (p + length sp) buf = w @ d # rest" using assms(1) by (rule drop_split)
  with assms have "skip_while (\<lambda>c. \<not> isdelim c) buf (p + length sp) = Some (p + length sp + length w)"
    by (intro skip_while_split) auto
  with sp show ?thesis by (simp add: parseword_def)
qed

text \<open>On a terminated line the scanner returns, and what it scanned has the shape of a word.\<close>

lemma parseword_cases:
  assumes "terminated buf p"
  obtains sp w d rest where "drop p buf = sp @ w @ d # rest" "list_all isspace sp"
    "list_all (\<lambda>c. \<not> isdelim c) w" "isdelim d" "w \<noteq> [] \<longrightarrow> \<not> isspace (hd w)"
    "w = [] \<longrightarrow> \<not> isspace d" "nul \<notin> set sp" "nul \<notin> set w"
    "parseword buf p = Some (p + length sp + length w, if w = [] then None else Some (p + length sp))"
proof -
  from assms have "nul \<in> set (drop p buf)" by (simp add: terminated_def)
  then obtain sp c cs where 1: "drop p buf = sp @ c # cs" "list_all isspace sp" "\<not> isspace c"
    using skip_while_total [of nul p buf isspace] nul_simps(1) by blast
  have nsp: "nul \<notin> set sp" using 1(2) nul_simps(1) unfolding list_all_iff by blast
  with 1 assms have "nul \<in> set (drop (p + length sp) buf)"
    unfolding terminated_def drop_split [OF 1(1)] by simp
  then obtain w d rest where 2: "drop (p + length sp) buf = w @ d # rest"
      "list_all (\<lambda>c. \<not> isdelim c) w" "isdelim d"
    using skip_while_total [of nul "p + length sp" buf "\<lambda>c. \<not> isdelim c"] nul_simps(2) by blast
  have eq: "w @ d # rest = c # cs" using drop_split [OF 1(1)] 2(1) by simp
  then have hd: "w \<noteq> [] \<longrightarrow> \<not> isspace (hd w)" "w = [] \<longrightarrow> \<not> isspace d"
    using 1(3) by (auto simp: append_eq_Cons_conv)
  have nw: "nul \<notin> set w" using 2(2) nul_simps(2) unfolding list_all_iff by blast
  show thesis
    using that [of sp w d rest] 1(1,2) 2(2,3) eq hd nsp nw
      parseword_split [of p buf sp w d rest] by simp
qed

lemma parseword_progress:
  assumes "parseword buf p = Some (q, word)"
  shows "p \<le> q \<and> q < length buf \<and> (word \<noteq> None \<longrightarrow> p < q)"
proof -
  have sw: "r \<ge> p \<and> r < length buf" if "skip_while P buf p = Some r" for P r p
    using that by (induction P buf p rule: skip_while.induct)
      (metis Suc_leD option.discI option.inject order_refl skip_while.simps)
  from assms obtain w where w: "skip_while isspace buf p = Some w"
      "skip_while (\<lambda>c. \<not> isdelim c) buf w = Some q" "word = (if q \<noteq> w then Some w else None)"
    by (auto simp: parseword_def split: option.splits)
  from sw [OF w(1)] sw [OF w(2)] w(3) show ?thesis by (auto split: if_splits)
qed

section \<open>Properties\<close>



end
