(* ===== verification/Shell_Run.thy ===== *)
theory Shell_Run
  imports Shell_Parse
begin

text \<open>
  Built-in commands, the restoration of the standard descriptors, and the execution of one command
  of \<open>task1_shell/shell.c\<close>.  An argument vector is the list of its strings; the null pointer that
  ends the array is the end of the list.
\<close>

section \<open>Builtins\<close>

definition builtin_cd :: "env \<Rightarrow> int \<Rightarrow> string list \<Rightarrow> int act" where
  "builtin_cd E argc argv =
     (if argc > 1 then
        bnd (sys_chdir E (argv ! 1)) (\<lambda>status.
        seqn (whn (status \<noteq> 0) (warn (argv ! 1)))
        (retn status))
      else seqn (warn ''Missing arguments'') (retn 1))"

definition builtin_exit :: "int \<Rightarrow> string list \<Rightarrow> int act" where
  "builtin_exit argc argv s = exit_with (p_error s) s"

definition builtin_status :: "int \<Rightarrow> string list \<Rightarrow> int act" where
  "builtin_status argc argv s = seqn (printf (show_int (p_error s) @ [CHR 0x0A])) (retn 0) s"

definition builtins :: "env \<Rightarrow> (string \<times> (int \<Rightarrow> string list \<Rightarrow> int act)) list" where
  "builtins E = [(''cd'', builtin_cd E), (''exit'', builtin_exit), (''status'', builtin_status)]"

definition set_error :: "int \<Rightarrow> unit act" where
  "set_error e s = (Ret (), s\<lparr>p_error := e\<rparr>)"

fun find_builtin ::
  "(string \<times> (int \<Rightarrow> string list \<Rightarrow> int act)) list \<Rightarrow> string list \<Rightarrow> int act" where
  "find_builtin [] args = retn 0"
| "find_builtin ((name, func) # bs) args =
     (if args = [] then crash Null_deref
      else if name = hd args then
        bnd (func (int (length args)) args) (\<lambda>e. seqn (set_error e) (retn 1))
      else find_builtin bs args)"

definition run_builtin :: "env \<Rightarrow> string list \<Rightarrow> int act" where
  "run_builtin E args = find_builtin (builtins E) args"

section \<open>Standard descriptors\<close>

definition set_inout0 :: "int \<Rightarrow> unit act" where
  "set_inout0 fd s = (Ret (), s\<lparr>inout0 := fd\<rparr>)"

definition set_inout1 :: "int \<Rightarrow> unit act" where
  "set_inout1 fd s = (Ret (), s\<lparr>inout1 := fd\<rparr>)"

definition restore_stdout :: "unit act" where
  "restore_stdout s =
     (if inout1 s \<noteq> 1 then
        seqn (sys_dup2 (inout1 s) 1) (seqn (sys_close (inout1 s)) (set_inout1 1)) s
      else (Ret (), s))"

definition restore_stdin :: "unit act" where
  "restore_stdin s =
     (if inout0 s \<noteq> 0 then
        seqn (sys_dup2 (inout0 s) 0) (seqn (sys_close (inout0 s)) (set_inout0 0)) s
      else (Ret (), s))"

definition restore_std :: "unit act" where
  "restore_std = seqn fflush_stdout (seqn restore_stdout restore_stdin)"

section \<open>Running one command\<close>

text \<open>The child of the fork: it never returns.\<close>

definition child_branch :: "env \<Rightarrow> string list \<Rightarrow> bool \<Rightarrow> int \<Rightarrow> int act" where
  "child_branch E args pipe_enable pip1 =
     seqn fflush_stdout
     (seqn (\<lambda>s. whn (pipe_enable \<and> inout1 s = 1)
              (seqn fflush_stdout (seqn (sys_dup2 pip1 1) (seqn (sys_close pip1) (retn ())))) s)
     (seqn (bnd (if pipe_enable then run_builtin E args else retn 0) (\<lambda>found.
              whn (found = 0)
                (bnd (sys_execvp E args) (\<lambda>r.
                 seqn (set_error r) (warn (hd args @ '': command not found''))))))
     (seqn restore_std
     (seqn fflush_stdout
     (\<lambda>s. exit_with (p_error s) s)))))"

definition parent_branch :: "env \<Rightarrow> bool \<Rightarrow> int \<Rightarrow> int \<Rightarrow> int \<Rightarrow> unit act" where
  "parent_branch E pipe_enable pip0 pip1 childpid =
     seqn restore_std
     (if pipe_enable then
        (\<lambda>s. bnd (sys_dup (inout0 s)) (\<lambda>fd.
             seqn (sys_close (inout0 s))
             (seqn (set_inout0 fd)
             (seqn (sys_dup2 pip0 0)
             (seqn (sys_close pip0)
             (seqn (sys_close pip1) (retn ())))))) s)
      else sys_waitpid E childpid)"

definition fork_command :: "env \<Rightarrow> string list \<Rightarrow> bool \<Rightarrow> int \<Rightarrow> int \<Rightarrow> int act" where
  "fork_command E args pipe_enable pip0 pip1 =
     bnd (sys_fork E) (\<lambda>childpid.
       if childpid = -1 then err1 ''Unable to fork.''
       else if childpid = 0 then child_branch E args pipe_enable pip1
       else seqn (parent_branch E pipe_enable pip0 pip1 childpid) (retn childpid))"

definition run_command2 :: "env \<Rightarrow> string list \<Rightarrow> bool \<Rightarrow> int act" where
  "run_command2 E args pipe_enable s =
     (if args = [] \<or> \<not> conditional_run s then seqn restore_std (retn 1) s
      else if pipe_enable then
        bnd (sys_pipe E) (\<lambda>pip. case pip of
            None \<Rightarrow> seqn (set_error 1) (seqn (warn ''Couldn't open pipe'') (retn 0))
          | Some (pip0, pip1) \<Rightarrow> fork_command E args True pip0 pip1) s
      else
        bnd (run_builtin E args) (\<lambda>found.
          if found \<noteq> 0 then seqn restore_std (retn 1) else fork_command E args False 0 0) s)"

definition run_command :: "env \<Rightarrow> string list \<Rightarrow> int act" where
  "run_command E args = run_command2 E args False"

definition run_pipe :: "env \<Rightarrow> string list \<Rightarrow> int act" where
  "run_pipe E args = run_command2 E args True"

definition SIGINT :: int where
  "SIGINT = 2"

text \<open>The signal handler writes with \<open>write\<close>, past the buffer of \<open>stdout\<close>.\<close>

definition quit_process :: "int \<Rightarrow> unit act" where
  "quit_process sig_no s =
     whn (sig_no = SIGINT) (emit (Ev_write (fd_get (p_fds s) (inout1 s)) [CHR 0x0D, CHR 0x0A])) s"

definition getcwdmode :: "env \<Rightarrow> nat act" where
  "getcwdmode E s = (Ret (e_cwdmode E (p_clock s)), s\<lparr>p_clock := Suc (p_clock s)\<rparr>)"

section \<open>The standard descriptors are kept\<close>

text \<open>
  \<open>std_ok a b s\<close>: wherever redirections have put them, the saved standard input is \<open>a\<close> and the
  saved standard output is \<open>b\<close>.  \<open>std_home\<close>: they are back in descriptors 0 and 1.
\<close>

definition std_ok :: "ofd \<Rightarrow> ofd \<Rightarrow> proc \<Rightarrow> bool" where
  "std_ok a b s \<longleftrightarrow>
     2 \<le> length (p_fds s) \<and> p_fds s ! 0 \<noteq> None \<and> p_fds s ! 1 \<noteq> None
     \<and> (inout0 s = 0 \<or> 2 \<le> inout0 s) \<and> (inout1 s = 1 \<or> 2 \<le> inout1 s) \<and> inout0 s \<noteq> inout1 s
     \<and> fd_get (p_fds s) (inout0 s) = Some a \<and> fd_get (p_fds s) (inout1 s) = Some b"

definition std_home :: "ofd \<Rightarrow> ofd \<Rightarrow> proc \<Rightarrow> bool" where
  "std_home a b s \<longleftrightarrow> std_ok a b s \<and> inout0 s = 0 \<and> inout1 s = 1"

lemma std_ok_frame [simp]:
  "std_ok a b (s\<lparr>p_obuf := x\<rparr>) = std_ok a b s" "std_ok a b (s\<lparr>p_clock := n\<rparr>) = std_ok a b s"
  "std_ok a b (s\<lparr>p_trace := es\<rparr>) = std_ok a b s" "std_ok a b (s\<lparr>p_error := e\<rparr>) = std_ok a b s"
  "std_ok a b (s\<lparr>conditional_run := c\<rparr>) = std_ok a b s"
  by (simp_all add: std_ok_def)

lemma std_home_frame [simp]:
  "std_home a b (s\<lparr>p_obuf := x\<rparr>) = std_home a b s" "std_home a b (s\<lparr>p_clock := n\<rparr>) = std_home a b s"
  "std_home a b (s\<lparr>p_trace := es\<rparr>) = std_home a b s" "std_home a b (s\<lparr>p_error := e\<rparr>) = std_home a b s"
  "std_home a b (s\<lparr>conditional_run := c\<rparr>) = std_home a b s"
  by (simp_all add: std_home_def)

lemma restore_stdout_ok:
  assumes "std_ok a b s"
  shows "\<exists>T. restore_stdout s = (Ret (), s\<lparr>p_fds := T, inout1 := 1\<rparr>)
     \<and> std_ok a b (s\<lparr>p_fds := T, inout1 := 1\<rparr>) \<and> free_slots (p_fds s) \<le> free_slots T
     \<and> (\<forall>fd. fd \<noteq> 1 \<and> fd \<noteq> inout1 s \<longrightarrow> fd_get T fd = fd_get (p_fds s) fd)"
proof (cases "inout1 s = 1")
  case True
  then have "s\<lparr>p_fds := p_fds s, inout1 := 1\<rparr> = s" by simp
  with assms True show ?thesis
    by (intro exI [of _ "p_fds s"]) (simp add: restore_stdout_def std_ok_def)
next
  case False
  with assms obtain n where n: "inout1 s = int n" "2 \<le> n" "n < length (p_fds s)" "p_fds s ! n = Some b"
    using fd_get_int [of "p_fds s" "inout1 s"] by (auto simp: std_ok_def)
  let ?T = "(p_fds s)[1 := Some b, n := None]"
  have "free_slots ?T = Suc (free_slots (p_fds s))"
    using n assms by (intro free_slots_move) (auto simp: std_ok_def)
  moreover have g: "fd_get (p_fds s) (int n) = Some b" "1 < length (p_fds s)"
    using n assms by (auto simp: fd_get_def std_ok_def)
  then have "restore_stdout s = (Ret (), s\<lparr>p_fds := ?T, inout1 := 1\<rparr>)"
    using n by (simp add: restore_stdout_def bnd_def sys_dup2_def sys_close_def fd_dup2_def fd_close_def
        fd_get_update set_inout1_def)
  moreover have "std_ok a b (s\<lparr>p_fds := ?T, inout1 := 1\<rparr>)"
    using assms n g by (auto simp: std_ok_def fd_get_update nth_list_update)
  moreover have "fd_get ?T fd = fd_get (p_fds s) fd" if "fd \<noteq> 1" "fd \<noteq> inout1 s" for fd
    using that n g by (simp add: fd_get_update)
  ultimately show ?thesis by auto
qed

lemma restore_stdin_ok:
  assumes "std_ok a b s"
  shows "\<exists>T. restore_stdin s = (Ret (), s\<lparr>p_fds := T, inout0 := 0\<rparr>)
     \<and> std_ok a b (s\<lparr>p_fds := T, inout0 := 0\<rparr>) \<and> free_slots (p_fds s) \<le> free_slots T
     \<and> (\<forall>fd. fd \<noteq> 0 \<and> fd \<noteq> inout0 s \<longrightarrow> fd_get T fd = fd_get (p_fds s) fd)"
proof (cases "inout0 s = 0")
  case True
  then have "s\<lparr>p_fds := p_fds s, inout0 := 0\<rparr> = s" by simp
  with assms True show ?thesis
    by (intro exI [of _ "p_fds s"]) (simp add: restore_stdin_def std_ok_def)
next
  case False
  with assms obtain n where n: "inout0 s = int n" "2 \<le> n" "n < length (p_fds s)" "p_fds s ! n = Some a"
    using fd_get_int [of "p_fds s" "inout0 s"] by (auto simp: std_ok_def)
  let ?T = "(p_fds s)[0 := Some a, n := None]"
  have "free_slots ?T = Suc (free_slots (p_fds s))"
    using n assms by (intro free_slots_move) (auto simp: std_ok_def)
  moreover have g: "fd_get (p_fds s) (int n) = Some a" "0 < length (p_fds s)"
    using n assms by (auto simp: fd_get_def std_ok_def)
  then have "restore_stdin s = (Ret (), s\<lparr>p_fds := ?T, inout0 := 0\<rparr>)"
    using n by (simp add: restore_stdin_def bnd_def sys_dup2_def sys_close_def fd_dup2_def fd_close_def
        fd_get_update set_inout0_def)
  moreover have "std_ok a b (s\<lparr>p_fds := ?T, inout0 := 0\<rparr>)"
    using assms n g by (auto simp: std_ok_def fd_get_update nth_list_update)
  moreover have "fd_get ?T fd = fd_get (p_fds s) fd" if "fd \<noteq> 0" "fd \<noteq> inout0 s" for fd
    using that n g by (simp add: fd_get_update)
  ultimately show ?thesis by auto
qed

definition restored_from :: "proc \<Rightarrow> proc \<Rightarrow> bool" where
  "restored_from s t \<longleftrightarrow> free_slots (p_fds s) \<le> free_slots (p_fds t)
     \<and> p_error t = p_error s \<and> conditional_run t = conditional_run s
     \<and> (\<forall>fd. fd \<notin> {0, 1, inout0 s, inout1 s} \<longrightarrow> fd_get (p_fds t) fd = fd_get (p_fds s) fd)"

lemma restore_std_ok:
  assumes "std_ok a b s"
  shows "\<exists>t. restore_std s = (Ret (), t) \<and> std_home a b t \<and> restored_from s t"
proof -
  define s1 where "s1 = snd (fflush_stdout s)"
  have 1: "fflush_stdout s = (Ret (), s1)" "p_fds s1 = p_fds s" "std_ok a b s1"
      "p_error s1 = p_error s" "conditional_run s1 = conditional_run s"
      "inout0 s1 = inout0 s" "inout1 s1 = inout1 s"
    using assms by (simp_all add: s1_def fflush_stdout_def)
  from restore_stdout_ok [OF 1(3)] obtain T
    where 2: "restore_stdout s1 = (Ret (), s1\<lparr>p_fds := T, inout1 := 1\<rparr>)"
      "std_ok a b (s1\<lparr>p_fds := T, inout1 := 1\<rparr>)" "free_slots (p_fds s1) \<le> free_slots T"
      "\<forall>fd. fd \<noteq> 1 \<and> fd \<noteq> inout1 s1 \<longrightarrow> fd_get T fd = fd_get (p_fds s1) fd" by blast
  from restore_stdin_ok [OF 2(2)] obtain U
    where 3: "restore_stdin (s1\<lparr>p_fds := T, inout1 := 1\<rparr>)
        = (Ret (), s1\<lparr>p_fds := T, inout1 := 1, p_fds := U, inout0 := 0\<rparr>)"
      "std_ok a b (s1\<lparr>p_fds := T, inout1 := 1, p_fds := U, inout0 := 0\<rparr>)" "free_slots T \<le> free_slots U"
      "\<forall>fd. fd \<noteq> 0 \<and> fd \<noteq> inout0 s1 \<longrightarrow> fd_get U fd = fd_get T fd"
    by auto
  show ?thesis
    by (rule exI [of _ "s1\<lparr>p_fds := T, inout1 := 1, p_fds := U, inout0 := 0\<rparr>"])
       (use 1 2 3 in \<open>simp add: restore_std_def bnd_def std_home_def restored_from_def\<close>)
qed

lemma restore_std_post:
  assumes "std_ok a b s"
  shows "post restore_std s (\<lambda>_ t. std_home a b t \<and> restored_from s t)"
  using restore_std_ok [OF assms] by (auto simp: post_def)

lemma run_builtin_cases:
  "run_builtin E args = (if args = [] then crash Null_deref
     else if hd args = ''cd'' then bnd (builtin_cd E (int (length args)) args) (\<lambda>e. seqn (set_error e) (retn 1))
     else if hd args = ''exit'' then bnd (builtin_exit (int (length args)) args) (\<lambda>e. seqn (set_error e) (retn 1))
     else if hd args = ''status'' then bnd (builtin_status (int (length args)) args) (\<lambda>e. seqn (set_error e) (retn 1))
     else retn 0)"
  by (auto simp: run_builtin_def builtins_def)

lemma run_builtin_post:
  "post (run_builtin E args) s (\<lambda>r t. p_fds t = p_fds s \<and> inout0 t = inout0 s \<and> inout1 t = inout1 s
     \<and> conditional_run t = conditional_run s)"
  by (auto simp: run_builtin_cases builtin_cd_def builtin_exit_def builtin_status_def set_error_def
      act_defs post_def Let_def split: if_splits)

lemma child_branch_post: "post (child_branch E args pe p) u Q"
  unfolding child_branch_def by (intro post_skip) simp

lemma fork_wait_post:
  assumes "std_ok a b s"
  shows "post (fork_command E args False p0 p1) s
     (\<lambda>r t. std_home a b t \<and> free_slots (p_fds s) \<le> free_slots (p_fds t) \<and> r \<noteq> 0)"
proof -
  have wait: "post (sys_waitpid E pid) u (\<lambda>_ t. std_home a b t \<and> free_slots (p_fds s) \<le> free_slots (p_fds t))"
    if "std_home a b u" "free_slots (p_fds s) \<le> free_slots (p_fds u)" for u pid
    using that by (simp add: post_def sys_waitpid_def Let_def)
  have "post (parent_branch E False p0 p1 pid) u
      (\<lambda>_ t. std_home a b t \<and> free_slots (p_fds s) \<le> free_slots (p_fds t))"
    if "std_ok a b u" "p_fds u = p_fds s" for u pid
    unfolding parent_branch_def post_bnd
    by (rule post_mono [OF restore_std_post [OF that(1)]]) (use that(2) wait in \<open>auto simp: restored_from_def\<close>)
  then have "post (parent_branch E False p0 p1 pid) (s\<lparr>p_clock := k, p_trace := es\<rparr>)
      (\<lambda>_ t. std_home a b t \<and> free_slots (p_fds s) \<le> free_slots (p_fds t))" for pid k es
    using assms by simp
  then show ?thesis
    by (simp add: fork_command_def post_def [of "sys_fork E"] sys_fork_def Let_def child_branch_post)
qed

lemma parent_pipe_ok:
  assumes "std_ok a b s" and "2 \<le> p0" "2 \<le> p1" "p0 \<noteq> p1" "inout0 s \<notin> {p0, p1}" "inout1 s \<notin> {p0, p1}"
    and p: "fd_get (p_fds s) p0 = Some x" "fd_get (p_fds s) p1 = Some y" and "0 < free_slots (p_fds s)"
  shows "\<exists>t. parent_branch E True p0 p1 pid s = (Ret (), t) \<and> std_ok a b t
     \<and> free_slots (p_fds s) < free_slots (p_fds t) \<and> fd_get (p_fds t) 0 = Some x \<and> inout1 t = 1"
proof -
  from restore_std_ok [OF assms(1)] obtain t
    where t: "restore_std s = (Ret (), t)" "std_home a b t" "restored_from s t" by blast
  from t assms have pt: "fd_get (p_fds t) p0 = Some x" "fd_get (p_fds t) p1 = Some y"
    "free_slots (p_fds s) \<le> free_slots (p_fds t)"
    by (auto simp: restored_from_def)
  then obtain i j where i: "p0 = int i" "2 \<le> i" "i < length (p_fds t)" "p_fds t ! i = Some x"
    and j: "p1 = int j" "2 \<le> j" "j < length (p_fds t)" "p_fds t ! j = Some y"
    using fd_get_int assms(2,3) by blast
  have h: "inout0 t = 0" "inout1 t = 1" "2 \<le> length (p_fds t)" "p_fds t ! 0 = Some a" "p_fds t ! 1 = Some b"
    using t(2) by (auto simp: std_home_def std_ok_def fd_get_def split: if_splits)
  obtain n where n: "fd_alloc (p_fds t) a = (int n, (p_fds t)[n := Some a])" "n < length (p_fds t)"
      "p_fds t ! n = None" "free_slots ((p_fds t)[n := Some a]) = free_slots (p_fds t) - 1"
    using fd_alloc_ok [of "p_fds t" a] assms(9) pt(3) by force
  have dist: "n \<noteq> 0" "n \<noteq> 1" "n \<noteq> i" "n \<noteq> j" "i \<noteq> j"
    using n(3) h i j assms(4) by (metis option.distinct(1))+ 
  let ?T1 = "(p_fds t)[n := Some a, 0 := Some x]" let ?T2 = "?T1[i := None]" let ?T = "?T2[j := None]"
  have "p_fds t \<noteq> []" using h(3) by auto
  have run: "parent_branch E True p0 p1 pid s = (Ret (), t\<lparr>p_fds := ?T, inout0 := int n\<rparr>)"
    using h i j n(1-3) dist \<open>p_fds t \<noteq> []\<close>
    by (simp add: parent_branch_def bnd_def t(1) sys_dup_def fd_dup_def sys_close_def fd_close_def
        sys_dup2_def fd_dup2_def set_inout0_def retn_def fd_get_def)
  have "free_slots ?T1 = free_slots (p_fds t) - 1"
    using free_slots_update [of 0 "(p_fds t)[n := Some a]" "Some x"] h dist n(4)
      \<open>p_fds t \<noteq> []\<close> by auto
  moreover have "free_slots ?T2 = Suc (free_slots ?T1)"
    using free_slots_update [of i ?T1 None] i dist by simp
  moreover have "free_slots ?T = Suc (free_slots ?T2)"
    using free_slots_update [of j ?T2 None] j dist by simp
  ultimately have "free_slots (p_fds s) < free_slots ?T" using pt(3) assms(9) by simp
  moreover have "std_ok a b (t\<lparr>p_fds := ?T, inout0 := int n\<rparr>)"
    using h i j n(2) dist \<open>p_fds t \<noteq> []\<close> by (simp add: std_ok_def fd_get_def nth_list_update)
  moreover have "fd_get ?T 0 = Some x"
    using h i j n(2) dist \<open>p_fds t \<noteq> []\<close> by (simp add: fd_get_def nth_list_update)
  ultimately show ?thesis using run h(2) by simp
qed

text \<open>The state after \<open>pipe(pip)\<close> has succeeded.\<close>

definition piped :: "ofd \<Rightarrow> ofd \<Rightarrow> proc \<Rightarrow> int \<Rightarrow> int \<Rightarrow> proc \<Rightarrow> bool" where
  "piped a b s p0 p1 t \<longleftrightarrow> std_ok a b t
     \<and> (\<exists>T. t = s\<lparr>p_clock := Suc (p_clock s), p_fds := T\<rparr>)
     \<and> 2 \<le> p0 \<and> 2 \<le> p1 \<and> p0 \<noteq> p1 \<and> inout0 s \<notin> {p0, p1} \<and> inout1 s \<notin> {p0, p1}
     \<and> fd_get (p_fds t) p0 = Some (Of_pipe_read (p_clock s))
     \<and> fd_get (p_fds t) p1 = Some (Of_pipe_write (p_clock s))
     \<and> free_slots (p_fds t) + 2 = free_slots (p_fds s)"

lemma sys_pipe_ok:
  assumes "std_ok a b s" and "3 \<le> free_slots (p_fds s)" and "e_pipe E (p_clock s)"
  shows "\<exists>p0 p1 t. sys_pipe E s = (Ret (Some (p0, p1)), t) \<and> piped a b s p0 p1 t"
proof -
  let ?F = "p_fds s" let ?k = "p_clock s"
  obtain i where i: "fd_alloc ?F (Of_pipe_read ?k) = (int i, ?F[i := Some (Of_pipe_read ?k)])"
      "i < length ?F" "?F ! i = None" "free_slots (?F[i := Some (Of_pipe_read ?k)]) = free_slots ?F - 1"
    using fd_alloc_ok [of ?F "Of_pipe_read ?k"] assms(2) by force
  let ?G = "?F[i := Some (Of_pipe_read ?k)]"
  obtain j where j: "fd_alloc ?G (Of_pipe_write ?k) = (int j, ?G[j := Some (Of_pipe_write ?k)])"
      "j < length ?G" "?G ! j = None" "free_slots (?G[j := Some (Of_pipe_write ?k)]) = free_slots ?G - 1"
    using fd_alloc_ok [of ?G "Of_pipe_write ?k"] assms(2) i(4) by force
  let ?H = "?G[j := Some (Of_pipe_write ?k)]"
  have ne: "i \<noteq> j" "?F ! j = None" using j(2,3) i(2) by (auto simp: nth_list_update split: if_splits)
  have none: "fd_get ?F (int i) = None" "fd_get ?F (int j) = None"
    by (simp_all add: fd_get_def i(3) ne(2))
  have "i \<noteq> 0" "i \<noteq> 1" "j \<noteq> 0" "j \<noteq> 1" using assms(1) i(3) ne(2) by (auto simp: std_ok_def intro: ccontr)
  moreover have "inout0 s \<noteq> int i" "inout0 s \<noteq> int j" "inout1 s \<noteq> int i" "inout1 s \<noteq> int j"
    using assms(1) none by (auto simp: std_ok_def)
  moreover have "std_ok a b (s\<lparr>p_clock := Suc ?k, p_fds := ?H\<rparr>)"
    using assms(1) i j ne calculation by (auto simp: std_ok_def fd_get_update nth_list_update)
  moreover have "sys_pipe E s = (Ret (Some (int i, int j)), s\<lparr>p_clock := Suc ?k, p_fds := ?H\<rparr>)"
    using i(1) j(1) assms(3) by (simp add: sys_pipe_def fd_pipe_def)
  moreover have "piped a b s (int i) (int j) (s\<lparr>p_clock := Suc ?k, p_fds := ?H\<rparr>)"
    using calculation assms(2) i j ne by (auto simp: piped_def fd_get_update)
  ultimately show ?thesis by blast
qed

lemma post_run_command:
  "post (run_command E args) s Q \<longleftrightarrow>
     (if args = [] \<or> \<not> conditional_run s then post (seqn restore_std (retn 1)) s Q
      else post (bnd (run_builtin E args) (\<lambda>found.
          if found \<noteq> 0 then seqn restore_std (retn 1) else fork_command E args False 0 0)) s Q)"
  unfolding post_def run_command_def run_command2_def by simp

lemma post_run_pipe:
  "post (run_pipe E args) s Q \<longleftrightarrow>
     (if args = [] \<or> \<not> conditional_run s then post (seqn restore_std (retn 1)) s Q
      else post (bnd (sys_pipe E) (\<lambda>pip. case pip of
            None \<Rightarrow> seqn (set_error 1) (seqn (warn ''Couldn't open pipe'') (retn 0))
          | Some (pip0, pip1) \<Rightarrow> fork_command E args True pip0 pip1)) s Q)"
  unfolding post_def run_pipe_def run_command2_def by simp

lemma run_command_post:
  assumes "std_ok a b s"
  shows "post (run_command E args) s
     (\<lambda>r t. std_home a b t \<and> free_slots (p_fds s) \<le> free_slots (p_fds t) \<and> r \<noteq> 0)"
proof -
  have rs: "post restore_std u (\<lambda>_ t. std_home a b t \<and> free_slots (p_fds s) \<le> free_slots (p_fds t))"
    if "std_ok a b u" "p_fds u = p_fds s" for u
    by (rule post_mono [OF restore_std_post [OF that(1)]]) (use that(2) in \<open>auto simp: restored_from_def\<close>)
  have fc: "post (fork_command E args False 0 0) u
      (\<lambda>r t. std_home a b t \<and> free_slots (p_fds s) \<le> free_slots (p_fds t) \<and> r \<noteq> 0)"
    if "std_ok a b u" "p_fds u = p_fds s" for u
    using fork_wait_post [OF that(1), of E args 0 0] that(2) by simp
  have "post (run_builtin E args) s (\<lambda>r t. std_ok a b t \<and> p_fds t = p_fds s)"
    by (rule post_mono [OF run_builtin_post]) (use assms in \<open>simp add: std_ok_def\<close>)
  then have "post (bnd (run_builtin E args) (\<lambda>found. if found \<noteq> 0 then seqn restore_std (retn 1)
        else fork_command E args False 0 0)) s
      (\<lambda>r t. std_home a b t \<and> free_slots (p_fds s) \<le> free_slots (p_fds t) \<and> r \<noteq> 0)"
    unfolding post_bnd by (rule post_mono) (use rs fc in auto)
  moreover have "post (seqn restore_std (retn 1)) s
      (\<lambda>r t. std_home a b t \<and> free_slots (p_fds s) \<le> free_slots (p_fds t) \<and> (r :: int) \<noteq> 0)"
    using rs [OF assms] by simp
  ultimately show ?thesis
    unfolding post_run_command by (simp del: post_bnd)
qed

lemma run_pipe_post:
  assumes "std_ok a b s" and "3 \<le> free_slots (p_fds s)"
  shows "post (run_pipe E args) s
     (\<lambda>r t. std_ok a b t \<and> free_slots (p_fds s) \<le> Suc (free_slots (p_fds t)))"
proof -
  let ?Q = "\<lambda>(r :: int) t. std_ok a b t \<and> free_slots (p_fds s) \<le> Suc (free_slots (p_fds t))"
  have fork: "post (fork_command E args True p0 p1) u ?Q"
    if u: "std_ok a b u" "2 \<le> p0" "2 \<le> p1" "p0 \<noteq> p1" "inout0 u \<notin> {p0, p1}" "inout1 u \<notin> {p0, p1}"
      "fd_get (p_fds u) p0 \<noteq> None" "fd_get (p_fds u) p1 \<noteq> None"
      "free_slots (p_fds u) + 2 = free_slots (p_fds s)" for u p0 p1
  proof -
    obtain x y where xy: "fd_get (p_fds u) p0 = Some x" "fd_get (p_fds u) p1 = Some y" using u by auto
    have "post (parent_branch E True p0 p1 pid) (u\<lparr>p_clock := k, p_trace := es\<rparr>)
        (\<lambda>_ t. std_ok a b t \<and> free_slots (p_fds s) \<le> Suc (free_slots (p_fds t)))" for pid k es
      using parent_pipe_ok [of a b "u\<lparr>p_clock := k, p_trace := es\<rparr>" p0 p1 x y E pid] u xy assms(2)
      by (auto simp: post_def)
    then show ?thesis
      by (simp add: fork_command_def post_def [of "sys_fork E"] sys_fork_def Let_def child_branch_post)
  qed
  have "post (seqn restore_std (retn 1)) s ?Q"
    using restore_std_post [OF assms(1)]
    by (auto simp: restored_from_def std_home_def elim: post_mono)
  moreover have "post (bnd (sys_pipe E) (\<lambda>pip. case pip of
            None \<Rightarrow> seqn (set_error 1) (seqn (warn ''Couldn't open pipe'') (retn 0))
          | Some (pip0, pip1) \<Rightarrow> fork_command E args True pip0 pip1)) s ?Q"
  proof (cases "e_pipe E (p_clock s)")
    case True
    from sys_pipe_ok [OF assms True] obtain p0 p1 t
      where t: "sys_pipe E s = (Ret (Some (p0, p1)), t)" "piped a b s p0 p1 t" by blast
    then show ?thesis using fork [of t p0 p1] by (auto simp: piped_def post_def [of "sys_pipe E"])
  qed (use assms(1) in \<open>simp add: post_def [of "sys_pipe E"] sys_pipe_def post_def [of "set_error 1"] set_error_def\<close>)
  ultimately show ?thesis
    unfolding post_run_pipe by (simp del: post_bnd)
qed

end
