(* ===== verification/Shell_Process.thy ===== *)
theory Shell_Process
  imports Shell_Run
begin

text \<open>
  The command-line interpreter of \<open>task1_shell/shell.c\<close>: \<open>process_command\<close> walks the line, cuts
  it into words by writing zero bytes into it, and runs commands, pipes and redirections as it
  meets their delimiters; \<open>process\<close> splits off background jobs; \<open>main\<close> is the prompt loop.

  The line is the buffer itself (a list of characters of fixed length with its zero bytes) and
  \<open>p\<close>, \<open>line\<close> and the words in \<open>args\<close> are indices into it, so that what a word denotes is read from
  the buffer when it is used.  \<open>args\<close> holds the pointers up to \<open>narg\<close>; the array has 100 slots.
\<close>

section \<open>process_command\<close>

definition MAX_ARGS :: nat where
  "MAX_ARGS = 100"

definition argv_of :: "string \<Rightarrow> nat list \<Rightarrow> string list" where
  "argv_of buf args = map (str_at buf) args"

text \<open>\<open>*narg++ = word; *narg = NULL\<close>: the second store is at index \<open>narg + 1\<close>.\<close>

definition push_arg :: "nat list \<Rightarrow> nat option \<Rightarrow> nat list act" where
  "push_arg args word = (case word of
       None \<Rightarrow> retn args
     | Some w \<Rightarrow> if length args + 1 < MAX_ARGS then retn (args @ [w]) else crash Out_of_bounds)"

text \<open>
  Redirections: the file name is copied to the heap, and the delimiter after it put back.  The
  results are the new \<open>p\<close> and the new \<open>args\<close>.
\<close>

definition redirect_name :: "string \<Rightarrow> nat \<Rightarrow> (nat \<times> string) act" where
  "redirect_name buf p =
     (case parseword buf (p + 1) of
        None \<Rightarrow> crash Out_of_bounds
      | Some (q, None) \<Rightarrow> crash Null_deref
      | Some (q, Some w) \<Rightarrow> retn (q - 1, str_at (buf[q := nul]) w))"

definition redirect_out :: "env \<Rightarrow> string \<Rightarrow> nat \<Rightarrow> nat list \<Rightarrow> (nat \<times> nat list) act" where
  "redirect_out E buf p args =
     bnd (redirect_name buf p) (\<lambda>(q, file).
     bnd (getcwdmode E) (\<lambda>mode.
     bnd (sys_open E file (O_wronly_creat_trunc mode)) (\<lambda>fd.
       if fd < 0 then seqn (warn file) (retn (q, []))
       else
         seqn fflush_stdout
         (seqn (\<lambda>s. bnd (sys_dup (inout1 s)) set_inout1 s)
         (seqn (sys_dup2 fd 1)
         (seqn (sys_close fd)
         (retn (q, args))))))))"

definition redirect_in :: "env \<Rightarrow> string \<Rightarrow> nat \<Rightarrow> nat list \<Rightarrow> (nat \<times> nat list) act" where
  "redirect_in E buf p args =
     bnd (redirect_name buf p) (\<lambda>(q, file).
     bnd (sys_open E file O_rdonly) (\<lambda>fd.
       if fd < 0 then seqn (warn file) (retn (q, []))
       else
         seqn (\<lambda>s. bnd (sys_dup (inout0 s)) set_inout0 s)
         (seqn (sys_dup2 fd 0)
         (seqn (sys_close fd)
         (retn (q, args))))))"

definition set_conditional :: "(int \<Rightarrow> bool) \<Rightarrow> unit act" where
  "set_conditional f s = (Ret (), s\<lparr>conditional_run := f (p_error s)\<rparr>)"

text \<open>\<open>if (run_command(args) != 0) { narg = args; *narg = NULL; }\<close>\<close>

definition run_and_reset :: "env \<Rightarrow> string \<Rightarrow> nat list \<Rightarrow> nat list act" where
  "run_and_reset E buf args =
     bnd (run_command E (argv_of buf args)) (\<lambda>r. retn (if r \<noteq> 0 then [] else args))"

text \<open>
  The switch of the loop body.  The result is where the loop stands after the body (\<open>p\<close> and
  \<open>args\<close>), or \<open>None\<close> for the \<open>return\<close> at the end of a line or at a comment.
\<close>

definition switch_ch :: "env \<Rightarrow> string \<Rightarrow> nat \<Rightarrow> nat list \<Rightarrow> char \<Rightarrow> char \<Rightarrow> (nat \<times> nat list) option act" where
  "switch_ch E buf p args ch ch2 =
     (if ch = CHR ''>'' then bnd (redirect_out E buf p args) (\<lambda>r. retn (Some r))
      else if ch = CHR ''<'' then bnd (redirect_in E buf p args) (\<lambda>r. retn (Some r))
      else if ch = CHR ''|'' then
        (if ch2 = CHR ''|'' then
           bnd (run_and_reset E buf args) (\<lambda>args'.
           seqn (set_conditional (\<lambda>e. e \<noteq> 0)) (retn (Some (p + 1, args'))))
         else if args = [] then retn (Some (p, args))
         else bnd (run_pipe E (argv_of buf args)) (\<lambda>r. retn (Some (p, if r > 0 then [] else args))))
      else if ch = CHR ''&'' then
        (if ch2 = CHR ''&'' then
           bnd (run_and_reset E buf args) (\<lambda>args'.
           seqn (set_conditional (\<lambda>e. e = 0)) (retn (Some (p + 1, args'))))
         else retn (Some (p, args)))
      else if ch = CHR ''#'' \<or> ch = nul \<or> ch = CHR 0x0A then
        seqn (run_and_reset E buf args) (retn None)
      else if ch = CHR '';'' then
        bnd (run_and_reset E buf args) (\<lambda>args'. retn (Some (p, args')))
      else retn (Some (p, args)))"

text \<open>
  One round of the loop: the word before the next delimiter joins \<open>args\<close>, the delimiter is
  overwritten, and the switch acts on it.  \<open>ch2\<close> is read before; the line has 1000 bytes, so a
  delimiter in the last of them makes the read of \<open>ch2\<close> leave the array.
\<close>

datatype round = Round_return | Round_next string nat "nat list"

definition pc_round :: "env \<Rightarrow> string \<Rightarrow> nat \<Rightarrow> nat list \<Rightarrow> round act" where
  "pc_round E buf p args =
     (case parseword buf p of
        None \<Rightarrow> crash Out_of_bounds
      | Some (q, word) \<Rightarrow>
          if q + 1 < length buf then
            bnd (push_arg args word) (\<lambda>args'.
            bnd (switch_ch E (buf[q := nul]) q args' (buf ! q) (buf ! (q + 1))) (\<lambda>r.
            retn (case r of None \<Rightarrow> Round_return | Some (q', args'') \<Rightarrow> Round_next (buf[q := nul]) q' args'')))
          else crash Out_of_bounds)"

text \<open>\<open>p != line && p++\<close>\<close>

definition advance :: "nat \<Rightarrow> nat \<Rightarrow> nat" where
  "advance line p = (if p \<noteq> line then p + 1 else p)"

section \<open>Progress of the loop\<close>

lemma redirect_name_post:
  "post (redirect_name buf p) s (\<lambda>(q, file) t. p < q \<and> t = s)"
  using parseword_progress [of buf "p + 1"]
  by (auto simp: redirect_name_def split: option.splits)

lemma switch_ch_post:
  "post (switch_ch E buf p args ch ch2) s (\<lambda>r t. case r of None \<Rightarrow> True | Some x \<Rightarrow> p \<le> fst x)"
proof -
  have ro: "post (redirect_out E buf p args) s (\<lambda>r t. p \<le> fst r)"
    unfolding redirect_out_def post_bnd
    by (rule post_mono [OF redirect_name_post]) (auto simp: post_def bnd_def retn_def split: prod.splits outcome.splits if_splits)
  have ri: "post (redirect_in E buf p args) s (\<lambda>r t. p \<le> fst r)"
    unfolding redirect_in_def post_bnd
    by (rule post_mono [OF redirect_name_post]) (auto simp: post_def bnd_def retn_def split: prod.splits outcome.splits if_splits)
  show ?thesis
    by (simp add: switch_ch_def ro ri)
qed

lemma pc_round_post:
  "post (pc_round E buf p args) s
     (\<lambda>r t. \<forall>b q args'. r = Round_next b q args' \<longrightarrow> (\<exists>d. p \<le> d \<and> d \<le> q \<and> d < length buf \<and> b = buf[d := nul]))"
proof (cases "parseword buf p")
  case None
  then show ?thesis by (simp add: pc_round_def)
next
  case (Some x)
  then obtain q w where x: "parseword buf p = Some (q, w)" by (cases x) simp
  from parseword_progress [OF this] have q: "p \<le> q" "q < length buf" by auto
  have "post (switch_ch E (buf[q := nul]) q args' ch ch2) u
      (\<lambda>r t. \<forall>b q' a. (case r of None \<Rightarrow> Round_return | Some (q', args'') \<Rightarrow> Round_next (buf[q := nul]) q' args'')
          = Round_next b q' a \<longrightarrow> (\<exists>d. p \<le> d \<and> d \<le> q' \<and> d < length buf \<and> b = buf[d := nul]))" for args' ch ch2 u
    by (rule post_mono [OF switch_ch_post]) (use q in \<open>fastforce split: option.splits\<close>)
  then show ?thesis using x by (auto simp: pc_round_def post_def [of "push_arg _ _"])
qed

text \<open>
  The loop.  It ends: the pointer moves right in every round but one whose delimiter is the very
  first byte of the line, and that byte is then zero.
\<close>

definition line_left :: "string \<Rightarrow> nat \<Rightarrow> nat" where
  "line_left buf p = 2 * (length buf - p) + (if p < length buf \<and> buf ! p \<noteq> nul then 1 else 0)"

lemma pc_round_decreases:
  assumes "pc_round E buf p args s = (Ret (Round_next b q args'), t)" "p < length buf" "buf ! p \<noteq> nul"
  shows "line_left b (advance line q) < line_left buf p"
proof -
  from postD [OF pc_round_post assms(1)] obtain d
    where d: "p \<le> d" "d \<le> q" "d < length buf" "b = buf[d := nul]" by blast
  show ?thesis
  proof (cases "p < advance line q")
    case True
    with d assms(2) have "length b - advance line q < length buf - p" by simp
    with assms(2,3) show ?thesis by (simp add: line_left_def)
  next
    case False
    with d have "advance line q = p" "d = p" by (auto simp: advance_def split: if_splits)
    with d assms show ?thesis by (simp add: line_left_def)
  qed
qed

function pc_loop :: "env \<Rightarrow> nat \<Rightarrow> string \<Rightarrow> nat \<Rightarrow> nat list \<Rightarrow> unit act" where
  "pc_loop E line buf p args s =
     (if length buf \<le> p then crash Out_of_bounds s
      else if buf ! p = nul then seqn (run_and_reset E buf args) (retn ()) s
      else bnd (pc_round E buf p args) (\<lambda>r t. case r of
               Round_return \<Rightarrow> retn () t
             | Round_next b q args' \<Rightarrow> pc_loop E line b (advance line q) args' t) s)"
  by pat_completeness auto
termination
  by (relation "measure (\<lambda>(E, line, buf, p, args, s). line_left buf p)") (auto intro: pc_round_decreases)

declare pc_loop.simps [simp del]

definition init_command :: "unit act" where
  "init_command s = (Ret (), s\<lparr>inout0 := 0, inout1 := 1, conditional_run := True\<rparr>)"

definition process_command :: "env \<Rightarrow> string \<Rightarrow> nat \<Rightarrow> unit act" where
  "process_command E buf line = seqn init_command (pc_loop E line buf line [])"

section \<open>process\<close>

function process_loop :: "env \<Rightarrow> string \<Rightarrow> nat \<Rightarrow> nat \<Rightarrow> unit act" where
  "process_loop E buf line p s =
     (if length buf \<le> p then crash Out_of_bounds s
      else if buf ! p = nul then process_command E buf line s
      else if length buf \<le> p + 1 then crash Out_of_bounds s
      else if buf ! p = CHR ''&'' \<and> buf ! (p + 1) = CHR ''&'' then process_loop E buf line (p + 2) s
      else if buf ! p = CHR ''&'' then
        bnd (sys_fork E) (\<lambda>childpid t.
          if childpid = -1 then err1 ''Unable to fork.'' t
          else if childpid = 0 then
            seqn (process_command E (buf[p := nul]) line) (\<lambda>s. exit_with (p_error s) s) t
          else process_loop E (buf[p := nul]) (p + 1) (p + 1) t) s
      else process_loop E buf line (p + 1) s)"
  by pat_completeness auto
termination
  by (relation "measure (\<lambda>(E, buf, line, p, s). length buf - p)") auto

declare process_loop.simps [simp del]

definition process :: "env \<Rightarrow> string \<Rightarrow> unit act" where
  "process E buf = process_loop E buf 0 0"

section \<open>main\<close>

text \<open>\<open>fgets(line, n + 1, stdin)\<close> on the input that is left.\<close>

definition fgets_split :: "nat \<Rightarrow> string \<Rightarrow> string \<times> string" where
  "fgets_split n input =
     (let l = takeWhile (\<lambda>c. c \<noteq> CHR 0x0A) (take n input);
          m = (if length l < length (take n input) then length l + 1 else length l)
      in (take m input, drop m input))"

definition LINE_SIZE :: nat where
  "LINE_SIZE = 1000"

definition prompt :: "env \<Rightarrow> unit act" where
  "prompt E s = seqn tick (printf (e_cwd E (p_clock s) @ '' % '')) s"

lemma fgets_split_progress: "input \<noteq> [] \<Longrightarrow> 0 < n \<Longrightarrow> length (snd (fgets_split n input)) < length input"
proof -
  assume "input \<noteq> []" "0 < n"
  then have "take n input \<noteq> []" by simp
  then have "length (takeWhile (\<lambda>c. c \<noteq> CHR 0x0A) (take n input)) < length (take n input)
      \<or> takeWhile (\<lambda>c. c \<noteq> CHR 0x0A) (take n input) \<noteq> []"
    by (cases "takeWhile (\<lambda>c. c \<noteq> CHR 0x0A) (take n input)") auto
  with \<open>input \<noteq> []\<close> show ?thesis by (auto simp: fgets_split_def Let_def)
qed

function main_loop :: "env \<Rightarrow> string \<Rightarrow> string \<Rightarrow> int act" where
  "main_loop E line input s =
     seqn (prompt E) (\<lambda>t.
       if input = [] then exit_with (p_error t) t
       else (let (l, rest) = fgets_split (LINE_SIZE - 1) input;
                 line' = l @ nul # drop (length l + 1) line
             in bnd (process E line') (\<lambda>_ u. main_loop E line' rest u) t)) s"
  by pat_completeness auto
termination
  by (relation "measure (\<lambda>(E, line, input, s). length input)")
     (use fgets_split_progress [of _ "LINE_SIZE - 1"] in \<open>auto simp: LINE_SIZE_def split: prod.splits\<close>,
      metis diff_Suc_1 fgets_split_progress snd_conv zero_less_numeral)

declare main_loop.simps [simp del]

end
