(* ===== verification/Shell_Seq.thy ===== *)
theory Shell_Seq
  imports Shell_Process
begin

text \<open>
  What a command line means: an abstract syntax of command sequences, its printed form and its
  meaning as a sequence of calls of \<open>run_command\<close>; and the proof that \<open>process_command\<close>, which
  finds words and connectors by overwriting the line, has exactly this meaning on a printed line.
\<close>

section \<open>Command sequences\<close>

datatype conn = Seq | And | Or

fun conn_str :: "conn \<Rightarrow> string" where
  "conn_str Seq = '';''"
| "conn_str And = ''&&''"
| "conn_str Or = ''||''"

definition wf_word :: "string \<Rightarrow> bool" where
  "wf_word w \<longleftrightarrow> w \<noteq> [] \<and> list_all (\<lambda>c. \<not> isdelim c \<and> \<not> isspace c) w"

definition wf_words :: "string list \<Rightarrow> bool" where
  "wf_words ws \<longleftrightarrow> ws \<noteq> [] \<and> length ws < MAX_ARGS \<and> list_all wf_word ws"

definition words_str :: "string list \<Rightarrow> string" where
  "words_str ws = concat (map (\<lambda>w. w @ '' '') ws)"

fun line_str :: "string list \<Rightarrow> (conn \<times> string list) list \<Rightarrow> string" where
  "line_str ws [] = words_str ws @ [CHR 0x0A]"
| "line_str ws ((c, ws') # cs) = words_str ws @ conn_str c @ line_str ws' cs"

definition after_conn :: "conn \<Rightarrow> unit act" where
  "after_conn c = (case c of
       Seq \<Rightarrow> retn ()
     | And \<Rightarrow> set_conditional (\<lambda>e. e = 0)
     | Or \<Rightarrow> set_conditional (\<lambda>e. e \<noteq> 0))"

fun run_seq :: "env \<Rightarrow> string list \<Rightarrow> (conn \<times> string list) list \<Rightarrow> unit act" where
  "run_seq E ws [] = seqn (run_command E ws) (retn ())"
| "run_seq E ws ((c, ws') # cs) = seqn (run_command E ws) (seqn (after_conn c) (run_seq E ws' cs))"

section \<open>Words and pointers\<close>

text \<open>\<open>args_at X args ws\<close>: the pointers \<open>args\<close> lead to the words \<open>ws\<close> inside the part \<open>X\<close> of the
  line that is already cut, whatever follows it.\<close>

definition args_at :: "string \<Rightarrow> nat list \<Rightarrow> string list \<Rightarrow> bool" where
  "args_at X args ws \<longleftrightarrow> (\<forall>Y. argv_of (X @ Y) args = ws)"

lemma args_at_Nil [simp]: "args_at X [] []"
  by (simp add: args_at_def argv_of_def)

lemma args_at_append: "args_at X args ws \<Longrightarrow> args_at (X @ Z) args ws"
  by (simp add: args_at_def)

lemma args_at_length: "args_at X args ws \<Longrightarrow> length args = length ws"
  by (metis args_at_def argv_of_def length_map)

lemma str_at_word: "nul \<notin> set w \<Longrightarrow> str_at (X @ w @ nul # Y) (length X) = w"
  by (simp add: str_at_def takeWhile_append)

lemma args_at_snoc:
  assumes "args_at X args ws" and "nul \<notin> set w"
  shows "args_at (X @ w @ [nul]) (args @ [length X]) (ws @ [w])"
  using assms str_at_word [OF assms(2)]
  by (simp add: args_at_def argv_of_def)

section \<open>One round of the loop\<close>

lemma wf_word_simps:
  assumes "wf_word w"
  shows "w \<noteq> []" "list_all (\<lambda>c. \<not> isdelim c) w" "\<not> isspace (hd w)" "nul \<notin> set w"
proof -
  show "w \<noteq> []" "list_all (\<lambda>c. \<not> isdelim c) w"
    using assms by (auto simp: wf_word_def list_all_iff)
  with assms show "\<not> isspace (hd w)" by (auto simp: wf_word_def list_all_iff)
  from \<open>list_all (\<lambda>c. \<not> isdelim c) w\<close> nul_simps(2) show "nul \<notin> set w"
    unfolding list_all_iff by blast
qed

lemma char_classes [simp]:
  "isdelim (CHR '' '')" "isdelim (CHR '';'')" "isdelim (CHR ''&'')" "isdelim (CHR ''|'')"
  "\<not> isspace (CHR '';'')" "\<not> isspace (CHR ''&'')" "\<not> isspace (CHR ''|'')" "isspace (CHR 0x0A)"
  by (simp_all add: isdelim_def isspace_def)

lemma bnd_retn [simp]: "bnd (retn x) f = f x"
  by (rule ext) (simp add: bnd_def retn_def)

lemma bnd_assoc: "bnd (bnd m f) g = bnd m (\<lambda>x. bnd (f x) g)"
  by (rule ext) (auto simp: bnd_def split: prod.splits outcome.splits)

lemma pc_round_word:
  assumes "wf_word w" and "length args + 1 < MAX_ARGS" and "Y \<noteq> []"
  shows "pc_round E (X @ w @ CHR '' '' # Y) (length X) args
     = retn (Round_next (X @ w @ nul # Y) (length X + length w) (args @ [length X]))"
proof -
  have "parseword (X @ w @ CHR '' '' # Y) (length X) = Some (length X + length w, Some (length X))"
    using parseword_split [of "length X" "X @ w @ CHR '' '' # Y" "[]" w "CHR '' ''" Y]
      wf_word_simps [OF assms(1)] by simp
  moreover have "(X @ w @ CHR '' '' # Y)[length X + length w := nul] = X @ w @ nul # Y"
    by (simp add: list_update_append)
  ultimately show ?thesis
    using assms(2,3) by (simp add: pc_round_def push_arg_def switch_ch_def nth_append)
qed

lemma run_command_nonzero: "post (run_command E args) s (\<lambda>r t. r \<noteq> 0)"
proof -
  have "post (fork_command E args False 0 0) u (\<lambda>r t. r \<noteq> 0)" for u
    unfolding fork_command_def by (rule post_skip) (simp add: child_branch_post)
  then have "post (bnd (run_builtin E args) (\<lambda>found. if found \<noteq> 0 then seqn restore_std (retn 1)
        else fork_command E args False 0 0)) s (\<lambda>r t. r \<noteq> 0)"
    by (intro post_skip) simp
  then show ?thesis
    unfolding post_run_command by simp
qed

lemma run_and_reset_eq: "run_and_reset E buf args = seqn (run_command E (argv_of buf args)) (retn [])"
proof (rule ext)
  fix s
  show "run_and_reset E buf args s = seqn (run_command E (argv_of buf args)) (retn []) s"
    using run_command_nonzero [of E "argv_of buf args" s]
    by (auto simp: run_and_reset_def bnd_def post_def retn_def split: prod.splits outcome.splits)
qed

lemma pc_round_conn:
  assumes "Y \<noteq> []" and "args_at X args ws"
  shows "pc_round E (X @ conn_str c @ Y) (length X) args
     = seqn (run_command E ws) (seqn (after_conn c)
         (retn (Round_next (X @ nul # tl (conn_str c) @ Y) (length X + length (conn_str c) - 1) [])))"
proof -
  have "parseword (X @ conn_str c @ Y) (length X) = Some (length X, None)"
    using parseword_split [of "length X" "X @ conn_str c @ Y" "[]" "[]" "hd (conn_str c)" "tl (conn_str c) @ Y"]
    by (cases c) simp_all
  moreover have "(X @ conn_str c @ Y)[length X := nul] = X @ nul # tl (conn_str c) @ Y"
    by (cases c) simp_all
  moreover have "argv_of (X @ nul # tl (conn_str c) @ Y) args = ws"
    using assms(2) by (simp add: args_at_def)
  ultimately show ?thesis
    using assms(1)
    by (cases c)
       (simp_all add: pc_round_def push_arg_def switch_ch_def run_and_reset_eq after_conn_def bnd_assoc nth_append
         split: list.splits)
qed

lemma pc_round_end:
  assumes "Y \<noteq> []" and "args_at X args ws"
  shows "pc_round E (X @ CHR 0x0A # nul # Y) (length X) args
     = seqn (run_command E ws) (retn Round_return)"
proof -
  have "parseword (X @ CHR 0x0A # nul # Y) (length X) = Some (Suc (length X), None)"
    using parseword_split [of "length X" "X @ CHR 0x0A # nul # Y" "[CHR 0x0A]" "[]" nul Y] by simp
  moreover have "argv_of (X @ CHR 0x0A # nul # Y) args = ws"
    using assms(2) by (simp add: args_at_def)
  ultimately show ?thesis
    using assms(1)
    by (simp add: pc_round_def push_arg_def switch_ch_def run_and_reset_eq bnd_assoc nth_append list_update_append)
qed

section \<open>The whole line\<close>

lemma pc_loop_word:
  assumes "wf_word w" and "length args + 1 < MAX_ARGS" and "Y \<noteq> []"
  shows "pc_loop E 0 (X @ w @ CHR '' '' # Y) (length X) args
     = pc_loop E 0 (X @ w @ nul # Y) (length X + length w + 1) (args @ [length X])"
proof (rule ext)
  fix s
  have "w \<noteq> []" "(w @ CHR '' '' # Y) ! 0 \<noteq> nul"
    using wf_word_simps [OF assms(1)] by (auto simp: nth_append) (metis nth_mem length_greater_0_conv)
  then show "pc_loop E 0 (X @ w @ CHR '' '' # Y) (length X) args s
     = pc_loop E 0 (X @ w @ nul # Y) (length X + length w + 1) (args @ [length X]) s"
    using pc_round_word [OF assms, of E X]
    by (subst pc_loop.simps) (simp add: nth_append advance_def)
qed

lemma pc_loop_words:
  assumes "list_all wf_word vs" and "args_at X args ws" and "length args + length vs < MAX_ARGS" and "Y \<noteq> []"
  shows "\<exists>Z args'. pc_loop E 0 (X @ words_str vs @ Y) (length X) args = pc_loop E 0 (Z @ Y) (length Z) args'
     \<and> args_at Z args' (ws @ vs) \<and> length X + length vs \<le> length Z"
  using assms
proof (induction vs arbitrary: X args ws)
  case Nil
  then show ?case by (intro exI [of _ X] exI [of _ args]) (simp add: words_str_def)
next
  case (Cons v vs)
  from Cons.prems have v: "wf_word v" "length args + 1 < MAX_ARGS" "words_str vs @ Y \<noteq> []" by auto
  let ?X = "X @ v @ [nul]"
  have "args_at ?X (args @ [length X]) (ws @ [v])"
    using args_at_snoc Cons.prems(2) wf_word_simps(4) [OF v(1)] by blast
  with Cons.prems obtain Z args'
    where Z: "pc_loop E 0 (?X @ words_str vs @ Y) (length ?X) (args @ [length X]) = pc_loop E 0 (Z @ Y) (length Z) args'"
      "args_at Z args' ((ws @ [v]) @ vs)" "length ?X + length vs \<le> length Z"
    using Cons.IH [of ?X "args @ [length X]" "ws @ [v]"] by auto
  with pc_loop_word [OF v, of E X] show ?case
    by (intro exI [of _ Z] exI [of _ args']) (simp add: words_str_def)
qed

lemma pc_loop_line:
  assumes "wf_words ws" and "list_all (wf_words \<circ> snd) cs" and "Y \<noteq> []"
  shows "pc_loop E 0 (X @ line_str ws cs @ nul # Y) (length X) [] = run_seq E ws cs"
  using assms
proof (induction cs arbitrary: ws X)
  case Nil
  let ?Y = "CHR 0x0A # nul # Y"
  from Nil obtain Z args where Z: "pc_loop E 0 (X @ words_str ws @ ?Y) (length X) [] = pc_loop E 0 (Z @ ?Y) (length Z) args"
      "args_at Z args ws"
    using pc_loop_words [of ws X "[]" "[]" ?Y E] by (auto simp: wf_words_def)
  have "pc_loop E 0 (Z @ ?Y) (length Z) args s = run_seq E ws [] s" for s
    using pc_round_end [OF Nil.prems(3) Z(2), of E]
    by (subst pc_loop.simps) (simp add: nth_append bnd_assoc)
  with Z(1) show ?case by auto
next
  case (Cons x cs)
  obtain c vs where x: "x = (c, vs)" by (cases x)
  let ?R = "line_str vs cs @ nul # Y" let ?Y = "conn_str c @ ?R"
  from Cons.prems x obtain Z args where Z: "pc_loop E 0 (X @ words_str ws @ ?Y) (length X) [] = pc_loop E 0 (Z @ ?Y) (length Z) args"
      "args_at Z args ws" "length X + length ws \<le> length Z"
    using pc_loop_words [of ws X "[]" "[]" ?Y E] by (auto simp: wf_words_def)
  have "Z \<noteq> []" using Z(3) Cons.prems(1) by (auto simp: wf_words_def)
  have hd: "conn_str c \<noteq> []" "conn_str c ! 0 \<noteq> nul" by (cases c; simp)+
  have len: "1 < length Z + length (conn_str c)" using hd(1) \<open>Z \<noteq> []\<close> by (cases Z; cases "conn_str c") auto
  let ?Z = "Z @ nul # tl (conn_str c)"
  have "length Z + length (conn_str c) = length ?Z" using hd(1) by (cases c) simp_all
  moreover have "pc_loop E 0 (?Z @ ?R) (length ?Z) [] = run_seq E vs cs"
    using Cons x by (intro Cons.IH) auto
  ultimately have "pc_loop E 0 (Z @ ?Y) (length Z) args s = run_seq E ws (x # cs) s" for s
    using pc_round_conn [of ?R Z args ws E c] Z(2) \<open>Z \<noteq> []\<close> hd x len
    by (subst pc_loop.simps) (auto simp: nth_append bnd_assoc advance_def)
  with Z(1) x show ?case by auto
qed

section \<open>Skipped commands\<close>

text \<open>After a command has run, the standard descriptors are in place and nothing is buffered.\<close>

definition settled :: "proc \<Rightarrow> bool" where
  "settled s \<longleftrightarrow> p_obuf s = [] \<and> inout0 s = 0 \<and> inout1 s = 1"

lemma restore_std_settles: "post restore_std s (\<lambda>_ t. settled t)"
  by (auto simp: post_def restore_std_def restore_stdout_def restore_stdin_def act_defs settled_def
      set_inout0_def set_inout1_def Let_def split: if_splits prod.splits)

lemma run_command_settles: "post (run_command E args) s (\<lambda>r t. settled t)"
proof -
  have w: "post (sys_waitpid E pid) u (\<lambda>_ t. settled t)" if "settled u" for u pid
    using that by (simp add: post_def sys_waitpid_def Let_def settled_def)
  have "post (parent_branch E False 0 0 pid) u (\<lambda>_ t. settled t)" for u pid
    unfolding parent_branch_def post_bnd by (rule post_mono [OF restore_std_settles]) (use w in simp)
  then have "post (fork_command E args False 0 0) u (\<lambda>r t. settled t)" for u
    unfolding fork_command_def by (intro post_skip) (simp add: child_branch_post)
  then have "post (bnd (run_builtin E args) (\<lambda>found. if found \<noteq> 0 then seqn restore_std (retn 1)
        else fork_command E args False 0 0)) s (\<lambda>r t. settled t)"
    by (intro post_skip) (simp add: restore_std_settles)
  then show ?thesis unfolding post_run_command by (simp add: restore_std_settles)
qed

lemma restore_std_settled: "settled s \<Longrightarrow> restore_std s = (Ret (), s)"
  by (simp add: settled_def restore_std_def restore_stdout_def restore_stdin_def act_defs)

lemma run_command_skips:
  "settled s \<Longrightarrow> args = [] \<or> \<not> conditional_run s \<Longrightarrow> run_command E args s = (Ret 1, s)"
  using restore_std_settled [of s] by (simp add: run_command_def run_command2_def bnd_def retn_def)

section \<open>Properties\<close>

text \<open>C6: \<open>process_command\<close> on the printed form of any sequence of commands joined by \<open>;\<close>,
  \<open>&&\<close> and \<open>||\<close> (words free of delimiters and white space, fewer than 100 of them per command)
  does exactly what the sequence means: it runs each command with exactly its words, in order, and
  after \<open>&&\<close> or \<open>||\<close> sets the flag that makes the following commands run or not from the status
  of the command before.  The line may be followed by any bytes.\<close>

theorem process_command_runs_sequence:
  assumes "wf_words ws" and "list_all (wf_words \<circ> snd) cs" and "Y \<noteq> []"
  shows "process_command E (line_str ws cs @ nul # Y) 0 = seqn init_command (run_seq E ws cs)"
  using pc_loop_line [OF assms, of E "[]"] by (simp add: process_command_def)

theorem process_command_runs_sequence_witness:
  "\<forall>E. process_command E (''ls -l &&wc ;true '' @ [CHR 0x0A] @ nul # [nul]) 0
     = seqn init_command (run_seq E [''ls'', ''-l''] [(And, [''wc'']), (Seq, [''true''])])"
proof
  fix E
  have "wf_words [''ls'', ''-l'']" "list_all (wf_words \<circ> snd) [(And, [''wc'']), (Seq, [''true''])]"
    by (simp_all add: wf_words_def wf_word_def isdelim_def isspace_def MAX_ARGS_def)
  then show "process_command E (''ls -l &&wc ;true '' @ [CHR 0x0A] @ nul # [nul]) 0
     = seqn init_command (run_seq E [''ls'', ''-l''] [(And, [''wc'']), (Seq, [''true''])])"
    using process_command_runs_sequence [of "[''ls'', ''-l'']" "[(And, [''wc'']), (Seq, [''true''])]" "[nul]" E]
    by (simp add: words_str_def)
qed

text \<open>When the first command of \<open>a && b ; c\<close> fails, nothing else of the line runs: not only
  \<open>b\<close> but also \<open>c\<close> is skipped, because \<open>;\<close> does not set the run flag again.  The process is left
  exactly as the first command left it, with the flag down.\<close>

theorem semicolon_after_failed_and_is_skipped:
  assumes "wf_words a" "wf_words b" "wf_words c" "Y \<noteq> []"
    and "run_command E a (s\<lparr>inout0 := 0, inout1 := 1, conditional_run := True\<rparr>) = (Ret r, t)"
    and "p_error t \<noteq> 0"
  shows "process_command E (line_str a [(And, b), (Seq, c)] @ nul # Y) 0 s
     = (Ret (), t\<lparr>conditional_run := False\<rparr>)"
proof -
  have "process_command E (line_str a [(And, b), (Seq, c)] @ nul # Y) 0
      = seqn init_command (run_seq E a [(And, b), (Seq, c)])"
    using assms(1-4) pc_loop_line [of a "[(And, b), (Seq, c)]" Y E "[]"] by (simp add: process_command_def)
  moreover have "settled (t\<lparr>conditional_run := False\<rparr>)"
    using postD [OF run_command_settles assms(5)] by (simp add: settled_def)
  ultimately show ?thesis
    using assms(5,6) run_command_skips [of "t\<lparr>conditional_run := False\<rparr>" _ E]
    by (simp add: bnd_def init_command_def after_conn_def set_conditional_def retn_def)
qed

definition sample_env :: env where
  "sample_env = \<lparr>e_fork = \<lambda>n. 7, e_wait = \<lambda>n pid. Some 256, e_open = \<lambda>n f how. True, e_cwd = \<lambda>n. ''/'',
     e_cwdmode = \<lambda>n. 16877, e_chdir = \<lambda>n d. 0, e_exec = \<lambda>n argv. True, e_pipe = \<lambda>n. True\<rparr>"

definition sample_proc :: proc where
  "sample_proc = \<lparr>p_fds = [Some (Of_std 0), Some (Of_std 1), Some (Of_std 2), None, None, None, None, None, None],
     p_obuf = [], p_clock = 0,
     p_trace = [], p_error = 0, inout0 = 0, inout1 = 1, conditional_run = True\<rparr>"

theorem semicolon_after_failed_and_is_skipped_witness:
  "process_command sample_env (''false &&b ;c '' @ [CHR 0x0A] @ nul # [nul]) 0 sample_proc
     = (Ret (), sample_proc\<lparr>p_clock := 2, p_trace := [Ev_fork 7, Ev_wait 7 (Some 256)], p_error := 256,
         conditional_run := False\<rparr>)"
proof -
  let ?t = "sample_proc\<lparr>p_clock := 2, p_trace := [Ev_fork 7, Ev_wait 7 (Some 256)], p_error := 256\<rparr>"
  have "wf_words [''false'']" "wf_words [''b'']" "wf_words [''c'']"
    by (simp_all add: wf_words_def wf_word_def isdelim_def isspace_def MAX_ARGS_def)
  moreover have "run_command sample_env [''false''] (sample_proc\<lparr>inout0 := 0, inout1 := 1, conditional_run := True\<rparr>)
      = (Ret 7, ?t)"
    by (simp add: run_command_def run_command2_def run_builtin_cases fork_command_def parent_branch_def
        restore_std_def restore_stdout_def restore_stdin_def act_defs sample_proc_def sample_env_def)
  ultimately show ?thesis
    using semicolon_after_failed_and_is_skipped
      [of "[''false'']" "[''b'']" "[''c'']" "[nul]" sample_env sample_proc 7 ?t]
    by (simp add: words_str_def sample_proc_def)
qed

text \<open>A line whose very first character is \<open>;\<close> is dropped whole: the pointer does not move past
  the first byte, which has just been overwritten with zero, so the loop stops and no command of
  the line runs.\<close>

theorem leading_semicolon_drops_line:
  assumes "Y \<noteq> []" and "p_obuf s = []"
  shows "process_command E (CHR '';'' # Y) 0 s
     = (Ret (), s\<lparr>inout0 := 0, inout1 := 1, conditional_run := True\<rparr>)"
proof -
  let ?s = "s\<lparr>inout0 := 0, inout1 := 1, conditional_run := True\<rparr>"
  have "pc_round E ([] @ conn_str Seq @ Y) (length []) []
     = seqn (run_command E []) (seqn (after_conn Seq) (retn (Round_next (nul # Y) 0 [])))"
    using pc_round_conn [of Y "[]" "[]" "[]" E Seq] assms(1) by simp
  moreover have "settled ?s" using assms(2) by (simp add: settled_def)
  then have "run_command E [] ?s = (Ret 1, ?s)" by (rule run_command_skips) simp
  moreover have "pc_loop E 0 (nul # Y) 0 [] ?s = (Ret (), ?s)"
    using calculation(2)
    by (subst pc_loop.simps) (simp add: run_and_reset_eq argv_of_def bnd_def retn_def)
  ultimately show ?thesis
    by (subst process_command_def, subst bnd_def, subst pc_loop.simps)
       (simp add: init_command_def advance_def after_conn_def bnd_def retn_def)
qed

theorem leading_semicolon_drops_line_witness:
  "\<forall>E. process_command E (CHR '';'' # ''ls '' @ [CHR 0x0A, nul]) 0 sample_proc = (Ret (), sample_proc)"
  using leading_semicolon_drops_line [of "''ls '' @ [CHR 0x0A, nul]" sample_proc]
  by (simp add: sample_proc_def)

end
