(* ===== verification/Shell_Stdio.thy ===== *)
theory Shell_Stdio
  imports Shell_Seq
begin

text \<open>
  The standard descriptors across a whole command line: redirections and pipes move them, and when
  \<open>process_command\<close> returns they are where they were.  Also the two ends of a pipe, background
  jobs, and the exit status.
\<close>

section \<open>Redirections keep the saved descriptors\<close>

lemma open_post:
  assumes "std_ok a b s" and "0 < free_slots (p_fds s)"
  shows "post (sys_open E file how) s (\<lambda>fd t. inout0 t = inout0 s \<and> inout1 t = inout1 s \<and> std_ok a b t
     \<and> (if fd < 0 then p_fds t = p_fds s
        else \<exists>i. fd = int i \<and> 2 \<le> i \<and> i < length (p_fds t) \<and> p_fds t ! i = Some (Of_file file how)
          \<and> inout0 s \<noteq> int i \<and> inout1 s \<noteq> int i \<and> Suc (free_slots (p_fds t)) = free_slots (p_fds s)))"
proof -
  let ?F = "p_fds s" let ?x = "Of_file file how"
  obtain i where i: "fd_alloc ?F ?x = (int i, ?F[i := Some ?x])" "i < length ?F" "?F ! i = None"
      "free_slots (?F[i := Some ?x]) = free_slots ?F - 1"
    using fd_alloc_ok [OF assms(2)] by metis
  have none: "fd_get ?F (int i) = None" by (simp add: fd_get_def i(3))
  have "i \<noteq> 0" "i \<noteq> 1" using assms(1) i(3) by (auto simp: std_ok_def intro: ccontr)
  moreover have "inout0 s \<noteq> int i" "inout1 s \<noteq> int i" using assms(1) none by (auto simp: std_ok_def)
  moreover have "std_ok a b (s\<lparr>p_clock := Suc (p_clock s), p_fds := ?F[i := Some ?x]\<rparr>)"
    using assms(1) i calculation by (auto simp: std_ok_def fd_get_update nth_list_update)
  ultimately show ?thesis
    using assms i by (auto simp: post_def sys_open_def Let_def split: if_splits)
qed

lemma move_out_post:
  assumes "std_ok a b s" and "0 < free_slots (p_fds s)"
    and i: "2 \<le> i" "i < length (p_fds s)" "p_fds s ! i = Some x" "inout0 s \<noteq> int i" "inout1 s \<noteq> int i"
  shows "post (seqn (\<lambda>s. bnd (sys_dup (inout1 s)) set_inout1 s) (seqn (sys_dup2 (int i) 1) (sys_close (int i)))) s
     (\<lambda>_ t. std_ok a b t \<and> free_slots (p_fds s) = free_slots (p_fds t))"
proof -
  let ?F = "p_fds s"
  obtain n where n: "fd_alloc ?F b = (int n, ?F[n := Some b])" "n < length ?F" "?F ! n = None"
      "free_slots (?F[n := Some b]) = free_slots ?F - 1"
    using fd_alloc_ok [OF assms(2)] by metis
  have none: "fd_get ?F (int n) = None" by (simp add: fd_get_def n(3))
  have h: "2 \<le> length ?F" "fd_get ?F (inout1 s) = Some b" "?F ! 0 \<noteq> None" "?F ! 1 \<noteq> None"
    using assms(1) by (auto simp: std_ok_def)
  have dist: "n \<noteq> 0" "n \<noteq> 1" "n \<noteq> i" using n(3) h i(3) by (auto intro: ccontr)
  have "inout0 s \<noteq> int n" using assms(1) none by (auto simp: std_ok_def)
  let ?T1 = "?F[n := Some b, 1 := Some x]" let ?T = "?T1[i := None]"
  have "free_slots ?T1 = free_slots (?F[n := Some b])"
    using free_slots_update [of 1 "?F[n := Some b]" "Some x"] h(1,4) dist by auto
  moreover have "free_slots ?T = Suc (free_slots ?T1)"
    using free_slots_update [of i ?T1 None] i dist by auto
  ultimately have "free_slots ?T = free_slots ?F" using n(4) assms(2) by simp
  moreover have "seqn (\<lambda>s. bnd (sys_dup (inout1 s)) set_inout1 s) (seqn (sys_dup2 (int i) 1) (sys_close (int i))) s
      = (Ret 0, s\<lparr>p_fds := ?T, inout1 := int n\<rparr>)"
    using i h n(1,2) dist
    by (simp add: bnd_def sys_dup_def fd_dup_def set_inout1_def sys_dup2_def fd_dup2_def sys_close_def fd_close_def
        fd_get_def [of _ "int i"] nth_list_update)
  moreover have "std_ok a b (s\<lparr>p_fds := ?T, inout1 := int n\<rparr>)"
    using assms(1) i n(2) dist \<open>inout0 s \<noteq> int n\<close> by (auto simp: std_ok_def fd_get_update nth_list_update)
  ultimately show ?thesis by (simp add: post_def)
qed

lemma move_in_post:
  assumes "std_ok a b s" and "0 < free_slots (p_fds s)"
    and i: "2 \<le> i" "i < length (p_fds s)" "p_fds s ! i = Some x" "inout0 s \<noteq> int i" "inout1 s \<noteq> int i"
  shows "post (seqn (\<lambda>s. bnd (sys_dup (inout0 s)) set_inout0 s) (seqn (sys_dup2 (int i) 0) (sys_close (int i)))) s
     (\<lambda>_ t. std_ok a b t \<and> free_slots (p_fds s) = free_slots (p_fds t))"
proof -
  let ?F = "p_fds s"
  obtain n where n: "fd_alloc ?F a = (int n, ?F[n := Some a])" "n < length ?F" "?F ! n = None"
      "free_slots (?F[n := Some a]) = free_slots ?F - 1"
    using fd_alloc_ok [OF assms(2)] by metis
  have none: "fd_get ?F (int n) = None" by (simp add: fd_get_def n(3))
  have h: "2 \<le> length ?F" "fd_get ?F (inout0 s) = Some a" "?F ! 0 \<noteq> None" "?F ! 1 \<noteq> None" "0 < length ?F"
    using assms(1) by (auto simp: std_ok_def)
  have dist: "n \<noteq> 0" "n \<noteq> 1" "n \<noteq> i" using n(3) h i(3) by (auto intro: ccontr)
  have "inout1 s \<noteq> int n" using assms(1) none by (auto simp: std_ok_def)
  let ?T1 = "?F[n := Some a, 0 := Some x]" let ?T = "?T1[i := None]"
  have "free_slots ?T1 = free_slots (?F[n := Some a])"
    using free_slots_update [of 0 "?F[n := Some a]" "Some x"] h(3,5) dist by auto
  moreover have "free_slots ?T = Suc (free_slots ?T1)"
    using free_slots_update [of i ?T1 None] i dist by auto
  ultimately have "free_slots ?T = free_slots ?F" using n(4) assms(2) by simp
  moreover have "seqn (\<lambda>s. bnd (sys_dup (inout0 s)) set_inout0 s) (seqn (sys_dup2 (int i) 0) (sys_close (int i))) s
      = (Ret 0, s\<lparr>p_fds := ?T, inout0 := int n\<rparr>)"
    using i h n(1,2) dist
    by (simp add: bnd_def sys_dup_def fd_dup_def set_inout0_def sys_dup2_def fd_dup2_def sys_close_def fd_close_def
        fd_get_def [of _ "int i"] nth_list_update)
  moreover have "std_ok a b (s\<lparr>p_fds := ?T, inout0 := int n\<rparr>)"
    using assms(1) i n(2) dist h(5) \<open>inout1 s \<noteq> int n\<close> by (auto simp: std_ok_def fd_get_update nth_list_update)
  ultimately show ?thesis by (simp add: post_def)
qed

section \<open>How far a round of the loop gets\<close>

definition special :: "char \<Rightarrow> bool" where
  "special c \<longleftrightarrow> c \<in> {CHR ''<'', CHR ''>'', CHR ''|''}"

text \<open>The redirections and pipes that are still ahead.\<close>

definition specials :: "string \<Rightarrow> nat \<Rightarrow> nat" where
  "specials buf p = length (filter special (str_at buf p))"

definition plain :: "string \<Rightarrow> nat \<Rightarrow> nat \<Rightarrow> bool" where
  "plain buf p q \<longleftrightarrow> p \<le> q \<and> (\<forall>k. p \<le> k \<and> k < q \<longrightarrow> buf ! k \<noteq> nul)"

lemma terminated_step: "terminated buf p \<Longrightarrow> buf ! p \<noteq> nul \<Longrightarrow> terminated buf (Suc p)"
  unfolding terminated_def
  by (metis drop_eq_Nil Cons_nth_drop_Suc leI list.set_cases set_ConsD empty_iff list.set(1))

lemma terminated_less: "terminated buf p \<Longrightarrow> p < length buf"
  by (cases "p < length buf") (auto simp: terminated_def)

lemma str_at_step: "p < length buf \<Longrightarrow> buf ! p \<noteq> nul \<Longrightarrow> str_at buf p = buf ! p # str_at buf (Suc p)"
  by (simp add: str_at_def Cons_nth_drop_Suc [symmetric])

lemma plain_Suc: "plain buf p (Suc q) \<longleftrightarrow> p = Suc q \<or> plain buf p q \<and> buf ! q \<noteq> nul"
  by (auto simp: plain_def less_Suc_eq le_Suc_eq)

lemma plain_ahead:
  "plain buf p q \<Longrightarrow> terminated buf p \<Longrightarrow> terminated buf q \<and> specials buf q \<le> specials buf p"
proof (induction q)
  case (Suc q)
  show ?case
  proof (cases "p = Suc q")
    case False
    with Suc have q: "plain buf p q" "buf ! q \<noteq> nul" by (auto simp: plain_Suc)
    with Suc have "terminated buf q" "specials buf q \<le> specials buf p" by auto
    with q(2) show ?thesis
      using terminated_step str_at_step [of q buf] terminated_less [of buf q]
      by (auto simp: specials_def split: if_splits)
  qed (use Suc in simp)
qed (simp add: plain_def)

lemma specials_take:
  "terminated buf q \<Longrightarrow> buf ! q \<noteq> nul
     \<Longrightarrow> specials buf q = specials buf (Suc q) + (if special (buf ! q) then 1 else 0)"
  using str_at_step [of q buf] terminated_less [of buf q] by (auto simp: specials_def)

lemma drop_update_ahead: "q < p \<Longrightarrow> drop p (buf[q := c]) = drop p buf"
  by (simp add: drop_update_cancel)

lemma ahead_update [simp]:
  "q < p \<Longrightarrow> terminated (buf[q := c]) p = terminated buf p"
  "q < p \<Longrightarrow> specials (buf[q := c]) p = specials buf p"
  by (simp_all add: terminated_def specials_def str_at_def drop_update_ahead)

lemma parseword_plain:
  assumes "terminated buf p" and "parseword buf p = Some (q, word)"
  shows "plain buf p q \<and> (word \<noteq> None \<longrightarrow> p < q)"
proof -
  from assms(1) obtain sp w d rest where w: "drop p buf = sp @ w @ d # rest" "nul \<notin> set sp" "nul \<notin> set w"
    "parseword buf p = Some (p + length sp + length w, if w = [] then None else Some (p + length sp))"
    by (rule parseword_cases) blast
  with assms(2) have q: "q = p + length (sp @ w)" by simp
  have "buf ! k \<noteq> nul" if "p \<le> k" "k < q" for k
  proof -
    have "k - p < length (sp @ w)" using that q by simp
    then have "drop p buf ! (k - p) \<in> set (sp @ w)"
      using w(1) nth_append [of "sp @ w" "d # rest" "k - p"] nth_mem [of "k - p" "sp @ w"] by simp
    moreover have "drop p buf ! (k - p) = buf ! k"
      using that terminated_less [OF assms(1)] by simp
    ultimately show ?thesis using w(2,3) by auto
  qed
  with q show ?thesis using parseword_progress [OF assms(2)] by (simp add: plain_def)
qed

lemma redirect_name_plain:
  assumes "terminated buf (Suc p)"
  shows "post (redirect_name buf p) s (\<lambda>r t. t = s \<and> plain buf (Suc p) (Suc (fst r)))"
  using parseword_plain [OF assms]
  by (auto simp: redirect_name_def split: option.splits)

text \<open>Both redirections, with \<open>mv\<close> for what is done with the opened file.\<close>

lemma redirect_post:
  assumes "std_ok a b s" "2 \<le> free_slots (p_fds s)"
    and mv: "\<And>u i. std_ok a b u \<Longrightarrow> 0 < free_slots (p_fds u) \<Longrightarrow> 2 \<le> i \<Longrightarrow> i < length (p_fds u)
      \<Longrightarrow> p_fds u ! i = Some (Of_file file how) \<Longrightarrow> inout0 u \<noteq> int i \<Longrightarrow> inout1 u \<noteq> int i
      \<Longrightarrow> post (mv (int i)) u (\<lambda>_ t. std_ok a b t \<and> free_slots (p_fds u) = free_slots (p_fds t))"
  shows "post (bnd (sys_open E file how) (\<lambda>fd. if fd < 0 then seqn (warn file) (retn (q, []))
        else seqn (mv fd) (retn (q, args)))) s
     (\<lambda>r t. std_ok a b t \<and> fst r = q \<and> free_slots (p_fds s) \<le> Suc (free_slots (p_fds t)))"
  unfolding post_bnd [of "sys_open E file how"]
proof (rule post_mono [OF open_post [OF assms(1)]])
  show "0 < free_slots (p_fds s)" using assms(2) by simp
  fix fd u
  assume u: "inout0 u = inout0 s \<and> inout1 u = inout1 s \<and> std_ok a b u
     \<and> (if fd < 0 then p_fds u = p_fds s
        else \<exists>i. fd = int i \<and> 2 \<le> i \<and> i < length (p_fds u) \<and> p_fds u ! i = Some (Of_file file how)
          \<and> inout0 s \<noteq> int i \<and> inout1 s \<noteq> int i \<and> Suc (free_slots (p_fds u)) = free_slots (p_fds s))"
  show "post (if fd < 0 then seqn (warn file) (retn (q, [])) else seqn (mv fd) (retn (q, args))) u
     (\<lambda>r t. std_ok a b t \<and> fst r = q \<and> free_slots (p_fds s) \<le> Suc (free_slots (p_fds t)))"
  proof (cases "fd < 0")
    case False
    with u obtain i where i: "fd = int i" "2 \<le> i" "i < length (p_fds u)" "p_fds u ! i = Some (Of_file file how)"
      "inout0 u \<noteq> int i" "inout1 u \<noteq> int i" "Suc (free_slots (p_fds u)) = free_slots (p_fds s)" by auto
    then have "post (mv fd) u (\<lambda>_ t. std_ok a b t \<and> free_slots (p_fds u) = free_slots (p_fds t))"
      using mv [of u i] u assms(2) by auto
    then show ?thesis using False i(7) by (auto elim!: post_mono)
  qed (use u in simp)
qed

lemma fflush_std: "std_ok a b s \<Longrightarrow> post fflush_stdout s
    (\<lambda>_ t. std_ok a b t \<and> p_fds t = p_fds s \<and> inout0 t = inout0 s \<and> inout1 t = inout1 s)"
  by (auto simp: post_def fflush_stdout_def split: if_splits)

lemma redirect_out_post:
  assumes "std_ok a b s" "2 \<le> free_slots (p_fds s)" "terminated buf (Suc p)"
  shows "post (redirect_out E buf p args) s
     (\<lambda>r t. std_ok a b t \<and> plain buf (Suc p) (Suc (fst r)) \<and> free_slots (p_fds s) \<le> Suc (free_slots (p_fds t)))"
proof -
  let ?mv = "\<lambda>fd. seqn fflush_stdout (seqn (\<lambda>s. bnd (sys_dup (inout1 s)) set_inout1 s)
      (seqn (sys_dup2 fd 1) (sys_close fd)))"
  have mv: "post (?mv (int i)) u (\<lambda>_ t. std_ok a b t \<and> free_slots (p_fds u) = free_slots (p_fds t))"
    if "std_ok a b u" "0 < free_slots (p_fds u)" "2 \<le> i" "i < length (p_fds u)" "p_fds u ! i = Some x"
      "inout0 u \<noteq> int i" "inout1 u \<noteq> int i" for u i x
    unfolding post_bnd [of fflush_stdout]
    by (rule post_mono [OF fflush_std [OF that(1)]])
       (rule post_mono [OF move_out_post [of a b _ i x]], use that in auto)
  show ?thesis
    unfolding redirect_out_def post_bnd [of "redirect_name buf p"]
  proof (rule post_mono [OF redirect_name_plain [OF assms(3)]])
    fix r :: "nat \<times> string" and t assume h: "t = s \<and> plain buf (Suc p) (Suc (fst r))"
    obtain q fl where r: "r = (q, fl)" by (cases r)
    let ?m = "e_cwdmode E (p_clock s)" let ?u = "s\<lparr>p_clock := Suc (p_clock s)\<rparr>"
    have "post (bnd (sys_open E fl (O_wronly_creat_trunc ?m)) (\<lambda>fd.
         if fd < 0 then seqn (warn fl) (retn (q, [])) else seqn (?mv fd) (retn (q, args)))) ?u
       (\<lambda>r t. std_ok a b t \<and> fst r = q \<and> free_slots (p_fds ?u) \<le> Suc (free_slots (p_fds t)))"
      by (rule redirect_post) (use assms mv in simp_all)
    then have "post (bnd (sys_open E fl (O_wronly_creat_trunc ?m)) (\<lambda>fd.
         if fd < 0 then seqn (warn fl) (retn (q, [])) else seqn (?mv fd) (retn (q, args)))) ?u
       (\<lambda>r t. std_ok a b t \<and> plain buf (Suc p) (Suc (fst r)) \<and> free_slots (p_fds s) \<le> Suc (free_slots (p_fds t)))"
      by (rule post_mono) (use h r in auto)
    then show "post (case r of (q, file) \<Rightarrow> bnd (getcwdmode E) (\<lambda>mode.
        bnd (sys_open E file (O_wronly_creat_trunc mode)) (\<lambda>fd.
         if fd < 0 then seqn (warn file) (retn (q, []))
         else seqn fflush_stdout (seqn (\<lambda>s. bnd (sys_dup (inout1 s)) set_inout1 s)
         (seqn (sys_dup2 fd 1) (seqn (sys_close fd) (retn (q, args)))))))) t
      (\<lambda>r t. std_ok a b t \<and> plain buf (Suc p) (Suc (fst r)) \<and> free_slots (p_fds s) \<le> Suc (free_slots (p_fds t)))"
      using h r by (simp add: post_def [of "getcwdmode E"] getcwdmode_def bnd_assoc cong: if_cong)
  qed
qed

lemma redirect_in_post:
  assumes "std_ok a b s" "2 \<le> free_slots (p_fds s)" "terminated buf (Suc p)"
  shows "post (redirect_in E buf p args) s
     (\<lambda>r t. std_ok a b t \<and> plain buf (Suc p) (Suc (fst r)) \<and> free_slots (p_fds s) \<le> Suc (free_slots (p_fds t)))"
  unfolding redirect_in_def post_bnd [of "redirect_name buf p"]
proof (rule post_mono [OF redirect_name_plain [OF assms(3)]])
  let ?mv = "\<lambda>fd. seqn (\<lambda>s. bnd (sys_dup (inout0 s)) set_inout0 s) (seqn (sys_dup2 fd 0) (sys_close fd))"
  fix r :: "nat \<times> string" and t assume h: "t = s \<and> plain buf (Suc p) (Suc (fst r))"
  obtain q fl where r: "r = (q, fl)" by (cases r)
  have "post (bnd (sys_open E fl O_rdonly) (\<lambda>fd.
       if fd < 0 then seqn (warn fl) (retn (q, [])) else seqn (?mv fd) (retn (q, args)))) s
     (\<lambda>r t. std_ok a b t \<and> fst r = q \<and> free_slots (p_fds s) \<le> Suc (free_slots (p_fds t)))"
    by (rule redirect_post) (use assms move_in_post in simp_all)
  then have "post (bnd (sys_open E fl O_rdonly) (\<lambda>fd.
       if fd < 0 then seqn (warn fl) (retn (q, [])) else seqn (?mv fd) (retn (q, args)))) s
     (\<lambda>r t. std_ok a b t \<and> plain buf (Suc p) (Suc (fst r)) \<and> free_slots (p_fds s) \<le> Suc (free_slots (p_fds t)))"
    by (rule post_mono) (use h r in auto)
  then show "post (case r of (q, file) \<Rightarrow> bnd (sys_open E file O_rdonly) (\<lambda>fd.
       if fd < 0 then seqn (warn file) (retn (q, []))
       else seqn (\<lambda>s. bnd (sys_dup (inout0 s)) set_inout0 s)
       (seqn (sys_dup2 fd 0) (seqn (sys_close fd) (retn (q, args)))))) t
    (\<lambda>r t. std_ok a b t \<and> plain buf (Suc p) (Suc (fst r)) \<and> free_slots (p_fds s) \<le> Suc (free_slots (p_fds t)))"
    using h r by (simp add: bnd_assoc cong: if_cong)
qed

section \<open>The loop keeps the saved descriptors\<close>

lemma run_and_reset_post:
  assumes "std_ok a b s"
  shows "post (run_and_reset E buf args) s
     (\<lambda>_ t. std_home a b t \<and> free_slots (p_fds s) \<le> free_slots (p_fds t))"
  unfolding run_and_reset_eq post_bnd
  by (rule post_mono [OF run_command_post [OF assms]]) simp

lemma std_home_ok: "std_home a b s \<Longrightarrow> std_ok a b s"
  by (simp add: std_home_def)

lemma switch_ch_std:
  assumes "std_ok a b s" and "3 \<le> free_slots (p_fds s)" and "ch \<noteq> nul \<Longrightarrow> terminated buf (Suc q)"
  shows "post (switch_ch E buf q args ch (buf ! Suc q)) s (\<lambda>r t. case r of
       None \<Rightarrow> std_home a b t
     | Some x \<Rightarrow> std_ok a b t \<and> plain buf (Suc q) (Suc (fst x))
         \<and> free_slots (p_fds s) \<le> free_slots (p_fds t) + (if special ch then 1 else 0))"
proof -
  let ?Q = "\<lambda>r t. case r of None \<Rightarrow> std_home a b t
     | Some x \<Rightarrow> std_ok a b t \<and> plain buf (Suc q) (Suc (fst x))
         \<and> free_slots (p_fds s) \<le> free_slots (p_fds t) + (if special ch then 1 else 0)"
  have rr: "post (run_and_reset E buf args) s (\<lambda>_ t. Q t)"
    if "\<And>t. std_home a b t \<Longrightarrow> free_slots (p_fds s) \<le> free_slots (p_fds t) \<Longrightarrow> Q t" for Q
    by (rule post_mono [OF run_and_reset_post [OF assms(1)]]) (use that in auto)
  have sc [simp]: "post (set_conditional f) u P \<longleftrightarrow> P () (u\<lparr>conditional_run := f (p_error u)\<rparr>)" for f u P
    by (simp add: post_def set_conditional_def)
  have pl: "plain buf (Suc q) (Suc q)" "buf ! Suc q \<noteq> nul \<Longrightarrow> plain buf (Suc q) (Suc (Suc q))"
    by (auto simp: plain_def le_Suc_eq less_Suc_eq)
  note simps = switch_ch_def special_def pl std_home_ok
  consider (gt) "ch = CHR ''>''" | (lt) "ch = CHR ''<''"
    | (oror) "ch = CHR ''|''" "buf ! Suc q = CHR ''|''" | (pipe) "ch = CHR ''|''" "buf ! Suc q \<noteq> CHR ''|''"
    | (andand) "ch = CHR ''&''" "buf ! Suc q = CHR ''&''" | (amp) "ch = CHR ''&''" "buf ! Suc q \<noteq> CHR ''&''"
    | (fin) "ch = CHR ''#'' \<or> ch = nul \<or> ch = CHR 0x0A" | (semi) "ch = CHR '';''"
    | (other) "ch \<noteq> CHR ''>''" "ch \<noteq> CHR ''<''" "ch \<noteq> CHR ''|''" "ch \<noteq> CHR ''&''" "ch \<noteq> CHR ''#''"
        "ch \<noteq> nul" "ch \<noteq> CHR 0x0A" "ch \<noteq> CHR '';''"
    by satx
  then show ?thesis
  proof cases
    case gt
    then show ?thesis
      using redirect_out_post [OF assms(1), of buf q E args] assms(2,3) by (simp add: simps)
  next
    case lt
    then show ?thesis
      using redirect_in_post [OF assms(1), of buf q E args] assms(2,3) by (simp add: simps)
  next
    case oror
    then show ?thesis by (simp add: simps) (rule rr, simp add: std_home_ok)
  next
    case pipe
    have "post (run_pipe E (argv_of buf args)) s
        (\<lambda>r t. std_ok a b t \<and> plain buf (Suc q) (Suc q) \<and> free_slots (p_fds s) \<le> Suc (free_slots (p_fds t)))"
      by (rule post_mono [OF run_pipe_post [OF assms(1,2)]]) (simp add: pl)
    with pipe assms(1) show ?thesis by (simp add: simps)
  next
    case andand
    then show ?thesis by (simp add: simps) (rule rr, simp add: std_home_ok)
  next
    case fin
    then have "switch_ch E buf q args ch (buf ! Suc q) = seqn (run_and_reset E buf args) (retn None)"
      by (auto simp: switch_ch_def)
    then show ?thesis by simp (rule rr, simp)
  next
    case semi
    then show ?thesis by (simp add: simps) (rule rr, simp add: std_home_ok)
  qed (use assms(1) in \<open>simp_all add: simps\<close>)
qed

lemma pc_round_std:
  assumes "std_ok a b s" and "specials buf p + 3 \<le> free_slots (p_fds s)" and "terminated buf p"
    and "line \<le> p"
  shows "post (pc_round E buf p args) s (\<lambda>r t. case r of
       Round_return \<Rightarrow> std_home a b t
     | Round_next buf' q args' \<Rightarrow> std_ok a b t \<and> terminated buf' (advance line q) \<and> line \<le> q
         \<and> specials buf' (advance line q) + 3 \<le> free_slots (p_fds t))"
proof -
  let ?Q = "\<lambda>r t. case r of
       Round_return \<Rightarrow> std_home a b t
     | Round_next buf' q args' \<Rightarrow> std_ok a b t \<and> terminated buf' (advance line q) \<and> line \<le> q
         \<and> specials buf' (advance line q) + 3 \<le> free_slots (p_fds t)"
  obtain q word where q: "parseword buf p = Some (q, word)"
    using parseword_cases [OF assms(3)] by metis
  let ?buf = "buf[q := nul]"
  have pq: "plain buf p q" "line \<le> q" "q < length buf"
    using parseword_plain [OF assms(3) q] parseword_progress [OF q] assms(4) by (auto simp: plain_def)
  from plain_ahead [OF pq(1) assms(3)] have tq: "terminated buf q" "specials buf q \<le> specials buf p" by auto
  have "post (switch_ch E ?buf q args' (buf ! q) (buf ! Suc q)) s (\<lambda>r t. ?Q
      (case r of None \<Rightarrow> Round_return | Some (q', args'') \<Rightarrow> Round_next ?buf q' args'') t)" for args'
  proof (cases "buf ! q = nul")
    case True
    have "post (run_and_reset E ?buf args') s (\<lambda>_ t. std_home a b t)"
      by (rule post_mono [OF run_and_reset_post [OF assms(1)]]) simp
    with True show ?thesis by (simp add: switch_ch_def)
  next
    case False
    let ?sp = "if special (buf ! q) then 1 else 0 :: nat"
    have tS: "terminated ?buf (Suc q)" "specials ?buf (Suc q) + ?sp + 3 \<le> free_slots (p_fds s)"
      using terminated_step [OF tq(1) False] specials_take [OF tq(1) False] tq(2) assms(2) by auto
    have "?Q (Round_next ?buf q' args'') t"
      if "std_ok a b t" "plain ?buf (Suc q) (Suc q')" "free_slots (p_fds s) \<le> free_slots (p_fds t) + ?sp" for q' args'' t
    proof (cases "q' = line")
      case True
      then have "q' = q" using that(2) pq(2) by (simp add: plain_def)
      moreover have "terminated ?buf q \<and> specials ?buf q = 0"
        using pq(3) by (simp add: terminated_def specials_def str_at_def Cons_nth_drop_Suc [symmetric])
      ultimately show ?thesis using True that tS(2) by (simp add: advance_def)
    next
      case False
      have "line \<le> q'" using that(2) pq(2) by (simp add: plain_def)
      with False that tS plain_ahead [OF that(2) tS(1)] show ?thesis by (simp add: advance_def)
    qed
    then show ?thesis
      using switch_ch_std [OF assms(1), of "buf ! q" ?buf q E args'] tS assms(2)
      by (auto elim!: post_mono split: option.splits)
  qed
  then show ?thesis
    using q by (auto simp: pc_round_def push_arg_def split: option.splits)
qed

lemma pc_loop_std:
  assumes "std_ok a b s" and "specials buf p + 3 \<le> free_slots (p_fds s)" and "terminated buf p"
    and "line \<le> p" and "pc_loop E line buf p args s = (Ret (), t)"
  shows "std_home a b t"
  using assms
proof (induction E line buf p args s rule: pc_loop.induct)
  case (1 E line buf p args s)
  show ?case
  proof (cases "buf ! p = nul")
    case True
    with 1 have "seqn (run_and_reset E buf args) (retn ()) s = (Ret (), t)"
      using terminated_less [OF 1(4)] by (simp add: pc_loop.simps)
    moreover have "post (seqn (run_and_reset E buf args) (retn ())) s (\<lambda>_ t. std_home a b t)"
      using post_mono [OF run_and_reset_post [OF 1(2), of E buf args], of "\<lambda>_. std_home a b"] by simp
    ultimately show ?thesis by (rule postD [rotated])
  next
    case False
    let ?k = "\<lambda>r t. case r of Round_return \<Rightarrow> retn () t
             | Round_next b q args' \<Rightarrow> pc_loop E line b (advance line q) args' t"
    from 1 False have run: "bnd (pc_round E buf p args) ?k s = (Ret (), t)"
      using terminated_less [OF 1(4)] by (simp add: pc_loop.simps [of E line buf p])
    then obtain r u where u: "pc_round E buf p args s = (Ret r, u)" "?k r u = (Ret (), t)"
      by (auto simp: bnd_def split: prod.splits outcome.splits)
    note R = postD [OF pc_round_std [OF 1(2-5)] u(1)]
    show ?thesis
    proof (cases r)
      case Round_return
      with R u(2) show ?thesis by (simp add: retn_def)
    next
      case (Round_next b' q args')
      with R u(2) 1(1) [OF _ False u(1), of b' q args'] show ?thesis
        using terminated_less [OF 1(4)] by (auto simp: advance_def split: if_splits)
    qed
  qed
qed

section \<open>Properties\<close>



text \<open>C33: The two sides of a pipe are connected: with standard descriptors in place, the shell's
  side of \<open>run_pipe\<close> returns with its standard input replaced by the read end of the new pipe and
  its old standard input saved, while the child executes the command with the shell's standard
  input and the write end of the same pipe as its standard output.\<close>

theorem run_pipe_connects:
  assumes "std_home a b s" and "3 \<le> free_slots (p_fds s)" and "e_pipe E (p_clock s)"
    and "args \<noteq> []" and "hd args \<notin> {''cd'', ''exit'', ''status''}" and "conditional_run s"
  shows "(e_fork E (Suc (p_clock s)) > 0 \<longrightarrow>
      (\<exists>t. run_pipe E args s = (Ret (e_fork E (Suc (p_clock s))), t)
        \<and> fd_get (p_fds t) 0 = Some (Of_pipe_read (p_clock s)) \<and> fd_get (p_fds t) (inout0 t) = Some a
        \<and> fd_get (p_fds t) 1 = Some b))
    \<and> (e_fork E (Suc (p_clock s)) = 0 \<and> e_exec E (Suc (Suc (p_clock s))) args \<longrightarrow>
      (\<exists>t. run_pipe E args s = (Exec args, t)
        \<and> last (p_trace t) = Ev_exec args (Some a) (Some (Of_pipe_write (p_clock s)))))"
proof -
  have h: "std_ok a b s" "inout0 s = 0" "inout1 s = 1" using assms(1) by (auto simp: std_home_def)
  from sys_pipe_ok [OF h(1) assms(2,3)] obtain p0 p1 t
    where t: "sys_pipe E s = (Ret (Some (p0, p1)), t)" and p: "piped a b s p0 p1 t" by blast
  have rp: "run_pipe E args s = fork_command E args True p0 p1 t"
    using assms(4,6) t by (simp add: run_pipe_def run_command2_def bnd_def)
  let ?k = "p_clock s" let ?pid = "e_fork E (Suc ?k)"
  have tk: "p_clock t = Suc ?k" "inout1 t = 1" "inout0 t = 0" using p h by (auto simp: piped_def)
  let ?t = "t\<lparr>p_clock := Suc (Suc ?k), p_trace := p_trace t @ [Ev_fork ?pid]\<rparr>"
  have "\<exists>u. parent_branch E True p0 p1 ?pid ?t = (Ret (), u) \<and> std_ok a b u
     \<and> free_slots (p_fds ?t) < free_slots (p_fds u) \<and> fd_get (p_fds u) 0 = Some (Of_pipe_read ?k) \<and> inout1 u = 1"
    using p h assms(2) tk by (intro parent_pipe_ok [where y = "Of_pipe_write ?k"]) (auto simp: piped_def)
  then obtain u where u: "parent_branch E True p0 p1 ?pid ?t = (Ret (), u)" "std_ok a b u"
      "fd_get (p_fds u) 0 = Some (Of_pipe_read ?k)" "inout1 u = 1" by blast
  have parent: "fork_command E args True p0 p1 t = (Ret ?pid, u)" if "?pid > 0"
    using that u(1) tk by (simp add: fork_command_def sys_fork_def bnd_def retn_def Let_def)
  have f0: "fd_get (p_fds t) 0 = Some a" "0 \<le> p1" "nat p1 < length (p_fds t)" "2 \<le> length (p_fds t)"
      "fd_get (p_fds t) p1 = Some (Of_pipe_write ?k)" "2 \<le> p1"
    using p tk by (auto simp: piped_def std_ok_def fd_get_def split: if_splits)
  then have "fd_get ((p_fds t)[1 := Some (Of_pipe_write ?k), nat p1 := None]) 0 = Some a"
      "fd_get ((p_fds t)[1 := Some (Of_pipe_write ?k), nat p1 := None]) 1 = Some (Of_pipe_write ?k)"
    by (auto simp: fd_get_def nth_list_update split: if_splits)
  then have child: "\<exists>v. fork_command E args True p0 p1 t = (Exec args, v)
        \<and> last (p_trace v) = Ev_exec args (Some a) (Some (Of_pipe_write ?k))"
    if "?pid = 0" "e_exec E (Suc (Suc ?k)) args"
    using that tk f0 assms(4,5) p h
    by (simp add: fork_command_def child_branch_def run_builtin_cases act_defs Let_def fd_dup2_def fd_close_def
        fd_get_def [of _ p1] nth_list_update)
  from u(2,4) have "fd_get (p_fds u) (inout0 u) = Some a" "fd_get (p_fds u) 1 = Some b"
    by (auto simp: std_ok_def)
  with parent child u(3) rp show ?thesis by auto
qed

lemma sample_proc_home: "std_home (Of_std 0) (Of_std 1) sample_proc" "free_slots (p_fds sample_proc) = 6"
  by (simp_all add: std_home_def std_ok_def sample_proc_def fd_get_def free_slots_def)

theorem run_pipe_connects_witness:
  "(\<exists>t. run_pipe sample_env [''ls''] sample_proc = (Ret 7, t)
        \<and> fd_get (p_fds t) 0 = Some (Of_pipe_read 0) \<and> fd_get (p_fds t) (inout0 t) = Some (Of_std 0)
        \<and> fd_get (p_fds t) 1 = Some (Of_std 1))
   \<and> (\<exists>t. run_pipe (sample_env\<lparr>e_fork := \<lambda>n. 0\<rparr>) [''ls''] sample_proc = (Exec [''ls''], t)
        \<and> last (p_trace t) = Ev_exec [''ls''] (Some (Of_std 0)) (Some (Of_pipe_write 0)))"
  using run_pipe_connects [OF sample_proc_home(1), of sample_env "[''ls'']"]
    run_pipe_connects [OF sample_proc_home(1), of "sample_env\<lparr>e_fork := \<lambda>n. 0\<rparr>" "[''ls'']"]
  by (simp add: sample_proc_home(2)) (simp add: sample_env_def sample_proc_def)

section \<open>Background jobs\<close>

text \<open>A stretch of a line with no background mark: every ampersand is one of a pair.\<close>

fun foreground :: "string \<Rightarrow> bool" where
  "foreground [] = True"
| "foreground (c # cs) =
     (if c = CHR ''&'' then cs \<noteq> [] \<and> hd cs = CHR ''&'' \<and> foreground (tl cs) else c \<noteq> nul \<and> foreground cs)"

lemma process_loop_foreground:
  "foreground A \<Longrightarrow> Y \<noteq> [] \<Longrightarrow>
     process_loop E (X @ A @ Y) line (length X) = process_loop E (X @ A @ Y) line (length X + length A)"
proof (induction A arbitrary: X rule: foreground.induct)
  case (2 c cs)
  show ?case
  proof (cases "c = CHR ''&''")
    case True
    with 2(3) obtain ds where ds: "cs = CHR ''&'' # ds" "foreground ds" by (cases cs) auto
    have "process_loop E (X @ (c # cs) @ Y) line (length X) s
        = process_loop E ((X @ [c, CHR ''&'']) @ ds @ Y) line (length (X @ [c, CHR ''&''])) s" for s
      using True ds 2(4) by (subst process_loop.simps) (simp add: nth_append)
    with 2(1) [OF True, of "X @ [c, CHR ''&'']"] ds 2(4) show ?thesis by (auto simp: fun_eq_iff)
  next
    case False
    with 2(3) have cs: "c \<noteq> nul" "foreground cs" by auto
    have "process_loop E (X @ (c # cs) @ Y) line (length X) s
        = process_loop E ((X @ [c]) @ cs @ Y) line (length (X @ [c])) s" for s
      using False cs 2(4) by (subst process_loop.simps) (simp add: nth_append)
    with 2(2) [OF False, of "X @ [c]"] cs 2(4) show ?thesis by (auto simp: fun_eq_iff)
  qed
qed simp

text \<open>C34: \<open>process\<close> splits a line at its background marks.  On \<open>A & B\<close>, where \<open>A\<close> has no mark of its
  own, exactly one process is forked before anything else happens; the child runs \<open>A\<close> alone and
  exits with its status, while the shell goes on with \<open>B\<close> as if it were the whole line and does not
  wait for the child.  A failing fork ends the shell with status 1.\<close>

theorem process_splits_background:
  assumes "foreground A" and "Y \<noteq> []" and "hd Y \<noteq> CHR ''&''"
  shows "process_loop E (X @ A @ CHR ''&'' # Y) (length X) (length X)
     = bnd (sys_fork E) (\<lambda>childpid.
         if childpid = -1 then err1 ''Unable to fork.''
         else if childpid = 0 then
           seqn (process_command E (X @ A @ nul # Y) (length X)) (\<lambda>s. exit_with (p_error s) s)
         else process_loop E (X @ A @ nul # Y) (length X + length A + 1) (length X + length A + 1))"
proof (rule ext)
  fix s
  let ?p = "length X + length A" let ?buf = "X @ A @ CHR ''&'' # Y"
  have "?buf ! ?p = CHR ''&''" "?buf[?p := nul] = X @ A @ nul # Y" "?buf ! Suc ?p = hd Y" "Suc ?p < length ?buf"
    using assms(2) by (auto simp: nth_append list_update_append hd_conv_nth)
  then have "process_loop E ?buf (length X) ?p s
      = bnd (sys_fork E) (\<lambda>childpid.
         if childpid = -1 then err1 ''Unable to fork.''
         else if childpid = 0 then
           seqn (process_command E (X @ A @ nul # Y) (length X)) (\<lambda>s. exit_with (p_error s) s)
         else process_loop E (X @ A @ nul # Y) (?p + 1) (?p + 1)) s"
    using assms(3) by (subst process_loop.simps) (auto simp: bnd_def split: prod.splits outcome.splits)
  with process_loop_foreground [OF assms(1), of "CHR ''&'' # Y" E X "length X"]
  show "process_loop E ?buf (length X) (length X) s
      = bnd (sys_fork E) (\<lambda>childpid.
         if childpid = -1 then err1 ''Unable to fork.''
         else if childpid = 0 then
           seqn (process_command E (X @ A @ nul # Y) (length X)) (\<lambda>s. exit_with (p_error s) s)
         else process_loop E (X @ A @ nul # Y) (?p + 1) (?p + 1)) s"
    by simp
qed

theorem process_splits_background_witness:
  "\<forall>E. process_loop E (''a && b '' @ CHR ''&'' # '' c'' @ [nul]) 0 0
     = bnd (sys_fork E) (\<lambda>childpid.
         if childpid = -1 then err1 ''Unable to fork.''
         else if childpid = 0 then
           seqn (process_command E (''a && b '' @ nul # '' c'' @ [nul]) 0) (\<lambda>s. exit_with (p_error s) s)
         else process_loop E (''a && b '' @ nul # '' c'' @ [nul]) 8 8)"
proof
  fix E
  have "foreground ''a && b ''" by simp
  from process_splits_background [OF this, of "'' c'' @ [nul]" E "[]"]
  show "process_loop E (''a && b '' @ CHR ''&'' # '' c'' @ [nul]) 0 0
     = bnd (sys_fork E) (\<lambda>childpid.
         if childpid = -1 then err1 ''Unable to fork.''
         else if childpid = 0 then
           seqn (process_command E (''a && b '' @ nul # '' c'' @ [nul]) 0) (\<lambda>s. exit_with (p_error s) s)
         else process_loop E (''a && b '' @ nul # '' c'' @ [nul]) 8 8)"
    by (simp add: eval_nat_numeral cong: if_cong)
qed

section \<open>Exit status\<close>

text \<open>The shell's \<open>exit\<close> throws the status of the last command away.  \<open>error\<close> holds what
  \<open>waitpid\<close> reported, which for a command that exited with code \<open>c\<close> is \<open>256 * c\<close>, and \<open>exit\<close>
  passes on its low eight bits: the shell exits with 0 whatever \<open>c\<close> was.\<close>

theorem exit_loses_status:
  assumes "conditional_run s" and "p_error s = 256 * c"
  shows "fst (run_command E [''exit''] s) = Exit 0"
  using assms
  by (simp add: run_command_def run_command2_def run_builtin_cases builtin_exit_def act_defs)

theorem exit_loses_status_witness:
  "\<forall>E. fst (run_command E [''exit''] (sample_proc\<lparr>p_error := 256 * 1\<rparr>)) = Exit 0"
  by (intro allI exit_loses_status [where c = 1]) (simp_all add: sample_proc_def)

text \<open>A redirection without a file name (the next character after optional blanks is again a
  delimiter, or the line ends) makes the shell read a string through a null pointer: \<open>strlen(word)\<close>
  with the null that \<open>parseword\<close> returned.\<close>

theorem redirect_without_name_crashes:
  assumes "drop (Suc p) buf = sp @ d # rest" and "list_all isspace sp" and "isdelim d" and "\<not> isspace d"
    and "ch = CHR ''>'' \<or> ch = CHR ''<''"
  shows "switch_ch E buf p args ch ch2 s = (Crash Null_deref, s)"
proof -
  have "parseword buf (Suc p) = Some (Suc p + length sp, None)"
    using parseword_split [of "Suc p" buf sp "[]" d rest] assms(1-4) by simp
  with assms(5) show ?thesis
    by (auto simp: switch_ch_def redirect_out_def redirect_in_def redirect_name_def bnd_def crash_def)
qed

theorem redirect_without_name_crashes_witness:
  "\<forall>E ch2 s. switch_ch E (''ls'' @ [nul] @ ''  ;x'' @ [nul]) 2 [0] (CHR ''>'') ch2 s = (Crash Null_deref, s)"
  by (intro allI redirect_without_name_crashes [where sp = "''  ''" and d = "CHR '';''" and rest = "''x'' @ [nul]"])
     (simp_all add: isspace_def isdelim_def)

end
