(* ===== verification/Shell_Trace.thy ===== *)
theory Shell_Trace
  imports Shell_Stdio
begin

text \<open>
  Every operation of the shell respects every relation that the system calls respect (the locale
  \<open>act_rel\<close>); for the relation \<open>grows\<close>: what the process has done is never undone.
\<close>

context act_rel
begin

lemma keeps_statics:
  "keeps (set_error e)" "keeps (set_inout0 fd)" "keeps (set_inout1 fd)" "keeps (set_conditional f)"
  "keeps (getcwdmode E)"
  by (simp_all add: keeps_def set_error_def set_inout0_def set_inout1_def set_conditional_def getcwdmode_def
      R_error R_inout0 R_inout1 R_cond R_clock)

lemma keeps_init: "keeps init_command"
proof -
  have "R s (s\<lparr>inout0 := 0, inout1 := 1, conditional_run := True\<rparr>)" for s
    by (rule R_trans [OF R_inout0], rule R_trans [OF R_inout1], rule R_cond)
  then show ?thesis by (simp add: keeps_def init_command_def)
qed

lemma keeps_ifte: "keeps m \<Longrightarrow> keeps n \<Longrightarrow> keeps (\<lambda>s. if b s then m s else n s)"
  by (simp add: keeps_def)

lemma keeps_of_state: "(\<And>x. keeps (m x)) \<Longrightarrow> keeps (\<lambda>s. m (f s) s)"
  by (simp add: keeps_def)

lemma keeps_exit_state: "keeps (\<lambda>s. exit_with (f s) s)"
  by (rule keeps_of_state) (rule keeps_exit)

lemma keeps_builtins: "keeps (run_builtin E args)"
proof -
  have "keeps (builtin_exit n args)" for n
    unfolding builtin_exit_def [abs_def] by (rule keeps_exit_state)
  moreover have "keeps (builtin_status n args)" for n
    unfolding builtin_status_def [abs_def]
    by (rule keeps_of_state [of "\<lambda>e. seqn (printf (show_int e @ [CHR 0x0A])) (retn 0)"]) (intro keeps_intros)
  moreover have "keeps (builtin_cd E n args)" for n
    unfolding builtin_cd_def by (auto intro!: keeps_intros)
  ultimately show ?thesis
    unfolding run_builtin_cases by (auto intro!: keeps_intros keeps_statics)
qed

lemma keeps_restore: "keeps restore_std"
proof -
  have "keeps restore_stdout"
    unfolding restore_stdout_def [abs_def] retn_def [of "()", symmetric]
    by (rule keeps_ifte, rule keeps_of_state [of "\<lambda>i. seqn (sys_dup2 i 1) (seqn (sys_close i) (set_inout1 1))"])
       (intro keeps_intros keeps_statics)+
  moreover have "keeps restore_stdin"
    unfolding restore_stdin_def [abs_def] retn_def [of "()", symmetric]
    by (rule keeps_ifte, rule keeps_of_state [of "\<lambda>i. seqn (sys_dup2 i 0) (seqn (sys_close i) (set_inout0 0))"])
       (intro keeps_intros keeps_statics)+
  ultimately show ?thesis unfolding restore_std_def by (intro keeps_intros)
qed

lemma keeps_child: "keeps (child_branch E args pe p)"
proof -
  have "keeps (\<lambda>s. whn (pe \<and> inout1 s = 1)
     (seqn fflush_stdout (seqn (sys_dup2 p 1) (seqn (sys_close p) (retn ())))) s)"
    by (rule keeps_of_state [of "\<lambda>i. whn (pe \<and> i = 1)
     (seqn fflush_stdout (seqn (sys_dup2 p 1) (seqn (sys_close p) (retn ()))))"]) (intro keeps_intros)
  then show ?thesis
    unfolding child_branch_def by (auto intro!: keeps_intros keeps_exit_state keeps_restore keeps_statics keeps_builtins)
qed

lemma keeps_parent: "keeps (parent_branch E pe p0 p1 pid)"
proof -
  have "keeps (\<lambda>s. bnd (sys_dup (inout0 s)) (\<lambda>fd. seqn (sys_close (inout0 s)) (seqn (set_inout0 fd)
             (seqn (sys_dup2 p0 0) (seqn (sys_close p0) (seqn (sys_close p1) (retn ())))))) s)"
    by (rule keeps_of_state [of "\<lambda>i. bnd (sys_dup i) (\<lambda>fd. seqn (sys_close i) (seqn (set_inout0 fd)
             (seqn (sys_dup2 p0 0) (seqn (sys_close p0) (seqn (sys_close p1) (retn ()))))))"])
       (intro keeps_intros keeps_statics)
  then show ?thesis unfolding parent_branch_def by (auto intro!: keeps_intros keeps_restore)
qed

lemma keeps_fork: "keeps (fork_command E args pe p0 p1)"
  unfolding fork_command_def by (auto intro!: keeps_intros keeps_child keeps_parent)

lemma keeps_run2: "keeps (run_command2 E args pe)"
  unfolding run_command2_def [abs_def]
  by (intro keeps_ifte keeps_intros keeps_restore)
     (cases pe, auto intro!: keeps_intros keeps_fork keeps_statics keeps_builtins keeps_restore split: option.splits)

lemma keeps_run: "keeps (run_command E args)" "keeps (run_pipe E args)" "keeps (run_and_reset E buf as)"
  unfolding run_command_def run_pipe_def run_and_reset_def run_command_def
  by (auto intro!: keeps_intros keeps_run2)

lemma keeps_redirect: "keeps (redirect_out E buf p args)" "keeps (redirect_in E buf p args)"
proof -
  have n: "keeps (redirect_name buf p)"
    by (auto simp: redirect_name_def intro!: keeps_intros split: option.splits)
  have "keeps (\<lambda>s. bnd (sys_dup (inout1 s)) set_inout1 s)" "keeps (\<lambda>s. bnd (sys_dup (inout0 s)) set_inout0 s)"
    by (rule keeps_of_state [of "\<lambda>i. bnd (sys_dup i) set_inout1"], intro keeps_intros keeps_statics)
       (rule keeps_of_state [of "\<lambda>i. bnd (sys_dup i) set_inout0"], intro keeps_intros keeps_statics)
  with n show "keeps (redirect_out E buf p args)" "keeps (redirect_in E buf p args)"
    unfolding redirect_out_def redirect_in_def
    by (auto intro!: keeps_intros keeps_statics split: prod.splits)
qed

lemma keeps_round: "keeps (pc_round E buf p args)"
proof -
  have "keeps (switch_ch E b q as ch ch2)" for b q as ch ch2
    unfolding switch_ch_def by (auto intro!: keeps_intros keeps_statics keeps_redirect keeps_run)
  moreover have "keeps (push_arg args w)" for w
    unfolding push_arg_def by (auto intro!: keeps_intros split: option.splits)
  ultimately show ?thesis
    unfolding pc_round_def by (auto intro!: keeps_intros split: option.splits)
qed

lemma keeps_bnd_at:
  "m s = (r, t) \<Longrightarrow> R s t \<Longrightarrow> (\<And>a u. m s = (Ret a, u) \<Longrightarrow> R u (snd (f a u))) \<Longrightarrow> R s (snd (bnd m f s))"
  by (auto simp: bnd_def split: outcome.splits intro: R_trans)

lemma keeps_pc_loop: "R s (snd (pc_loop E line buf p args s))"
proof (induction E line buf p args s rule: pc_loop.induct)
  case (1 E line buf p args s)
  obtain r t where rt: "pc_round E buf p args s = (r, t)" by (cases "pc_round E buf p args s")
  note R = keepsD [OF keeps_round rt]
  have "keeps (seqn (run_and_reset E buf args) (retn ()))" by (intro keeps_intros keeps_run)
  then have fin: "R s (snd (seqn (run_and_reset E buf args) (retn ()) s))" by (simp add: keeps_def)
  have more: "R s (snd (bnd (pc_round E buf p args) (\<lambda>r t. case r of Round_return \<Rightarrow> retn () t
      | Round_next b q args' \<Rightarrow> pc_loop E line b (advance line q) args' t) s))"
    if "\<not> length buf \<le> p" "buf ! p \<noteq> nul"
  proof (rule keeps_bnd_at [of "pc_round E buf p args" s, OF rt R])
    fix a u assume "pc_round E buf p args s = (Ret a, u)"
    then show "R u (snd ((case a of Round_return \<Rightarrow> retn () u
      | Round_next b q args' \<Rightarrow> pc_loop E line b (advance line q) args' u)))"
      using 1 [OF that] by (cases a) (auto simp: retn_def R_refl)
  qed
  show ?case
    using fin more by (subst pc_loop.simps) (simp add: crash_def R_refl)
qed

lemma keeps_process_command: "keeps (process_command E buf line)"
  unfolding process_command_def
  by (rule keeps_bnd [OF keeps_init]) (simp add: keeps_def keeps_pc_loop)

lemma keeps_process_loop: "R s (snd (process_loop E buf line p s))"
proof (induction E buf line p s rule: process_loop.induct)
  case (1 E buf line p s)
  obtain r t where rt: "sys_fork E s = (r, t)" by (cases "sys_fork E s")
  note R = keepsD [OF keeps_world(1) rt]
  have pc: "R s (snd (process_command E b l s))" for s b l
    using keeps_process_command by (simp add: keeps_def)
  have child: "R u (snd (seqn (process_command E b l) (\<lambda>s. exit_with (p_error s) s :: unit outcome \<times> proc) u))" for u b l
  proof -
    have "keeps (seqn (process_command E b l) (\<lambda>s. exit_with (p_error s) s :: unit outcome \<times> proc))"
      by (rule keeps_bnd [OF keeps_process_command keeps_exit_state])
    then show ?thesis by (simp add: keeps_def)
  qed
  have "keeps (err1 msg :: unit act)" for msg by (rule keeps_warn(2))
  then have err: "R u (snd (err1 msg u :: unit outcome \<times> proc))" for u msg by (simp add: keeps_def)
  show ?case
    using 1 R R_refl pc child err
    by (subst process_loop.simps) (auto simp: crash_def intro!: keeps_bnd_at [of "sys_fork E" s, OF rt R])
qed

end

section \<open>Properties\<close>

text \<open>Interpreting any line, the shell only adds to what it has done: the history of its
  forks, executions, waits, writes and messages is extended, the answers of the system are used in
  order, and the descriptor table keeps its size; this holds whether the process returns, exits,
  executes another program or crashes.\<close>

theorem process_history_grows: "grows s (snd (process E buf s))"
  unfolding process_def by (rule grows.keeps_process_loop)

end
