(* ===== verification/Sched_State.thy ===== *)
theory Sched_State
  imports Os_Prelude "HOL-Library.Monad_Syntax"
begin

text \<open>
  The state that the scheduler of \<open>task2_scheduler/linux-3.8.3\<close> works on: tasks
  (\<open>struct task_struct\<close>), the one run queue (\<open>struct rq\<close>) of a kernel built without \<open>CONFIG_SMP\<close>
  and without group scheduling, and the helpers of \<open>include/linux/sched.h\<close> and
  \<open>kernel/sched/sched.h\<close> on priorities, policies and flags.

  A pointer to a task is a number, and \<open>task_of\<close> maps it to the contents of the structure.  Links of
  kernel lists live in the component \<open>links\<close> of the state, whose type the model leaves open: the list
  operations are the parameter \<open>list_ops\<close> of the theory on kernel lists.  What the classes that are
  not modelled here own (the real-time, stop and idle classes) is \<open>others\<close>, also of an open type.

  An operation of the scheduler is a function on this state that returns \<open>None\<close> where the code
  would run into undefined behaviour (an index outside an array) or \<open>BUG()\<close>.
\<close>

section \<open>Constants\<close>

definition MAX_RT_PRIO :: int where "MAX_RT_PRIO = 100"
definition MAX_PRIO :: int where "MAX_PRIO = MAX_RT_PRIO + 40"
definition DEFAULT_PRIO :: int where "DEFAULT_PRIO = MAX_RT_PRIO + 20"
definition MIN_DUMMY_PRIO :: int where "MIN_DUMMY_PRIO = MAX_RT_PRIO + 35"

text \<open>Policies and task states as the user-space interface numbers them.\<close>

definition SCHED_NORMAL :: int where "SCHED_NORMAL = 0"
definition SCHED_FIFO :: int where "SCHED_FIFO = 1"
definition SCHED_RR :: int where "SCHED_RR = 2"
definition SCHED_BATCH :: int where "SCHED_BATCH = 3"
definition SCHED_IDLE :: int where "SCHED_IDLE = 5"
definition SCHED_RESET_ON_FORK :: int where "SCHED_RESET_ON_FORK = 0x40000000"

definition TASK_RUNNING :: u64 where "TASK_RUNNING = 0"
definition TASK_INTERRUPTIBLE :: u64 where "TASK_INTERRUPTIBLE = 1"
definition TASK_UNINTERRUPTIBLE :: u64 where "TASK_UNINTERRUPTIBLE = 2"
definition TASK_WAKEKILL :: u64 where "TASK_WAKEKILL = 128"
definition TASK_NORMAL :: u64 where "TASK_NORMAL = TASK_INTERRUPTIBLE OR TASK_UNINTERRUPTIBLE"

definition PF_WQ_WORKER :: u32 where "PF_WQ_WORKER = 0x20"
definition PF_FROZEN :: u32 where "PF_FROZEN = 0x10000"

definition ENQUEUE_WAKEUP :: int where "ENQUEUE_WAKEUP = 1"
definition ENQUEUE_HEAD :: int where "ENQUEUE_HEAD = 2"
definition ENQUEUE_WAKING :: int where "ENQUEUE_WAKING = 0"
definition DEQUEUE_SLEEP :: int where "DEQUEUE_SLEEP = 1"
definition WF_FORK :: int where "WF_FORK = 2"

lemmas prio_consts = MAX_RT_PRIO_def MAX_PRIO_def DEFAULT_PRIO_def MIN_DUMMY_PRIO_def
lemmas policy_consts = SCHED_NORMAL_def SCHED_FIFO_def SCHED_RR_def SCHED_BATCH_def SCHED_IDLE_def
  SCHED_RESET_ON_FORK_def

section \<open>Records\<close>

datatype class_id = Stop_class | Rt_class | Fair_class | Dummy_class | Idle_class

record load_weight =
  weight :: u64
  inv_weight :: u64

record sched_entity =
  se_load :: load_weight
  se_on_rq :: bool
  exec_start :: u64
  sum_exec_runtime :: u64
  vruntime :: u64
  prev_sum_exec_runtime :: u64
  nr_migrations :: u64

text \<open>
  The fields of \<open>struct task_struct\<close> that the modelled code reads or writes.  \<open>has_mm\<close> stands for
  \<open>mm != NULL\<close>; \<open>need_resched\<close>, \<open>sigpending\<close> and \<open>killed\<close> for \<open>TIF_NEED_RESCHED\<close>, \<open>TIF_SIGPENDING\<close>
  and \<open>SIGKILL\<close> in the pending set.
\<close>

record task =
  tstate :: u64
  tflags :: u32
  on_rq :: bool
  prio :: int
  static_prio :: int
  normal_prio :: int
  rt_priority :: u32
  sched_class :: class_id
  se :: sched_entity
  dummy_age_tick :: u32
  policy :: int
  sched_reset_on_fork :: bool
  has_mm :: bool
  need_resched :: bool
  sigpending :: bool
  killed :: bool
  nvcsw :: u64
  nivcsw :: u64

text \<open>\<open>struct cfs_rq\<close> without group scheduling; \<open>'r\<close> is the red-black tree's store.\<close>

record 'r cfs_rq =
  cfs_load :: load_weight
  cfs_nr_running :: u32
  h_nr_running :: u32
  min_vruntime :: u64
  tasks_timeline :: 'r
  rb_leftmost :: "nat option"
  cfs_curr :: "nat option"
  cfs_next :: "nat option"
  cfs_last :: "nat option"
  cfs_skip :: "nat option"

text \<open>The tunables of \<open>fair.c\<close>.\<close>

record tunables =
  sched_latency :: u32
  min_granularity :: u32
  wakeup_granularity :: u32
  normalized_latency :: u32
  normalized_min_granularity :: u32
  normalized_wakeup_granularity :: u32
  sched_nr_latency :: u32
  child_runs_first :: u32
  tunable_scaling :: int

text \<open>The load accounting of a run queue, and the global load average (\<open>long\<close> values as words).\<close>

record rq_load_acct =
  cpu_load :: "u64 list"
  last_load_update_tick :: u64
  nr_load_updates :: u64
  rq_calc_load_update :: u64
  calc_load_active :: u64

record load_glob =
  calc_load_tasks :: u64
  calc_load_update :: u64
  avenrun :: "u64 list"
  calc_load_idle :: "u64 list"
  calc_load_idx :: u32

record ('h, 'r, 'x) sched =
  task_of :: "nat \<Rightarrow> task"
  rq_curr :: nat
  rq_idle :: nat
  rq_stop :: "nat option"
  nr_running :: u32
  nr_uninterruptible :: u64
  nr_switches :: u64
  rq_clock :: u64
  clock_task :: u64
  skip_clock_update :: int
  rq_load :: load_weight
  cfs :: "'r cfs_rq"
  rq_acct :: rq_load_acct
  dummy_timeslice :: u32
  links :: 'h
  loadavg :: load_glob
  jiffies :: u64
  tun :: tunables
  sysctl_timeslice :: u32
  sysctl_age_threshold :: u32
  others :: 'x

definition upd_task :: "nat \<Rightarrow> (task \<Rightarrow> task) \<Rightarrow> ('h, 'r, 'x) sched \<Rightarrow> ('h, 'r, 'x) sched" where
  "upd_task p f s = s\<lparr>task_of := (task_of s)(p := f (task_of s p))\<rparr>"

lemma task_of_upd_task [simp]:
  "task_of (upd_task p f s) q = (if q = p then f (task_of s p) else task_of s q)"
  by (simp add: upd_task_def)

lemma upd_task_frame [simp]:
  "rq_curr (upd_task p f s) = rq_curr s" "rq_idle (upd_task p f s) = rq_idle s"
  "rq_stop (upd_task p f s) = rq_stop s"
  "nr_running (upd_task p f s) = nr_running s" "links (upd_task p f s) = links s"
  "dummy_timeslice (upd_task p f s) = dummy_timeslice s" "others (upd_task p f s) = others s"
  "sysctl_timeslice (upd_task p f s) = sysctl_timeslice s"
  "sysctl_age_threshold (upd_task p f s) = sysctl_age_threshold s"
  "skip_clock_update (upd_task p f s) = skip_clock_update s"
  "rq_clock (upd_task p f s) = rq_clock s" "clock_task (upd_task p f s) = clock_task s"
  "cfs (upd_task p f s) = cfs s" "tun (upd_task p f s) = tun s" "rq_load (upd_task p f s) = rq_load s"
  "rq_acct (upd_task p f s) = rq_acct s" "loadavg (upd_task p f s) = loadavg s"
  "jiffies (upd_task p f s) = jiffies s" "nr_uninterruptible (upd_task p f s) = nr_uninterruptible s"
  by (simp_all add: upd_task_def)

section \<open>Priorities and policies\<close>

definition NICE_TO_PRIO :: "int \<Rightarrow> int" where
  "NICE_TO_PRIO nice = MAX_RT_PRIO + nice + 20"

definition PRIO_TO_NICE :: "int \<Rightarrow> int" where
  "PRIO_TO_NICE pr = pr - MAX_RT_PRIO - 20"

definition TASK_NICE :: "task \<Rightarrow> int" where
  "TASK_NICE p = PRIO_TO_NICE (static_prio p)"

definition rt_prio :: "int \<Rightarrow> bool" where
  "rt_prio pr \<longleftrightarrow> pr < MAX_RT_PRIO"

definition rt_task :: "task \<Rightarrow> bool" where
  "rt_task p \<longleftrightarrow> rt_prio (prio p)"

definition dummy_prio :: "int \<Rightarrow> bool" where
  "dummy_prio pr \<longleftrightarrow> pr \<ge> MIN_DUMMY_PRIO"

definition dummy_task :: "task \<Rightarrow> bool" where
  "dummy_task p \<longleftrightarrow> dummy_prio (prio p)"

definition rt_policy :: "int \<Rightarrow> bool" where
  "rt_policy pol \<longleftrightarrow> pol = SCHED_FIFO \<or> pol = SCHED_RR"

definition task_has_rt_policy :: "task \<Rightarrow> bool" where
  "task_has_rt_policy p \<longleftrightarrow> rt_policy (policy p)"

section \<open>Flags and counters\<close>

definition task_contributes_to_load :: "task \<Rightarrow> bool" where
  "task_contributes_to_load p \<longleftrightarrow>
     tstate p AND TASK_UNINTERRUPTIBLE \<noteq> 0 \<and> tflags p AND PF_FROZEN = 0"

definition signal_pending_state :: "u64 \<Rightarrow> task \<Rightarrow> bool" where
  "signal_pending_state st p \<longleftrightarrow>
     (if st AND (TASK_INTERRUPTIBLE OR TASK_WAKEKILL) = 0 then False
      else if \<not> sigpending p then False
      else st AND TASK_INTERRUPTIBLE \<noteq> 0 \<or> killed p)"

definition set_tsk_need_resched :: "nat \<Rightarrow> ('h, 'r, 'x) sched \<Rightarrow> ('h, 'r, 'x) sched" where
  "set_tsk_need_resched p = upd_task p (need_resched_update (\<lambda>_. True))"

definition clear_tsk_need_resched :: "nat \<Rightarrow> ('h, 'r, 'x) sched \<Rightarrow> ('h, 'r, 'x) sched" where
  "clear_tsk_need_resched p = upd_task p (need_resched_update (\<lambda>_. False))"

definition resched_task :: "nat \<Rightarrow> ('h, 'r, 'x) sched \<Rightarrow> ('h, 'r, 'x) sched" where
  "resched_task p = set_tsk_need_resched p"

definition inc_nr_running :: "('h, 'r, 'x) sched \<Rightarrow> ('h, 'r, 'x) sched" where
  "inc_nr_running s = s\<lparr>nr_running := nr_running s + 1\<rparr>"

definition dec_nr_running :: "('h, 'r, 'x) sched \<Rightarrow> ('h, 'r, 'x) sched" where
  "dec_nr_running s = s\<lparr>nr_running := nr_running s - 1\<rparr>"

lemmas flag_defs = set_tsk_need_resched_def clear_tsk_need_resched_def resched_task_def
  inc_nr_running_def dec_nr_running_def

end
