(* ===== verification/Sched_Weight.thy ===== *)
theory Sched_Weight
  imports Sched_State
begin

text \<open>
  Load weights: the tables of \<open>kernel/sched/sched.h\<close> and the fixed-point arithmetic of
  \<open>kernel/sched/fair.c\<close>, for a kernel with 64-bit longs.
\<close>

section \<open>Tables\<close>

definition prio_to_weight :: "u64 list" where
  "prio_to_weight =
    [88761, 71755, 56483, 46273, 36291,
     29154, 23254, 18705, 14949, 11916,
     9548, 7620, 6100, 4904, 3906,
     3121, 2501, 1991, 1586, 1277,
     1024, 820, 655, 526, 423,
     335, 272, 215, 172, 137,
     110, 87, 70, 56, 45,
     36, 29, 23, 18, 15]"

definition prio_to_wmult :: "u64 list" where
  "prio_to_wmult =
    [48388, 59856, 76040, 92818, 118348,
     147320, 184698, 229616, 287308, 360437,
     449829, 563644, 704093, 875809, 1099582,
     1376151, 1717300, 2157191, 2708050, 3363326,
     4194304, 5237765, 6557202, 8165337, 10153587,
     12820798, 15790321, 19976592, 24970740, 31350126,
     39045157, 49367440, 61356676, 76695844, 95443717,
     119304647, 148102320, 186737708, 238609294, 286331153]"

definition WEIGHT_IDLEPRIO :: u64 where "WEIGHT_IDLEPRIO = 3"
definition WMULT_IDLEPRIO :: u64 where "WMULT_IDLEPRIO = 1431655765"
definition NICE_0_LOAD :: u64 where "NICE_0_LOAD = 1024"

text \<open>\<open>SCHED_LOAD_RESOLUTION\<close> is 0, so both scalings are the identity.\<close>

definition scale_load :: "u64 \<Rightarrow> u64" where "scale_load w = w"
definition scale_load_down :: "u64 \<Rightarrow> u64" where "scale_load_down w = w"

section \<open>Updating weights\<close>

definition update_load_add :: "u64 \<Rightarrow> load_weight \<Rightarrow> load_weight" where
  "update_load_add inc lw = lw\<lparr>weight := weight lw + inc, inv_weight := 0\<rparr>"

definition update_load_sub :: "u64 \<Rightarrow> load_weight \<Rightarrow> load_weight" where
  "update_load_sub dec lw = lw\<lparr>weight := weight lw - dec, inv_weight := 0\<rparr>"

definition update_load_set :: "u64 \<Rightarrow> load_weight \<Rightarrow> load_weight" where
  "update_load_set w lw = lw\<lparr>weight := w, inv_weight := 0\<rparr>"

definition upd_se :: "nat \<Rightarrow> (sched_entity \<Rightarrow> sched_entity) \<Rightarrow> ('h, 'r, 'x) sched \<Rightarrow> ('h, 'r, 'x) sched" where
  "upd_se p f = upd_task p (se_update f)"

abbreviation se_of :: "('h, 'r, 'x) sched \<Rightarrow> nat \<Rightarrow> sched_entity" where
  "se_of s p \<equiv> se (task_of s p)"

text \<open>\<open>None\<close> where the static priority is no index of the tables.\<close>

definition load_weight_of :: "task \<Rightarrow> load_weight option" where
  "load_weight_of t =
     (let pr = static_prio t - MAX_RT_PRIO in
      if policy t = SCHED_IDLE then
        Some \<lparr>weight = scale_load WEIGHT_IDLEPRIO, inv_weight = WMULT_IDLEPRIO\<rparr>
      else if 0 \<le> pr \<and> pr < 40 then
        Some \<lparr>weight = scale_load (prio_to_weight ! nat pr), inv_weight = prio_to_wmult ! nat pr\<rparr>
      else None)"

definition set_load_weight :: "nat \<Rightarrow> ('h, 'r, 'x) sched \<Rightarrow> ('h, 'r, 'x) sched option" where
  "set_load_weight p s =
     do { lw \<leftarrow> load_weight_of (task_of s p);
          Some (upd_se p (se_load_update (\<lambda>_. lw)) s) }"

section \<open>Scaled time\<close>

definition WMULT_CONST :: u64 where "WMULT_CONST = 2 ^ 32"
definition WMULT_SHIFT :: nat where "WMULT_SHIFT = 32"
definition LONG_MAX :: u64 where "LONG_MAX = 2 ^ 63 - 1"

definition SRR :: "u64 \<Rightarrow> nat \<Rightarrow> u64" where
  "SRR x y = drop_bit y (x + push_bit (y - 1) 1)"

text \<open>The inverse is computed once and kept in the weight.\<close>

definition inv_cached :: "load_weight \<Rightarrow> load_weight" where
  "inv_cached lw =
     (if inv_weight lw = 0 then
        let w = scale_load_down (weight lw) in
        lw\<lparr>inv_weight := (if w \<ge> WMULT_CONST then 1 else if w = 0 then WMULT_CONST else WMULT_CONST div w)\<rparr>
      else lw)"

definition calc_delta_mine :: "u64 \<Rightarrow> u64 \<Rightarrow> load_weight \<Rightarrow> u64 \<times> load_weight" where
  "calc_delta_mine delta_exec wt lw =
     (let tmp = (if wt > 1 then delta_exec * scale_load_down wt else delta_exec);
          lw1 = inv_cached lw;
          tmp1 = (if tmp > WMULT_CONST
                  then SRR (SRR tmp (WMULT_SHIFT div 2) * inv_weight lw1) (WMULT_SHIFT div 2)
                  else SRR (tmp * inv_weight lw1) WMULT_SHIFT)
      in (min tmp1 LONG_MAX, lw1))"

end
