(* ===== verification/Sched_Klist.thy ===== *)
theory Sched_Klist
  imports Main
begin

text \<open>
  The interface of the kernel's doubly linked lists (\<open>linux/list.h\<close>, which is not part of the
  repository).  A list head is a number (the index of a queue), a list node a number (the task whose
  \<open>run_list\<close> it is), and the pointers behind them a value of an open type \<open>'h\<close>.  The operations are
  the record \<open>list_ops\<close>; what they are documented to do is the locale \<open>klist\<close>, in terms of
  \<open>l_each L q h\<close>, the entries that \<open>list_for_each_safe\<close> visits from head \<open>q\<close>, in order.

  \<open>ok Q h\<close>: in \<open>h\<close> the heads in \<open>Q\<close> have been initialised and each node is on at most one of
  their lists, once.
\<close>

record 'h list_ops =
  l_init :: "nat \<Rightarrow> 'h \<Rightarrow> 'h"
  l_add_tail :: "nat \<Rightarrow> nat \<Rightarrow> 'h \<Rightarrow> 'h"
  l_del_init :: "nat \<Rightarrow> 'h \<Rightarrow> 'h"
  l_move_tail :: "nat \<Rightarrow> nat \<Rightarrow> 'h \<Rightarrow> 'h"
  l_empty :: "nat \<Rightarrow> 'h \<Rightarrow> bool"
  l_first :: "nat \<Rightarrow> 'h \<Rightarrow> nat"
  l_each :: "nat \<Rightarrow> 'h \<Rightarrow> nat list"

locale klist =
  fixes L :: "'h list_ops"
    and ok :: "nat set \<Rightarrow> 'h \<Rightarrow> bool"
  assumes wf_none: "ok {} h"
    and wf_distinct: "ok Q h \<Longrightarrow> q \<in> Q \<Longrightarrow> distinct (l_each L q h)"
    and wf_disjoint: "ok Q h \<Longrightarrow> q \<in> Q \<Longrightarrow> r \<in> Q \<Longrightarrow> n \<in> set (l_each L q h) \<Longrightarrow> n \<in> set (l_each L r h) \<Longrightarrow> q = r"
    and wf_init: "ok Q h \<Longrightarrow> ok (insert q Q) (l_init L q h)"
    and each_init: "ok Q h \<Longrightarrow> r \<in> insert q Q \<Longrightarrow>
      l_each L r (l_init L q h) = (if r = q then [] else l_each L r h)"
    and wf_add: "ok Q h \<Longrightarrow> q \<in> Q \<Longrightarrow> \<forall>r\<in>Q. n \<notin> set (l_each L r h) \<Longrightarrow> ok Q (l_add_tail L n q h)"
    and each_add: "ok Q h \<Longrightarrow> q \<in> Q \<Longrightarrow> r \<in> Q \<Longrightarrow> \<forall>r\<in>Q. n \<notin> set (l_each L r h) \<Longrightarrow>
      l_each L r (l_add_tail L n q h) = (if r = q then l_each L q h @ [n] else l_each L r h)"
    and wf_del: "ok Q h \<Longrightarrow> ok Q (l_del_init L n h)"
    and each_del: "ok Q h \<Longrightarrow> r \<in> Q \<Longrightarrow> l_each L r (l_del_init L n h) = removeAll n (l_each L r h)"
    and wf_move: "ok Q h \<Longrightarrow> q \<in> Q \<Longrightarrow> ok Q (l_move_tail L n q h)"
    and each_move: "ok Q h \<Longrightarrow> q \<in> Q \<Longrightarrow> r \<in> Q \<Longrightarrow>
      l_each L r (l_move_tail L n q h) = removeAll n (l_each L r h) @ (if r = q then [n] else [])"
    and empty_iff: "ok Q h \<Longrightarrow> q \<in> Q \<Longrightarrow> l_empty L q h \<longleftrightarrow> l_each L q h = []"
    and first_hd: "ok Q h \<Longrightarrow> q \<in> Q \<Longrightarrow> l_each L q h \<noteq> [] \<Longrightarrow> l_first L q h = hd (l_each L q h)"
begin

text \<open>\<open>list_move_tail\<close> is \<open>list_del\<close> followed by \<open>list_add_tail\<close>, seen from the lists.\<close>

lemma each_move_del_add:
  assumes "ok Q h" "q \<in> Q" "r \<in> Q"
  shows "l_each L r (l_move_tail L n q h) = l_each L r (l_add_tail L n q (l_del_init L n h))"
  using assms by (simp add: each_move [where Q = Q] each_add [where Q = Q] each_del [where Q = Q] wf_del)

lemma in_some_queue_del:
  assumes "ok Q h" "q \<in> Q"
  shows "set (l_each L q (l_del_init L n h)) = set (l_each L q h) - {n}"
  using assms by (simp add: each_del)

end

section \<open>A list store\<close>

text \<open>
  An executable provider of the interface, in which the store is the list of the lists' contents.
\<close>

definition seq_ops :: "(nat \<Rightarrow> nat list) list_ops" where
  "seq_ops = \<lparr>l_init = \<lambda>q h. h(q := []),
     l_add_tail = \<lambda>n q h. h(q := h q @ [n]),
     l_del_init = \<lambda>n h r. removeAll n (h r),
     l_move_tail = \<lambda>n q h r. removeAll n (h r) @ (if r = q then [n] else []),
     l_empty = \<lambda>q h. h q = [],
     l_first = \<lambda>q h. hd (h q),
     l_each = \<lambda>q h. h q\<rparr>"

definition seq_wf :: "nat set \<Rightarrow> (nat \<Rightarrow> nat list) \<Rightarrow> bool" where
  "seq_wf Q h \<longleftrightarrow> (\<forall>q\<in>Q. distinct (h q))
     \<and> (\<forall>q\<in>Q. \<forall>r\<in>Q. q \<noteq> r \<longrightarrow> set (h q) \<inter> set (h r) = {})"

interpretation seq_list: klist seq_ops seq_wf
proof (unfold_locales, goal_cases)
  case (3 Q h q r n)
  then show ?case by (auto simp: seq_wf_def seq_ops_def)
qed (auto simp: seq_wf_def seq_ops_def distinct_removeAll)

end
