(* ===== verification/Sched_Rbtree.thy ===== *)
theory Sched_Rbtree
  imports "HOL-Library.Tree"
begin

text \<open>
  The interface of the kernel's red-black trees (\<open>linux/rbtree.h\<close>, which is not part of the
  repository).  A node is the number of the task whose \<open>run_node\<close> it is; the pointers are a value of an
  open type \<open>'r\<close>.  The operations are the record \<open>rb_ops\<close>: the root, the two children of a node,
  \<open>rb_link_node\<close> followed by \<open>rb_insert_color\<close> at an empty link, \<open>rb_erase\<close>, \<open>rb_next\<close> and \<open>rb_last\<close>.  The
  locale \<open>rbtree\<close> says what they are documented to do, in terms of the shape of the tree: reading
  follows the shape, insertion and removal change the in-order sequence only where they should, and
  may rebalance.
\<close>

record 'r rb_ops =
  r_root :: "'r \<Rightarrow> nat option"
  r_left :: "nat \<Rightarrow> 'r \<Rightarrow> nat option"
  r_right :: "nat \<Rightarrow> 'r \<Rightarrow> nat option"
  r_insert :: "nat \<Rightarrow> (nat \<times> bool) option \<Rightarrow> 'r \<Rightarrow> 'r"
  r_erase :: "nat \<Rightarrow> 'r \<Rightarrow> 'r"
  r_next :: "nat \<Rightarrow> 'r \<Rightarrow> nat option"
  r_last :: "'r \<Rightarrow> nat option"
  r_empty :: 'r

fun root_of :: "'a tree \<Rightarrow> 'a option" where
  "root_of Leaf = None"
| "root_of (Node l x r) = Some x"

fun first_of :: "'a list \<Rightarrow> 'a option" where
  "first_of [] = None"
| "first_of (x # xs) = Some x"

lemma first_of_eq: "first_of xs = (if xs = [] then None else Some (hd xs))"
  by (cases xs) auto

text \<open>The in-order sequence after a node is linked below \<open>x\<close>, at its left or right.\<close>

fun link_at :: "nat \<Rightarrow> (nat \<times> bool) option \<Rightarrow> nat list \<Rightarrow> nat list" where
  "link_at n None xs = [n]"
| "link_at n (Some (x, b)) [] = []"
| "link_at n (Some (x, b)) (y # ys) =
     (if y = x then if b then n # y # ys else y # n # ys else y # link_at n (Some (x, b)) ys)"

text \<open>A link that is empty in the shape.\<close>

fun free_link :: "(nat \<times> bool) option \<Rightarrow> nat tree \<Rightarrow> bool" where
  "free_link None t \<longleftrightarrow> t = Leaf"
| "free_link (Some (x, b)) t \<longleftrightarrow>
     (\<exists>l r. Node l x r \<in> subtrees t \<and> (if b then l = Leaf else r = Leaf))"

locale rbtree =
  fixes R :: "'r rb_ops"
    and shape :: "'r \<Rightarrow> nat tree"
  assumes empty_shape: "shape (r_empty R) = Leaf"
    and root_node: "r_root R h = root_of (shape h)"
    and left_child: "distinct (inorder (shape h)) \<Longrightarrow> Node l x r \<in> subtrees (shape h) \<Longrightarrow> r_left R x h = root_of l"
    and right_child: "distinct (inorder (shape h)) \<Longrightarrow> Node l x r \<in> subtrees (shape h) \<Longrightarrow> r_right R x h = root_of r"
    and inorder_insert: "distinct (inorder (shape h)) \<Longrightarrow> n \<notin> set_tree (shape h) \<Longrightarrow> free_link pos (shape h) \<Longrightarrow>
      inorder (shape (r_insert R n pos h)) = link_at n pos (inorder (shape h))"
    and inorder_erase: "distinct (inorder (shape h)) \<Longrightarrow> n \<in> set_tree (shape h) \<Longrightarrow>
      inorder (shape (r_erase R n h)) = remove1 n (inorder (shape h))"
    and rb_next: "distinct (inorder (shape h)) \<Longrightarrow> inorder (shape h) = xs @ n # ys \<Longrightarrow> r_next R n h = first_of ys"
    and rb_last: "inorder (shape h) = xs @ [n] \<Longrightarrow> r_last R h = Some n"
begin

definition seq :: "'r \<Rightarrow> nat list" where
  "seq h = inorder (shape h)"

lemma next_of_first:
  "distinct (seq h) \<Longrightarrow> seq h = n # ys \<Longrightarrow> r_next R n h = first_of ys"
  using rb_next [of h "[]"] by (simp add: seq_def)

lemma seq_empty: "seq (r_empty R) = []"
  by (simp add: seq_def empty_shape)

end

section \<open>A tree store\<close>

text \<open>An executable provider: binary trees that are not rebalanced.\<close>

fun child_of :: "bool \<Rightarrow> nat \<Rightarrow> nat tree \<Rightarrow> nat option" where
  "child_of b x Leaf = None"
| "child_of b x (Node l a r) =
     (if x = a then root_of (if b then l else r)
      else if x \<in> set_tree l then child_of b x l else child_of b x r)"

fun ins_below :: "nat \<Rightarrow> nat \<Rightarrow> bool \<Rightarrow> nat tree \<Rightarrow> nat tree" where
  "ins_below n x b Leaf = Leaf"
| "ins_below n x b (Node l a r) =
     (if a = x then if b then Node (Node Leaf n Leaf) a r else Node l a (Node Leaf n Leaf)
      else Node (ins_below n x b l) a (ins_below n x b r))"

fun spine :: "nat list \<Rightarrow> nat tree" where
  "spine [] = Leaf"
| "spine (x # xs) = Node Leaf x (spine xs)"

fun after :: "nat \<Rightarrow> nat list \<Rightarrow> nat option" where
  "after n [] = None"
| "after n (x # xs) = (if x = n then first_of xs else after n xs)"

definition tree_ops :: "nat tree rb_ops" where
  "tree_ops = \<lparr>r_root = root_of, r_left = child_of True, r_right = child_of False,
     r_insert = \<lambda>n pos t. (case pos of None \<Rightarrow> Node Leaf n Leaf | Some (x, b) \<Rightarrow> ins_below n x b t),
     r_erase = \<lambda>n t. spine (remove1 n (inorder t)),
     r_next = \<lambda>n t. after n (inorder t),
     r_last = \<lambda>t. (if t = Leaf then None else Some (last (inorder t))),
     r_empty = Leaf\<rparr>"

lemma inorder_spine [simp]: "inorder (spine xs) = xs"
  by (induction xs) auto

lemma subtree_elem: "Node l x r \<in> subtrees t \<Longrightarrow> x \<in> set_tree t"
  by (induction t) auto

lemma child_of_subtree:
  "distinct (inorder t) \<Longrightarrow> Node l x r \<in> subtrees t \<Longrightarrow> child_of b x t = root_of (if b then l else r)"
  by (induction t) (auto dest: subtree_elem)

lemma after_append: "n \<notin> set xs \<Longrightarrow> after n (xs @ n # ys) = first_of ys"
  by (induction xs) auto

lemma ins_below_id: "x \<notin> set_tree t \<Longrightarrow> ins_below n x b t = t"
  by (induction t) auto

lemma link_at_append:
  "link_at n (Some (x, b)) (xs @ ys) =
     (if x \<in> set xs then link_at n (Some (x, b)) xs @ ys else xs @ link_at n (Some (x, b)) ys)"
  by (induction xs) auto

lemma inorder_ins_below:
  "distinct (inorder t) \<Longrightarrow> Node l x r \<in> subtrees t \<Longrightarrow> (if b then l = Leaf else r = Leaf) \<Longrightarrow>
     inorder (ins_below n x b t) = link_at n (Some (x, b)) (inorder t)"
proof (induction t)
  case (Node u a v)
  show ?case
  proof (cases "a = x")
    case True
    with Node.prems have "u = l" "v = r" by (auto dest: subtree_elem)
    moreover from True Node.prems(1) have "x \<notin> set (inorder u)" by auto
    ultimately show ?thesis using True Node.prems(3) by (cases b) (auto simp: link_at_append)
  next
    case False
    with Node.prems(2) consider "Node l x r \<in> subtrees u" | "Node l x r \<in> subtrees v" by auto
    then show ?thesis
    proof cases
      case 1
      then have "x \<in> set_tree u" by (rule subtree_elem)
      with Node.prems(1) have "x \<notin> set_tree v" by auto
      with 1 Node False \<open>x \<in> set_tree u\<close> show ?thesis by (simp add: ins_below_id link_at_append)
    next
      case 2
      then have "x \<in> set_tree v" by (rule subtree_elem)
      with Node.prems(1) have "x \<notin> set_tree u" by auto
      with 2 Node False show ?thesis by (simp add: ins_below_id link_at_append)
    qed
  qed
qed simp

interpretation tree_store: rbtree tree_ops "\<lambda>t. t"
proof (unfold_locales, goal_cases)
  case (5 h n pos)
  show ?case
  proof (cases pos)
    case (Some p)
    obtain x b where "p = (x, b)" by (cases p)
    with 5 Some show ?thesis by (auto simp: tree_ops_def dest: inorder_ins_below [of h _ x _ b n])
  qed (use 5 in \<open>simp add: tree_ops_def\<close>)
next
  case (7 h xs n ys)
  then have "n \<notin> set xs" by (metis distinct_append disjoint_iff list.set_intros(1))
  with 7 show ?case by (simp add: tree_ops_def after_append)
next
  case (8 h xs n)
  then show ?case by (cases h) (auto simp: tree_ops_def)
qed (auto simp: tree_ops_def child_of_subtree)

end
