(* ===== verification/Sched_Fair.thy ===== *)
theory Sched_Fair
  imports Sched_Weight Sched_Klist Sched_Rbtree
begin

text \<open>
  The fair scheduling class of \<open>kernel/sched/fair.c\<close> on one processor, without group scheduling,
  bandwidth control, schedule statistics and high-resolution ticks: then \<open>for_each_sched_entity\<close> runs
  once, \<open>parent_entity\<close> is \<open>NULL\<close>, no run queue is throttled, and an entity is a task.

  What the code uses from outside the repository is the record \<open>sched_env\<close>: the list and tree
  operations, \<open>sched_clock_cpu\<close> (which reads and may change the outside state) and the feature bits of
  \<open>features.h\<close>.
\<close>

datatype feature = START_DEBIT | GENTLE_FAIR_SLEEPERS | NEXT_BUDDY | LAST_BUDDY | WAKEUP_PREEMPTION

record ('h, 'r, 'x) sched_env =
  e_list :: "'h list_ops"
  e_rb :: "'r rb_ops"
  sched_clock_cpu :: "'x \<Rightarrow> u64 \<times> 'x"
  sched_feat :: "feature \<Rightarrow> bool"

definition upd_cfs :: "('r cfs_rq \<Rightarrow> 'r cfs_rq) \<Rightarrow> ('h, 'r, 'x) sched \<Rightarrow> ('h, 'r, 'x) sched" where
  "upd_cfs f s = s\<lparr>cfs := f (cfs s)\<rparr>"

definition set_vruntime :: "nat \<Rightarrow> u64 \<Rightarrow> ('h, 'r, 'x) sched \<Rightarrow> ('h, 'r, 'x) sched" where
  "set_vruntime p v = upd_se p (vruntime_update (\<lambda>_. v))"

section \<open>Tunables\<close>

text \<open>\<open>num_online_cpus()\<close> is an argument; \<open>ilog2\<close> of a value from 1 to 8.\<close>

definition ilog2_upto_8 :: "nat \<Rightarrow> nat" where
  "ilog2_upto_8 n = (if n < 2 then 0 else if n < 4 then 1 else if n < 8 then 2 else 3)"

definition get_update_sysctl_factor :: "nat \<Rightarrow> tunables \<Rightarrow> u32" where
  "get_update_sysctl_factor online t =
     (let cpus = min online 8 in
      of_nat (if tunable_scaling t = 0 then 1
              else if tunable_scaling t = 2 then cpus
              else 1 + ilog2_upto_8 cpus))"

definition update_sysctl :: "nat \<Rightarrow> tunables \<Rightarrow> tunables" where
  "update_sysctl online t =
     (let factor = get_update_sysctl_factor online t in
      t\<lparr>min_granularity := factor * normalized_min_granularity t,
        sched_latency := factor * normalized_latency t,
        wakeup_granularity := factor * normalized_wakeup_granularity t\<rparr>)"

definition sched_init_granularity :: "('h, 'r, 'x) sched \<Rightarrow> ('h, 'r, 'x) sched" where
  "sched_init_granularity s = s\<lparr>tun := update_sysctl 1 (tun s)\<rparr>"

section \<open>The clock of the run queue\<close>

definition update_rq_clock_task :: "u64 \<Rightarrow> ('h, 'r, 'x) sched \<Rightarrow> ('h, 'r, 'x) sched" where
  "update_rq_clock_task delta s = s\<lparr>clock_task := clock_task s + delta\<rparr>"

definition update_rq_clock :: "('h, 'r, 'x, 'e) sched_env_scheme \<Rightarrow> ('h, 'r, 'x) sched \<Rightarrow> ('h, 'r, 'x) sched" where
  "update_rq_clock E s =
     (if skip_clock_update s > 0 then s
      else let (now, x) = sched_clock_cpu E (others s);
               s1 = s\<lparr>others := x\<rparr>;
               delta = now - rq_clock s1
           in update_rq_clock_task delta (s1\<lparr>rq_clock := rq_clock s1 + delta\<rparr>))"

section \<open>The timeline\<close>

definition max_vruntime :: "u64 \<Rightarrow> u64 \<Rightarrow> u64" where
  "max_vruntime m v = (if sint (v - m) > 0 then v else m)"

definition min_vruntime_f :: "u64 \<Rightarrow> u64 \<Rightarrow> u64" where
  "min_vruntime_f m v = (if sint (v - m) < 0 then v else m)"

definition entity_before :: "sched_entity \<Rightarrow> sched_entity \<Rightarrow> bool" where
  "entity_before a b \<longleftrightarrow> sint (vruntime a - vruntime b) < 0"

definition update_min_vruntime :: "('h, 'r, 'x) sched \<Rightarrow> ('h, 'r, 'x) sched" where
  "update_min_vruntime s =
     (let m = min_vruntime (cfs s);
          v0 = (case cfs_curr (cfs s) of Some c \<Rightarrow> vruntime (se_of s c) | None \<Rightarrow> m);
          v = (case rb_leftmost (cfs s) of
                 None \<Rightarrow> v0
               | Some l \<Rightarrow>
                   if cfs_curr (cfs s) = None then vruntime (se_of s l)
                   else min_vruntime_f v0 (vruntime (se_of s l)))
      in upd_cfs (min_vruntime_update (\<lambda>_. max_vruntime m v)) s)"

text \<open>
  The descent of \<open>__enqueue_entity\<close>: from link \<open>pos\<close>, whose target is \<open>cur\<close>; \<open>None\<close> if it does not end.
\<close>

partial_function (option) find_place ::
  "'r rb_ops \<Rightarrow> (nat \<Rightarrow> bool) \<Rightarrow> 'r \<Rightarrow> nat option \<Rightarrow> (nat \<times> bool) option \<Rightarrow> bool
     \<Rightarrow> ((nat \<times> bool) option \<times> bool) option" where
  "find_place R before h cur pos leftmost =
     (case cur of
        None \<Rightarrow> Some (pos, leftmost)
      | Some x \<Rightarrow>
          if before x then find_place R before h (r_left R x h) (Some (x, True)) leftmost
          else find_place R before h (r_right R x h) (Some (x, False)) False)"

definition raw_enqueue_entity :: "'r rb_ops \<Rightarrow> nat \<Rightarrow> ('h, 'r, 'x) sched \<Rightarrow> ('h, 'r, 'x) sched option" where
  "raw_enqueue_entity R p s =
     (let h = tasks_timeline (cfs s) in
      do { (pos, leftmost) \<leftarrow>
             find_place R (\<lambda>x. entity_before (se_of s p) (se_of s x)) h (r_root R h) None True;
           let s1 = (if leftmost then upd_cfs (rb_leftmost_update (\<lambda>_. Some p)) s else s);
           Some (upd_cfs (tasks_timeline_update (r_insert R p pos)) s1) })"

definition raw_dequeue_entity :: "'r rb_ops \<Rightarrow> nat \<Rightarrow> ('h, 'r, 'x) sched \<Rightarrow> ('h, 'r, 'x) sched" where
  "raw_dequeue_entity R p s =
     (let s1 = (if rb_leftmost (cfs s) = Some p
                then upd_cfs (rb_leftmost_update (\<lambda>_. r_next R p (tasks_timeline (cfs s)))) s else s)
      in upd_cfs (tasks_timeline_update (r_erase R p)) s1)"

definition raw_pick_first_entity :: "('h, 'r, 'x) sched \<Rightarrow> nat option" where
  "raw_pick_first_entity s = rb_leftmost (cfs s)"

definition raw_pick_next_entity :: "'r rb_ops \<Rightarrow> nat \<Rightarrow> ('h, 'r, 'x) sched \<Rightarrow> nat option" where
  "raw_pick_next_entity R p s = r_next R p (tasks_timeline (cfs s))"

definition raw_pick_last_entity :: "'r rb_ops \<Rightarrow> ('h, 'r, 'x) sched \<Rightarrow> nat option" where
  "raw_pick_last_entity R s = r_last R (tasks_timeline (cfs s))"

section \<open>Slices\<close>

definition calc_delta_fair :: "u64 \<Rightarrow> nat \<Rightarrow> ('h, 'r, 'x) sched \<Rightarrow> u64 \<times> ('h, 'r, 'x) sched" where
  "calc_delta_fair delta p s =
     (if weight (se_load (se_of s p)) \<noteq> NICE_0_LOAD then
        let (d, lw) = calc_delta_mine delta NICE_0_LOAD (se_load (se_of s p))
        in (d, upd_se p (se_load_update (\<lambda>_. lw)) s)
      else (delta, s))"

definition raw_sched_period :: "u64 \<Rightarrow> tunables \<Rightarrow> u64" where
  "raw_sched_period nr t =
     (if nr > ucast (sched_nr_latency t) then ucast (min_granularity t) * nr
      else ucast (sched_latency t))"

text \<open>A queued entity's slice is computed on the queue's own load, whose inverse is then kept.\<close>

definition sched_slice :: "nat \<Rightarrow> ('h, 'r, 'x) sched \<Rightarrow> u64 \<times> ('h, 'r, 'x) sched" where
  "sched_slice p s =
     (let e = se_of s p;
          slice = raw_sched_period (ucast (cfs_nr_running (cfs s) + (if se_on_rq e then 0 else 1))) (tun s)
      in if se_on_rq e then
           let (d, lw) = calc_delta_mine slice (weight (se_load e)) (cfs_load (cfs s))
           in (d, upd_cfs (cfs_load_update (\<lambda>_. lw)) s)
         else
           let (d, lw) = calc_delta_mine slice (weight (se_load e))
                           (update_load_add (weight (se_load e)) (cfs_load (cfs s)))
           in (d, s))"

definition sched_vslice :: "nat \<Rightarrow> ('h, 'r, 'x) sched \<Rightarrow> u64 \<times> ('h, 'r, 'x) sched" where
  "sched_vslice p s = (let (d, s1) = sched_slice p s in calc_delta_fair d p s1)"

section \<open>Accounting\<close>

definition raw_update_curr :: "nat \<Rightarrow> u64 \<Rightarrow> ('h, 'r, 'x) sched \<Rightarrow> ('h, 'r, 'x) sched" where
  "raw_update_curr c delta_exec s =
     (let s1 = upd_se c (\<lambda>e. e\<lparr>sum_exec_runtime := sum_exec_runtime e + delta_exec\<rparr>) s;
          (dw, s2) = calc_delta_fair delta_exec c s1;
          s3 = set_vruntime c (vruntime (se_of s2 c) + dw) s2
      in update_min_vruntime s3)"

definition update_curr :: "('h, 'r, 'x) sched \<Rightarrow> ('h, 'r, 'x) sched" where
  "update_curr s =
     (case cfs_curr (cfs s) of
        None \<Rightarrow> s
      | Some c \<Rightarrow>
          let now = clock_task s; delta_exec = now - exec_start (se_of s c) in
          if delta_exec = 0 then s
          else upd_se c (exec_start_update (\<lambda>_. now)) (raw_update_curr c delta_exec s))"

definition update_stats_curr_start :: "nat \<Rightarrow> ('h, 'r, 'x) sched \<Rightarrow> ('h, 'r, 'x) sched" where
  "update_stats_curr_start p s = upd_se p (exec_start_update (\<lambda>_. clock_task s)) s"

definition account_entity_enqueue :: "nat \<Rightarrow> ('h, 'r, 'x) sched \<Rightarrow> ('h, 'r, 'x) sched" where
  "account_entity_enqueue p s =
     (let w = weight (se_load (se_of s p));
          s1 = upd_cfs (cfs_load_update (update_load_add w)) s;
          s2 = s1\<lparr>rq_load := update_load_add w (rq_load s1)\<rparr>
      in upd_cfs (cfs_nr_running_update (\<lambda>n. n + 1)) s2)"

definition account_entity_dequeue :: "nat \<Rightarrow> ('h, 'r, 'x) sched \<Rightarrow> ('h, 'r, 'x) sched" where
  "account_entity_dequeue p s =
     (let w = weight (se_load (se_of s p));
          s1 = upd_cfs (cfs_load_update (update_load_sub w)) s;
          s2 = s1\<lparr>rq_load := update_load_sub w (rq_load s1)\<rparr>
      in upd_cfs (cfs_nr_running_update (\<lambda>n. n - 1)) s2)"

section \<open>Queueing entities\<close>

definition place_entity :: "('h, 'r, 'x, 'e) sched_env_scheme \<Rightarrow> nat \<Rightarrow> bool \<Rightarrow> ('h, 'r, 'x) sched \<Rightarrow> ('h, 'r, 'x) sched" where
  "place_entity E p initial s =
     (let v0 = min_vruntime (cfs s);
          (v1, s1) = (if initial \<and> sched_feat E START_DEBIT
                      then let (d, t) = sched_vslice p s in (v0 + d, t) else (v0, s));
          v2 = (if \<not> initial then
                  let thresh = ucast (sched_latency (tun s1));
                      thresh1 = (if sched_feat E GENTLE_FAIR_SLEEPERS then drop_bit 1 thresh else thresh)
                  in v1 - thresh1
                else v1)
      in set_vruntime p (max_vruntime (vruntime (se_of s1 p)) v2) s1)"

definition has_flag :: "int \<Rightarrow> int \<Rightarrow> bool" where
  "has_flag flags f \<longleftrightarrow> flags AND f \<noteq> 0"

definition enqueue_entity :: "('h, 'r, 'x, 'e) sched_env_scheme \<Rightarrow> nat \<Rightarrow> int \<Rightarrow> ('h, 'r, 'x) sched \<Rightarrow> ('h, 'r, 'x) sched option" where
  "enqueue_entity E p flags s =
     (let s1 = (if \<not> has_flag flags ENQUEUE_WAKEUP \<or> has_flag flags ENQUEUE_WAKING
                then set_vruntime p (vruntime (se_of s p) + min_vruntime (cfs s)) s else s);
          s2 = account_entity_enqueue p (update_curr s1);
          s3 = (if has_flag flags ENQUEUE_WAKEUP then place_entity E p False s2 else s2)
      in do { s4 \<leftarrow> (if Some p \<noteq> cfs_curr (cfs s3) then raw_enqueue_entity (e_rb E) p s3 else Some s3);
              Some (upd_se p (se_on_rq_update (\<lambda>_. True)) s4) })"

definition raw_clear_buddies_last :: "nat \<Rightarrow> ('h, 'r, 'x) sched \<Rightarrow> ('h, 'r, 'x) sched" where
  "raw_clear_buddies_last p s =
     (if cfs_last (cfs s) = Some p then upd_cfs (cfs_last_update (\<lambda>_. None)) s else s)"

definition raw_clear_buddies_next :: "nat \<Rightarrow> ('h, 'r, 'x) sched \<Rightarrow> ('h, 'r, 'x) sched" where
  "raw_clear_buddies_next p s =
     (if cfs_next (cfs s) = Some p then upd_cfs (cfs_next_update (\<lambda>_. None)) s else s)"

definition raw_clear_buddies_skip :: "nat \<Rightarrow> ('h, 'r, 'x) sched \<Rightarrow> ('h, 'r, 'x) sched" where
  "raw_clear_buddies_skip p s =
     (if cfs_skip (cfs s) = Some p then upd_cfs (cfs_skip_update (\<lambda>_. None)) s else s)"

definition clear_buddies :: "nat \<Rightarrow> ('h, 'r, 'x) sched \<Rightarrow> ('h, 'r, 'x) sched" where
  "clear_buddies p s =
     (let s1 = (if cfs_last (cfs s) = Some p then raw_clear_buddies_last p s else s);
          s2 = (if cfs_next (cfs s1) = Some p then raw_clear_buddies_next p s1 else s1)
      in if cfs_skip (cfs s2) = Some p then raw_clear_buddies_skip p s2 else s2)"

definition dequeue_entity :: "('h, 'r, 'x, 'e) sched_env_scheme \<Rightarrow> nat \<Rightarrow> int \<Rightarrow> ('h, 'r, 'x) sched \<Rightarrow> ('h, 'r, 'x) sched" where
  "dequeue_entity E p flags s =
     (let s1 = clear_buddies p (update_curr s);
          s2 = (if Some p \<noteq> cfs_curr (cfs s1) then raw_dequeue_entity (e_rb E) p s1 else s1);
          s3 = account_entity_dequeue p (upd_se p (se_on_rq_update (\<lambda>_. False)) s2);
          s4 = (if \<not> has_flag flags DEQUEUE_SLEEP
                then set_vruntime p (vruntime (se_of s3 p) - min_vruntime (cfs s3)) s3 else s3)
      in update_min_vruntime s4)"

section \<open>Preemption by the tick, picking\<close>

text \<open>\<open>None\<close> where the leftmost entity is \<open>NULL\<close> and the code would follow it.\<close>

definition check_preempt_tick :: "nat \<Rightarrow> ('h, 'r, 'x) sched \<Rightarrow> ('h, 'r, 'x) sched option" where
  "check_preempt_tick c s =
     (let (ideal_runtime, s1) = sched_slice c s;
          delta_exec = sum_exec_runtime (se_of s1 c) - prev_sum_exec_runtime (se_of s1 c)
      in if delta_exec > ideal_runtime then Some (clear_buddies c (resched_task (rq_curr s1) s1))
         else if delta_exec < ucast (min_granularity (tun s1)) then Some s1
         else do { l \<leftarrow> raw_pick_first_entity s1;
                   let delta = vruntime (se_of s1 c) - vruntime (se_of s1 l);
                   Some (if sint delta < 0 then s1
                         else if delta > ideal_runtime then resched_task (rq_curr s1) s1
                         else s1) })"

definition set_next_entity :: "('h, 'r, 'x, 'e) sched_env_scheme \<Rightarrow> nat \<Rightarrow> ('h, 'r, 'x) sched \<Rightarrow> ('h, 'r, 'x) sched" where
  "set_next_entity E p s =
     (let s1 = (if se_on_rq (se_of s p) then raw_dequeue_entity (e_rb E) p s else s);
          s2 = update_stats_curr_start p s1;
          s3 = upd_cfs (cfs_curr_update (\<lambda>_. Some p)) s2
      in upd_se p (\<lambda>e. e\<lparr>prev_sum_exec_runtime := sum_exec_runtime e\<rparr>) s3)"

definition wakeup_gran :: "nat \<Rightarrow> ('h, 'r, 'x) sched \<Rightarrow> u64 \<times> ('h, 'r, 'x) sched" where
  "wakeup_gran p s = calc_delta_fair (ucast (wakeup_granularity (tun s))) p s"

definition wakeup_preempt_entity :: "nat \<Rightarrow> nat \<Rightarrow> ('h, 'r, 'x) sched \<Rightarrow> int \<times> ('h, 'r, 'x) sched" where
  "wakeup_preempt_entity c p s =
     (let vdiff = sint (vruntime (se_of s c) - vruntime (se_of s p)) in
      if vdiff \<le> 0 then (-1, s)
      else let (gran, s1) = wakeup_gran p s
           in (if vdiff > sint gran then 1 else 0, s1))"

definition prefer_buddy :: "nat option \<Rightarrow> nat \<Rightarrow> nat \<times> ('h, 'r, 'x) sched \<Rightarrow> nat \<times> ('h, 'r, 'x) sched" where
  "prefer_buddy b lm sel =
     (case b of
        None \<Rightarrow> sel
      | Some x \<Rightarrow> (let (w, t) = wakeup_preempt_entity x lm (snd sel)
                   in (if w < 1 then x else fst sel, t)))"

text \<open>\<open>None\<close> when the timeline is empty: the code would read through \<open>NULL\<close>.\<close>

definition pick_next_entity :: "('h, 'r, 'x, 'e) sched_env_scheme \<Rightarrow> ('h, 'r, 'x) sched \<Rightarrow> (nat \<times> ('h, 'r, 'x) sched) option" where
  "pick_next_entity E s =
     do { lm \<leftarrow> raw_pick_first_entity s;
          let sel0 = (lm, s);
          let sel1 = (if cfs_skip (cfs s) = Some lm
                      then prefer_buddy (raw_pick_next_entity (e_rb E) lm s) lm sel0 else sel0);
          let sel2 = prefer_buddy (cfs_last (cfs (snd sel1))) lm sel1;
          let sel3 = prefer_buddy (cfs_next (cfs (snd sel2))) lm sel2;
          Some (fst sel3, clear_buddies (fst sel3) (snd sel3)) }"

definition put_prev_entity :: "('h, 'r, 'x, 'e) sched_env_scheme \<Rightarrow> nat \<Rightarrow> ('h, 'r, 'x) sched \<Rightarrow> ('h, 'r, 'x) sched option" where
  "put_prev_entity E prev s =
     (let s1 = (if se_on_rq (se_of s prev) then update_curr s else s) in
      do { s2 \<leftarrow> (if se_on_rq (se_of s1 prev) then raw_enqueue_entity (e_rb E) prev s1 else Some s1);
           Some (upd_cfs (cfs_curr_update (\<lambda>_. None)) s2) })"

definition entity_tick :: "nat \<Rightarrow> ('h, 'r, 'x) sched \<Rightarrow> ('h, 'r, 'x) sched option" where
  "entity_tick c s =
     (let s1 = update_curr s in
      if cfs_nr_running (cfs s1) > 1 then check_preempt_tick c s1 else Some s1)"

section \<open>Operations of the class\<close>

definition enqueue_task_fair :: "('h, 'r, 'x, 'e) sched_env_scheme \<Rightarrow> nat \<Rightarrow> int \<Rightarrow> ('h, 'r, 'x) sched \<Rightarrow> ('h, 'r, 'x) sched option" where
  "enqueue_task_fair E p flags s =
     do { s1 \<leftarrow> (if se_on_rq (se_of s p) then Some s else enqueue_entity E p flags s);
          Some (inc_nr_running (upd_cfs (h_nr_running_update (\<lambda>n. n + 1)) s1)) }"

definition dequeue_task_fair :: "('h, 'r, 'x, 'e) sched_env_scheme \<Rightarrow> nat \<Rightarrow> int \<Rightarrow> ('h, 'r, 'x) sched \<Rightarrow> ('h, 'r, 'x) sched option" where
  "dequeue_task_fair E p flags s =
     Some (dec_nr_running (upd_cfs (h_nr_running_update (\<lambda>n. n - 1)) (dequeue_entity E p flags s)))"

definition set_last_buddy :: "nat \<Rightarrow> ('h, 'r, 'x) sched \<Rightarrow> ('h, 'r, 'x) sched" where
  "set_last_buddy p s =
     (if policy (task_of s p) = SCHED_IDLE then s else upd_cfs (cfs_last_update (\<lambda>_. Some p)) s)"

definition set_next_buddy :: "nat \<Rightarrow> ('h, 'r, 'x) sched \<Rightarrow> ('h, 'r, 'x) sched" where
  "set_next_buddy p s =
     (if policy (task_of s p) = SCHED_IDLE then s else upd_cfs (cfs_next_update (\<lambda>_. Some p)) s)"

definition set_skip_buddy :: "nat \<Rightarrow> ('h, 'r, 'x) sched \<Rightarrow> ('h, 'r, 'x) sched" where
  "set_skip_buddy p s = upd_cfs (cfs_skip_update (\<lambda>_. Some p)) s"

text \<open>The code after the label \<open>preempt\<close>.\<close>

definition preempt_wakeup :: "('h, 'r, 'x, 'e) sched_env_scheme \<Rightarrow> nat \<Rightarrow> bool \<Rightarrow> ('h, 'r, 'x) sched \<Rightarrow> ('h, 'r, 'x) sched" where
  "preempt_wakeup E cur scale s =
     (let s1 = resched_task cur s in
      if \<not> se_on_rq (se_of s1 cur) \<or> cur = rq_idle s1 then s1
      else if sched_feat E LAST_BUDDY \<and> scale then set_last_buddy cur s1
      else s1)"

definition check_preempt_wakeup :: "('h, 'r, 'x, 'e) sched_env_scheme \<Rightarrow> nat \<Rightarrow> int \<Rightarrow> ('h, 'r, 'x) sched \<Rightarrow> ('h, 'r, 'x) sched option" where
  "check_preempt_wakeup E p wake_flags s =
     Some (let cur = rq_curr s; scale = cfs_nr_running (cfs s) \<ge> sched_nr_latency (tun s) in
       if cur = p then s
       else
         let marked = sched_feat E NEXT_BUDDY \<and> scale \<and> \<not> has_flag wake_flags WF_FORK;
             s1 = (if marked then set_next_buddy p s else s) in
         if need_resched (task_of s1 cur) then s1
         else if policy (task_of s1 cur) = SCHED_IDLE \<and> policy (task_of s1 p) \<noteq> SCHED_IDLE
           then preempt_wakeup E cur scale s1
         else if policy (task_of s1 p) \<noteq> SCHED_NORMAL \<or> \<not> sched_feat E WAKEUP_PREEMPTION then s1
         else
           let s2 = update_curr s1; (w, s3) = wakeup_preempt_entity cur p s2 in
           if w = 1 then preempt_wakeup E cur scale (if marked then s3 else set_next_buddy p s3)
           else s3)"

definition pick_next_task_fair :: "('h, 'r, 'x, 'e) sched_env_scheme \<Rightarrow> ('h, 'r, 'x) sched \<Rightarrow> (nat option \<times> ('h, 'r, 'x) sched) option" where
  "pick_next_task_fair E s =
     (if cfs_nr_running (cfs s) = 0 then Some (None, s)
      else do { (p, s1) \<leftarrow> pick_next_entity E s;
                Some (Some p, set_next_entity E p s1) })"

definition put_prev_task_fair :: "('h, 'r, 'x, 'e) sched_env_scheme \<Rightarrow> nat \<Rightarrow> ('h, 'r, 'x) sched \<Rightarrow> ('h, 'r, 'x) sched option" where
  "put_prev_task_fair E prev s = put_prev_entity E prev s"

definition yield_task_fair :: "('h, 'r, 'x, 'e) sched_env_scheme \<Rightarrow> ('h, 'r, 'x) sched \<Rightarrow> ('h, 'r, 'x) sched option" where
  "yield_task_fair E s =
     Some (let cur = rq_curr s in
       if nr_running s = 1 then s
       else
         let s1 = clear_buddies cur s;
             s2 = (if policy (task_of s1 cur) \<noteq> SCHED_BATCH
                   then (update_curr (update_rq_clock E s1))\<lparr>skip_clock_update := 1\<rparr> else s1)
         in set_skip_buddy cur s2)"

definition yield_to_task_fair :: "('h, 'r, 'x, 'e) sched_env_scheme \<Rightarrow> nat \<Rightarrow> ('h, 'r, 'x) sched \<Rightarrow> (bool \<times> ('h, 'r, 'x) sched) option" where
  "yield_to_task_fair E p s =
     (if \<not> se_on_rq (se_of s p) then Some (False, s)
      else do { s1 \<leftarrow> yield_task_fair E (set_next_buddy p s); Some (True, s1) })"

definition task_tick_fair :: "nat \<Rightarrow> int \<Rightarrow> ('h, 'r, 'x) sched \<Rightarrow> ('h, 'r, 'x) sched option" where
  "task_tick_fair cur queued s = entity_tick cur s"

definition task_fork_fair :: "('h, 'r, 'x, 'e) sched_env_scheme \<Rightarrow> nat \<Rightarrow> ('h, 'r, 'x) sched \<Rightarrow> ('h, 'r, 'x) sched option" where
  "task_fork_fair E p s =
     Some (let s1 = update_rq_clock E s;
               cu = cfs_curr (cfs s1);
               s2 = update_curr s1;
               s3 = (case cu of Some c \<Rightarrow> set_vruntime p (vruntime (se_of s2 c)) s2 | None \<Rightarrow> s2);
               s4 = place_entity E p True s3;
               s5 = (case cu of
                       Some c \<Rightarrow>
                         if child_runs_first (tun s4) \<noteq> 0 \<and> entity_before (se_of s4 c) (se_of s4 p)
                         then resched_task (rq_curr s4)
                                (set_vruntime p (vruntime (se_of s4 c)) (set_vruntime c (vruntime (se_of s4 p)) s4))
                         else s4
                     | None \<Rightarrow> s4)
           in set_vruntime p (vruntime (se_of s5 p) - min_vruntime (cfs s5)) s5)"

definition switched_from_fair :: "('h, 'r, 'x, 'e) sched_env_scheme \<Rightarrow> nat \<Rightarrow> ('h, 'r, 'x) sched \<Rightarrow> ('h, 'r, 'x) sched option" where
  "switched_from_fair E p s =
     Some (if \<not> se_on_rq (se_of s p) \<and> tstate (task_of s p) \<noteq> TASK_RUNNING then
             let s1 = place_entity E p False s
             in set_vruntime p (vruntime (se_of s1 p) - min_vruntime (cfs s1)) s1
           else s)"

definition set_curr_task_fair :: "('h, 'r, 'x, 'e) sched_env_scheme \<Rightarrow> ('h, 'r, 'x) sched \<Rightarrow> ('h, 'r, 'x) sched option" where
  "set_curr_task_fair E s = Some (set_next_entity E (rq_curr s) s)"

definition init_cfs_rq :: "('h, 'r, 'x, 'e) sched_env_scheme \<Rightarrow> ('h, 'r, 'x) sched \<Rightarrow> ('h, 'r, 'x) sched" where
  "init_cfs_rq E = upd_cfs (\<lambda>c. c\<lparr>tasks_timeline := r_empty (e_rb E), min_vruntime := - (2 ^ 20)\<rparr>)"

text \<open>\<open>NS_TO_JIFFIES\<close>: a jiffy is 10 ms.\<close>

definition NS_TO_JIFFIES :: "u64 \<Rightarrow> u64" where
  "NS_TO_JIFFIES ns = ns div 10000000"

definition get_rr_interval_fair :: "nat \<Rightarrow> ('h, 'r, 'x) sched \<Rightarrow> u32 \<times> ('h, 'r, 'x) sched" where
  "get_rr_interval_fair p s =
     (if weight (cfs_load (cfs s)) \<noteq> 0 then
        let (d, s1) = sched_slice p s in (ucast (NS_TO_JIFFIES d), s1)
      else (0, s))"

end
