(* ===== verification/Sched_Dummy.thy ===== *)
theory Sched_Dummy
  imports Sched_State Sched_Klist
begin

text \<open>
  The scheduling class of \<open>kernel/sched/dummy.c\<close>: five FIFO queues for the priorities 135 to 139
  (nice 15 to 19), round robin with a time slice, and aging, which moves a task that has waited too
  long one queue up.  Every operation takes the list operations \<open>L\<close>.
\<close>

section \<open>Data\<close>

definition DUMMY_PRIORITY_MIN :: int where "DUMMY_PRIORITY_MIN = 135"
definition DUMMY_PRIORITY_MAX :: int where "DUMMY_PRIORITY_MAX = 139"
definition DUMMY_QUEUE_SIZE :: nat where "DUMMY_QUEUE_SIZE = 5"

text \<open>\<open>HZ\<close> is 100.\<close>

definition HZ :: nat where "HZ = 100"
definition DUMMY_TIMESLICE :: nat where "DUMMY_TIMESLICE = 100 * HZ div 1000"
definition DUMMY_AGE_THRESHOLD :: nat where "DUMMY_AGE_THRESHOLD = 3 * DUMMY_TIMESLICE"

definition get_timeslice :: "('h, 'r, 'x) sched \<Rightarrow> u32" where
  "get_timeslice s = sysctl_timeslice s"

definition get_age_threshold :: "('h, 'r, 'x) sched \<Rightarrow> u32" where
  "get_age_threshold s = sysctl_age_threshold s"

fun init_queues :: "'h list_ops \<Rightarrow> nat \<Rightarrow> 'h \<Rightarrow> 'h" where
  "init_queues L 0 h = h"
| "init_queues L (Suc i) h = l_init L i (init_queues L i h)"

definition init_dummy_rq :: "'h list_ops \<Rightarrow> ('h, 'r, 'x) sched \<Rightarrow> ('h, 'r, 'x) sched" where
  "init_dummy_rq L s = s\<lparr>links := init_queues L DUMMY_QUEUE_SIZE (links s), dummy_timeslice := 0\<rparr>"

section \<open>Queueing\<close>

text \<open>\<open>queues[p->prio - DUMMY_PRIORITY_MIN]\<close>; \<open>None\<close> when the index is not one of the array.\<close>

definition queue_index :: "task \<Rightarrow> nat option" where
  "queue_index p =
     (let i = prio p - DUMMY_PRIORITY_MIN
      in if 0 \<le> i \<and> i < int DUMMY_QUEUE_SIZE then Some (nat i) else None)"

definition enqueue_dummy_entity :: "'h list_ops \<Rightarrow> nat \<Rightarrow> ('h, 'r, 'x) sched \<Rightarrow> ('h, 'r, 'x) sched option" where
  "enqueue_dummy_entity L p s =
     do { q \<leftarrow> queue_index (task_of s p);
          Some (s\<lparr>links := l_add_tail L p q (links s)\<rparr>) }"

definition dequeue_dummy_entity :: "'h list_ops \<Rightarrow> nat \<Rightarrow> ('h, 'r, 'x) sched \<Rightarrow> ('h, 'r, 'x) sched" where
  "dequeue_dummy_entity L p s = s\<lparr>links := l_del_init L p (links s)\<rparr>"

definition set_age :: "nat \<Rightarrow> u32 \<Rightarrow> ('h, 'r, 'x) sched \<Rightarrow> ('h, 'r, 'x) sched" where
  "set_age p a = upd_task p (dummy_age_tick_update (\<lambda>_. a))"

definition enqueue_task_dummy :: "'h list_ops \<Rightarrow> nat \<Rightarrow> int \<Rightarrow> ('h, 'r, 'x) sched \<Rightarrow> ('h, 'r, 'x) sched option" where
  "enqueue_task_dummy L p flags s =
     do { s1 \<leftarrow> enqueue_dummy_entity L p (set_age p 0 s);
          Some (inc_nr_running s1) }"

definition dequeue_task_dummy :: "'h list_ops \<Rightarrow> nat \<Rightarrow> int \<Rightarrow> ('h, 'r, 'x) sched \<Rightarrow> ('h, 'r, 'x) sched option" where
  "dequeue_task_dummy L p flags s = Some (dec_nr_running (dequeue_dummy_entity L p s))"

definition requeue_task_dummy :: "'h list_ops \<Rightarrow> nat \<Rightarrow> int \<Rightarrow> ('h, 'r, 'x) sched \<Rightarrow> ('h, 'r, 'x) sched option" where
  "requeue_task_dummy L p flags s =
     do { s1 \<leftarrow> dequeue_task_dummy L p flags s;
          s2 \<leftarrow> enqueue_task_dummy L p flags s1;
          Some (resched_task p s2) }"

definition yield_task_dummy :: "'h list_ops \<Rightarrow> ('h, 'r, 'x) sched \<Rightarrow> ('h, 'r, 'x) sched option" where
  "yield_task_dummy L s = requeue_task_dummy L (rq_curr s) 0 s"

section \<open>Preemption, picking\<close>

definition check_preempt_curr_dummy :: "nat \<Rightarrow> int \<Rightarrow> ('h, 'r, 'x) sched \<Rightarrow> ('h, 'r, 'x) sched option" where
  "check_preempt_curr_dummy p flags s =
     Some (if prio (task_of s p) > prio (task_of s (rq_curr s)) then resched_task p s else s)"

fun pick_queue :: "'h list_ops \<Rightarrow> 'h \<Rightarrow> nat list \<Rightarrow> nat option" where
  "pick_queue L h [] = None"
| "pick_queue L h (i # is) = (if \<not> l_empty L i h then Some (l_first L i h) else pick_queue L h is)"

definition pick_next_task_dummy :: "'h list_ops \<Rightarrow> ('h, 'r, 'x) sched \<Rightarrow> (nat option \<times> ('h, 'r, 'x) sched) option" where
  "pick_next_task_dummy L s =
     Some (case pick_queue L (links s) [0..<DUMMY_QUEUE_SIZE] of
         None \<Rightarrow> (None, s)
       | Some p \<Rightarrow> (Some p, set_age p 0 s))"

definition put_prev_task_dummy :: "nat \<Rightarrow> ('h, 'r, 'x) sched \<Rightarrow> ('h, 'r, 'x) sched option" where
  "put_prev_task_dummy prev s = Some s"

definition set_curr_task_dummy :: "('h, 'r, 'x) sched \<Rightarrow> ('h, 'r, 'x) sched option" where
  "set_curr_task_dummy s = Some s"

section \<open>The tick\<close>

text \<open>
  One entry of queue \<open>i\<close>: \<open>p->dummy_age_tick++ > get_age_threshold()\<close> compares the old value, then
  counts.
\<close>

definition age_entry :: "'h list_ops \<Rightarrow> nat \<Rightarrow> nat \<Rightarrow> ('h, 'r, 'x) sched \<Rightarrow> ('h, 'r, 'x) sched" where
  "age_entry L i p s =
     (let old = dummy_age_tick (task_of s p); s1 = set_age p (old + 1) s in
      if old > get_age_threshold s then
        let s2 = set_age p 0 s1;
            s3 = s2\<lparr>links := l_move_tail L p (i - 1) (links s2)\<rparr>
        in resched_task p s3
      else s1)"

definition age_queue :: "'h list_ops \<Rightarrow> nat \<Rightarrow> ('h, 'r, 'x) sched \<Rightarrow> ('h, 'r, 'x) sched" where
  "age_queue L i s = fold (age_entry L i) (l_each L i (links s)) s"

definition age_queues :: "'h list_ops \<Rightarrow> ('h, 'r, 'x) sched \<Rightarrow> ('h, 'r, 'x) sched" where
  "age_queues L s = fold (age_queue L) [1..<DUMMY_QUEUE_SIZE] s"

definition task_tick_dummy :: "'h list_ops \<Rightarrow> nat \<Rightarrow> int \<Rightarrow> ('h, 'r, 'x) sched \<Rightarrow> ('h, 'r, 'x) sched option" where
  "task_tick_dummy L cur queued s =
     (let s1 = age_queues L s;
          old = dummy_timeslice s1;
          s2 = s1\<lparr>dummy_timeslice := old + 1\<rparr>
      in if old \<ge> get_timeslice s2 then
           do { s3 \<leftarrow> requeue_task_dummy L cur 0 s2;
                Some (s3\<lparr>dummy_timeslice := 0\<rparr>) }
         else Some s2)"

section \<open>Class and priority changes\<close>

definition switched_from_dummy :: "nat \<Rightarrow> ('h, 'r, 'x) sched \<Rightarrow> ('h, 'r, 'x) sched option" where
  "switched_from_dummy p s = Some s"

definition switched_to_dummy :: "nat \<Rightarrow> ('h, 'r, 'x) sched \<Rightarrow> ('h, 'r, 'x) sched option" where
  "switched_to_dummy p s =
     (if \<not> on_rq (task_of s p) then Some s
      else if rq_curr s = p then Some (resched_task (rq_curr s) s)
      else check_preempt_curr_dummy p 0 s)"

definition prio_changed_dummy :: "nat \<Rightarrow> int \<Rightarrow> ('h, 'r, 'x) sched \<Rightarrow> ('h, 'r, 'x) sched option" where
  "prio_changed_dummy p oldprio s =
     (if \<not> on_rq (task_of s p) then Some s
      else if rq_curr s = p then
        Some (if prio (task_of s p) > oldprio then resched_task p s else s)
      else check_preempt_curr_dummy p 0 s)"

definition get_rr_interval_dummy :: "nat \<Rightarrow> ('h, 'r, 'x) sched \<Rightarrow> u32" where
  "get_rr_interval_dummy p s = get_timeslice s"

section \<open>The queues\<close>

definition queues :: "nat set" where
  "queues = {..<DUMMY_QUEUE_SIZE}"

definition queue :: "'h list_ops \<Rightarrow> ('h, 'r, 'x) sched \<Rightarrow> nat \<Rightarrow> nat list" where
  "queue L s i = l_each L i (links s)"

definition queued :: "'h list_ops \<Rightarrow> ('h, 'r, 'x) sched \<Rightarrow> nat list" where
  "queued L s = concat (map (queue L s) [0..<DUMMY_QUEUE_SIZE])"

text \<open>
  The invariant: the lists are well formed, and a task is queued at its own priority's queue or, by
  aging, at one above it.
\<close>

definition dummy_inv :: "'h list_ops \<Rightarrow> (nat set \<Rightarrow> 'h \<Rightarrow> bool) \<Rightarrow> ('h, 'r, 'x) sched \<Rightarrow> bool" where
  "dummy_inv L ok s \<longleftrightarrow> ok queues (links s)
     \<and> (\<forall>i\<in>queues. \<forall>p\<in>set (queue L s i). \<exists>b. queue_index (task_of s p) = Some b \<and> i \<le> b)"

lemma queue_index_bound: "queue_index t = Some b \<Longrightarrow> b \<in> queues"
  by (auto simp: queue_index_def queues_def Let_def split: if_splits)

lemma set_queued: "set (queued L s) = (\<Union>i\<in>queues. set (queue L s i))"
  by (auto simp: queued_def queues_def)

lemma queue_index_cong: "prio t = prio u \<Longrightarrow> queue_index t = queue_index u"
  by (simp add: queue_index_def)

lemma set_age_frame [simp]:
  "links (set_age p a s) = links s" "nr_running (set_age p a s) = nr_running s"
  "rq_curr (set_age p a s) = rq_curr s" "dummy_timeslice (set_age p a s) = dummy_timeslice s"
  "sysctl_age_threshold (set_age p a s) = sysctl_age_threshold s"
  "sysctl_timeslice (set_age p a s) = sysctl_timeslice s"
  "task_of (set_age p a s) q = (if q = p then (task_of s p)\<lparr>dummy_age_tick := a\<rparr> else task_of s q)"
  "queue L (set_age p a s) = queue L s"
  by (simp_all add: set_age_def queue_def [abs_def])

lemma resched_frame [simp]:
  "links (resched_task p s) = links s" "nr_running (resched_task p s) = nr_running s"
  "rq_curr (resched_task p s) = rq_curr s" "dummy_timeslice (resched_task p s) = dummy_timeslice s"
  "sysctl_age_threshold (resched_task p s) = sysctl_age_threshold s"
  "sysctl_timeslice (resched_task p s) = sysctl_timeslice s"
  "task_of (resched_task p s) q = (if q = p then (task_of s p)\<lparr>need_resched := True\<rparr> else task_of s q)"
  "queue L (resched_task p s) = queue L s"
  by (simp_all add: flag_defs queue_def [abs_def])

text \<open>What an operation of the class leaves alone in the tasks: everything but the age and the
  reschedule flag.\<close>

definition task_core :: "task \<Rightarrow> task" where
  "task_core t = t\<lparr>dummy_age_tick := 0, need_resched := False\<rparr>"

definition same_tasks :: "('h, 'r, 'x) sched \<Rightarrow> ('h, 'r, 'x) sched \<Rightarrow> bool" where
  "same_tasks s t \<longleftrightarrow> (\<forall>p. task_core (task_of t p) = task_core (task_of s p))
     \<and> rq_curr t = rq_curr s \<and> sysctl_age_threshold t = sysctl_age_threshold s
     \<and> sysctl_timeslice t = sysctl_timeslice s"

lemma same_tasks_refl: "same_tasks s s"
  by (simp add: same_tasks_def)

lemma same_tasks_trans: "same_tasks s t \<Longrightarrow> same_tasks t u \<Longrightarrow> same_tasks s u"
  by (simp add: same_tasks_def)

lemma task_core_prio: "task_core t = task_core u \<Longrightarrow> prio t = prio u"
proof -
  assume "task_core t = task_core u"
  from arg_cong [OF this, of prio] show ?thesis by (simp add: task_core_def)
qed

lemma same_tasks_index: "same_tasks s t \<Longrightarrow> queue_index (task_of t p) = queue_index (task_of s p)"
  by (rule queue_index_cong, rule task_core_prio) (simp add: same_tasks_def)

lemma same_tasks_updates [simp]:
  "same_tasks s (set_age p a t) = same_tasks s t" "same_tasks s (resched_task p t) = same_tasks s t"
  "same_tasks s (t\<lparr>links := h\<rparr>) = same_tasks s t" "same_tasks s (t\<lparr>nr_running := n\<rparr>) = same_tasks s t"
  "same_tasks s (t\<lparr>dummy_timeslice := k\<rparr>) = same_tasks s t"
  by (auto simp: same_tasks_def task_core_def)

section \<open>What each operation does to the queues\<close>

context klist
begin

lemma enqueue_task_dummy_eq:
  assumes "ok queues (links s)" and "p \<notin> set (queued L s)" and "queue_index (task_of s p) = Some b"
  shows "\<exists>t. enqueue_task_dummy L p flags s = Some t \<and> ok queues (links t) \<and> same_tasks s t
     \<and> (\<forall>i\<in>queues. queue L t i = queue L s i @ (if i = b then [p] else []))
     \<and> nr_running t = nr_running s + 1 \<and> dummy_timeslice t = dummy_timeslice s
     \<and> (\<forall>q. q \<noteq> p \<longrightarrow> task_of t q = task_of s q)"
proof -
  let ?t = "inc_nr_running ((set_age p 0 s)\<lparr>links := l_add_tail L p b (links s)\<rparr>)"
  have b: "b \<in> queues" using assms(3) by (rule queue_index_bound)
  have new: "\<forall>r\<in>queues. p \<notin> set (l_each L r (links s))"
    using assms(2) by (auto simp: set_queued queue_def)
  have "enqueue_task_dummy L p flags s = Some ?t"
    using assms(3) by (simp add: enqueue_task_dummy_def enqueue_dummy_entity_def queue_index_def)
  moreover have "ok queues (links ?t)" using wf_add [OF assms(1) b new] by (simp add: inc_nr_running_def)
  moreover have "same_tasks s ?t" by (simp add: inc_nr_running_def same_tasks_refl)
  moreover have "\<forall>i\<in>queues. queue L ?t i = queue L s i @ (if i = b then [p] else [])"
    using each_add [OF assms(1) b _ new] by (simp add: queue_def inc_nr_running_def)
  ultimately show ?thesis by (simp add: inc_nr_running_def)
qed

lemma dequeue_task_dummy_eq:
  assumes "ok queues (links s)"
  shows "\<exists>t. dequeue_task_dummy L p flags s = Some t \<and> ok queues (links t) \<and> same_tasks s t
     \<and> (\<forall>i\<in>queues. queue L t i = removeAll p (queue L s i))
     \<and> nr_running t = nr_running s - 1 \<and> dummy_timeslice t = dummy_timeslice s
     \<and> task_of t = task_of s"
  using wf_del [OF assms] each_del [OF assms]
  by (simp add: dequeue_task_dummy_def dequeue_dummy_entity_def dec_nr_running_def queue_def same_tasks_refl)

lemma requeue_task_dummy_eq:
  assumes "ok queues (links s)" and "queue_index (task_of s p) = Some b"
  shows "\<exists>t. requeue_task_dummy L p flags s = Some t \<and> ok queues (links t) \<and> same_tasks s t
     \<and> (\<forall>i\<in>queues. queue L t i = removeAll p (queue L s i) @ (if i = b then [p] else []))
     \<and> nr_running t = nr_running s \<and> dummy_timeslice t = dummy_timeslice s
     \<and> (\<forall>q. q \<noteq> p \<longrightarrow> task_of t q = task_of s q) \<and> need_resched (task_of t p)"
proof -
  obtain s1 where 1: "dequeue_task_dummy L p flags s = Some s1" "ok queues (links s1)" "same_tasks s s1"
      "\<forall>i\<in>queues. queue L s1 i = removeAll p (queue L s i)" "nr_running s1 = nr_running s - 1"
      "dummy_timeslice s1 = dummy_timeslice s" "task_of s1 = task_of s"
    using dequeue_task_dummy_eq [OF assms(1)] by blast
  have "p \<notin> set (queued L s1)" using 1(4) by (auto simp: set_queued)
  then obtain s2 where 2: "enqueue_task_dummy L p flags s1 = Some s2" "ok queues (links s2)" "same_tasks s1 s2"
      "\<forall>i\<in>queues. queue L s2 i = queue L s1 i @ (if i = b then [p] else [])"
      "nr_running s2 = nr_running s1 + 1" "dummy_timeslice s2 = dummy_timeslice s1"
      "\<forall>q. q \<noteq> p \<longrightarrow> task_of s2 q = task_of s1 q"
    using enqueue_task_dummy_eq [OF 1(2)] assms(2) 1(7) by metis
  show ?thesis
    using 1 2 same_tasks_trans [OF 1(3) 2(3)]
    by (intro exI [of _ "resched_task p s2"]) (simp add: requeue_task_dummy_def)
qed

lemma dummy_invD: "dummy_inv L ok s \<Longrightarrow> i \<in> queues \<Longrightarrow> p \<in> set (queue L s i) \<Longrightarrow>
    \<exists>b. queue_index (task_of s p) = Some b \<and> i \<le> b"
  by (auto simp: dummy_inv_def)

lemma queue_unique:
  "ok queues (links s) \<Longrightarrow> i \<in> queues \<Longrightarrow> j \<in> queues \<Longrightarrow> p \<in> set (queue L s i) \<Longrightarrow> p \<in> set (queue L s j) \<Longrightarrow> i = j"
  unfolding queue_def by (rule wf_disjoint)

lemma distinct_queued: "ok queues (links s) \<Longrightarrow> distinct (queued L s)"
proof -
  assume ok: "ok queues (links s)"
  have "distinct (concat (map (queue L s) xs))" if "distinct xs" "set xs \<subseteq> queues" for xs
    using that
  proof (induction xs)
    case (Cons x xs)
    have "set (queue L s x) \<inter> (\<Union>y\<in>set xs. set (queue L s y)) = {}"
      using Cons.prems queue_unique [OF ok, of x] by fastforce
    moreover have "distinct (queue L s x)" using Cons.prems wf_distinct [OF ok] by (simp add: queue_def)
    ultimately show ?case using Cons by auto
  qed simp
  from this [of "[0..<DUMMY_QUEUE_SIZE]"] show ?thesis
    by (simp add: queued_def queues_def atLeast0LessThan)
qed

lemma length_queued: "ok queues (links s) \<Longrightarrow> length (queued L s) = card (set (queued L s))"
  by (simp add: distinct_card distinct_queued)

text \<open>The aging of one entry, from the queue it is in.\<close>

definition aged :: "nat \<Rightarrow> ('h, 'r, 'x) sched \<Rightarrow> ('h, 'r, 'x) sched \<Rightarrow> nat \<Rightarrow> bool" where
  "aged i s t p \<longleftrightarrow>
     (if dummy_age_tick (task_of s p) > sysctl_age_threshold s
      then p \<in> set (queue L t (i - 1)) \<and> dummy_age_tick (task_of t p) = 0
      else p \<in> set (queue L t i) \<and> dummy_age_tick (task_of t p) = dummy_age_tick (task_of s p) + 1)"

definition untouched :: "('h, 'r, 'x) sched \<Rightarrow> ('h, 'r, 'x) sched \<Rightarrow> nat \<Rightarrow> bool" where
  "untouched s t p \<longleftrightarrow> task_of t p = task_of s p
     \<and> (\<forall>j\<in>queues. p \<in> set (queue L t j) \<longleftrightarrow> p \<in> set (queue L s j))"

lemma age_entry_eq:
  assumes "dummy_inv L ok s" and "i \<in> queues" and "0 < i" and "p \<in> set (queue L s i)"
  shows "dummy_inv L ok (age_entry L i p s) \<and> same_tasks s (age_entry L i p s)
     \<and> nr_running (age_entry L i p s) = nr_running s \<and> dummy_timeslice (age_entry L i p s) = dummy_timeslice s
     \<and> aged i s (age_entry L i p s) p \<and> (\<forall>q. q \<noteq> p \<longrightarrow> untouched s (age_entry L i p s) q)"
proof -
  let ?t = "age_entry L i p s"
  have ok: "ok queues (links s)" and i1: "i - 1 \<in> queues"
    using assms by (auto simp: dummy_inv_def queues_def)
  obtain b where b: "queue_index (task_of s p) = Some b" "i \<le> b" using dummy_invD [OF assms(1,2,4)] by blast
  have st: "same_tasks s ?t" by (simp add: age_entry_def Let_def same_tasks_refl)
  show ?thesis
  proof (cases "dummy_age_tick (task_of s p) > sysctl_age_threshold s")
    case True
    have q: "queue L ?t j = removeAll p (queue L s j) @ (if j = i - 1 then [p] else [])" if "j \<in> queues" for j
      using True each_move [OF ok i1 that] by (simp add: age_entry_def Let_def get_age_threshold_def queue_def)
    have "ok queues (links ?t)"
      using True wf_move [OF ok i1] by (simp add: age_entry_def Let_def get_age_threshold_def)
    moreover have "\<exists>b. queue_index (task_of ?t r) = Some b \<and> j \<le> b" if "j \<in> queues" "r \<in> set (queue L ?t j)" for j r
      using that q [OF that(1)] b dummy_invD [OF assms(1) that(1), of r] same_tasks_index [OF st]
      by (auto split: if_splits)
    ultimately have "dummy_inv L ok ?t" by (simp add: dummy_inv_def)
    moreover have "aged i s ?t p"
      using True q [OF i1] by (simp add: aged_def age_entry_def Let_def get_age_threshold_def)
    moreover have "untouched s ?t r" if "r \<noteq> p" for r
      using that q by (auto simp: untouched_def age_entry_def Let_def)
    ultimately show ?thesis using st by (simp add: age_entry_def Let_def)
  next
    case False
    have t: "?t = set_age p (dummy_age_tick (task_of s p) + 1) s"
      using False by (simp add: age_entry_def Let_def get_age_threshold_def)
    have "\<exists>b. queue_index (task_of ?t r) = Some b \<and> j \<le> b" if "j \<in> queues" "r \<in> set (queue L s j)" for j r
      using dummy_invD [OF assms(1) that] same_tasks_index [OF st] by simp
    then have "dummy_inv L ok ?t" using ok t by (simp add: dummy_inv_def)
    then show ?thesis using st False assms(4) t by (simp add: aged_def untouched_def)
  qed
qed

lemma age_fold:
  assumes "dummy_inv L ok s" and "i \<in> queues" and "0 < i" and "distinct xs" and "set xs \<subseteq> set (queue L s i)"
  shows "dummy_inv L ok (fold (age_entry L i) xs s) \<and> same_tasks s (fold (age_entry L i) xs s)
     \<and> nr_running (fold (age_entry L i) xs s) = nr_running s
     \<and> dummy_timeslice (fold (age_entry L i) xs s) = dummy_timeslice s
     \<and> (\<forall>p\<in>set xs. aged i s (fold (age_entry L i) xs s) p)
     \<and> (\<forall>p. p \<notin> set xs \<longrightarrow> untouched s (fold (age_entry L i) xs s) p)"
  using assms(1,4,5)
proof (induction xs arbitrary: s)
  case Nil
  then show ?case by (simp add: same_tasks_refl untouched_def)
next
  case (Cons x xs)
  let ?s1 = "age_entry L i x s" let ?t = "fold (age_entry L i) xs ?s1"
  have x: "dummy_inv L ok ?s1" "same_tasks s ?s1" "nr_running ?s1 = nr_running s"
      "dummy_timeslice ?s1 = dummy_timeslice s" "aged i s ?s1 x" "\<forall>q. q \<noteq> x \<longrightarrow> untouched s ?s1 q"
    using age_entry_eq [OF Cons.prems(1) assms(2,3), of x] Cons.prems(3) by auto
  have "set xs \<subseteq> set (queue L ?s1 i)"
  proof
    fix y assume "y \<in> set xs"
    with Cons.prems have "y \<noteq> x" "y \<in> set (queue L s i)" by auto
    with x(6) assms(2) show "y \<in> set (queue L ?s1 i)" by (simp add: untouched_def)
  qed
  then have t: "dummy_inv L ok ?t" "same_tasks ?s1 ?t" "nr_running ?t = nr_running ?s1"
      "dummy_timeslice ?t = dummy_timeslice ?s1" "\<forall>p\<in>set xs. aged i ?s1 ?t p"
      "\<forall>p. p \<notin> set xs \<longrightarrow> untouched ?s1 ?t p"
    using Cons.IH [OF x(1)] Cons.prems(2) by auto
  have i1: "i - 1 \<in> queues" using assms(2) by (auto simp: queues_def)
  have thr: "sysctl_age_threshold ?s1 = sysctl_age_threshold s" using x(2) by (simp add: same_tasks_def)
  have "aged i s ?t x"
    using x(5) t(6) Cons.prems(2) assms(2) i1 by (auto simp: aged_def untouched_def split: if_splits)
  moreover have "aged i s ?t p" if "p \<in> set xs" for p
  proof -
    have "p \<noteq> x" using that Cons.prems(2) by auto
    then have "task_of ?s1 p = task_of s p" using x(6) by (simp add: untouched_def)
    moreover have "aged i ?s1 ?t p" using t(5) that by blast
    ultimately show ?thesis using thr by (simp add: aged_def split: if_splits)
  qed
  moreover have "untouched s ?t p" if "p \<notin> set (x # xs)" for p
    using that t(6) x(6) by (auto simp: untouched_def)
  ultimately show ?case
    using t x same_tasks_trans [OF x(2) t(2)] by simp
qed

lemma untouched_trans: "untouched s t p \<Longrightarrow> untouched t u p \<Longrightarrow> untouched s u p"
  by (simp add: untouched_def)

lemma age_queue_eq:
  assumes "dummy_inv L ok s" and "i \<in> queues" and "0 < i"
  shows "dummy_inv L ok (age_queue L i s) \<and> same_tasks s (age_queue L i s)
     \<and> nr_running (age_queue L i s) = nr_running s \<and> dummy_timeslice (age_queue L i s) = dummy_timeslice s
     \<and> (\<forall>p\<in>set (queue L s i). aged i s (age_queue L i s) p)
     \<and> (\<forall>p. p \<notin> set (queue L s i) \<longrightarrow> untouched s (age_queue L i s) p)"
  using age_fold [OF assms, of "queue L s i"] wf_distinct [of queues "links s" i] assms
  by (simp add: age_queue_def queue_def dummy_inv_def)

text \<open>The passes over several queues, lower numbers first: a task is aged in its own queue's pass,
  and the pass that may move it down one number comes after the pass of that number.\<close>

lemma age_passes:
  assumes "dummy_inv L ok s" and "0 < a" and "{a..<b} \<subseteq> queues"
  shows "dummy_inv L ok (fold (age_queue L) [a..<b] s) \<and> same_tasks s (fold (age_queue L) [a..<b] s)
     \<and> nr_running (fold (age_queue L) [a..<b] s) = nr_running s
     \<and> dummy_timeslice (fold (age_queue L) [a..<b] s) = dummy_timeslice s
     \<and> (\<forall>i\<in>{a..<b}. \<forall>p\<in>set (queue L s i). aged i s (fold (age_queue L) [a..<b] s) p)
     \<and> (\<forall>p. (\<forall>i\<in>{a..<b}. p \<notin> set (queue L s i)) \<longrightarrow> untouched s (fold (age_queue L) [a..<b] s) p)"
  using assms(3)
proof (induction b)
  case 0
  then show ?case using assms(1) by (simp add: same_tasks_refl untouched_def)
next
  case (Suc b)
  show ?case
  proof (cases "a \<le> b")
    case False
    then show ?thesis using assms(1) by (simp add: same_tasks_refl untouched_def)
  next
    case True
    let ?s1 = "fold (age_queue L) [a..<b] s" let ?t = "age_queue L b ?s1"
    have b: "b \<in> queues" "0 < b" using Suc.prems True assms(2) by auto
    have "{a..<b} \<subseteq> queues" using Suc.prems by auto
    then have IH: "dummy_inv L ok ?s1" "same_tasks s ?s1" "nr_running ?s1 = nr_running s"
        "dummy_timeslice ?s1 = dummy_timeslice s" "\<forall>i\<in>{a..<b}. \<forall>p\<in>set (queue L s i). aged i s ?s1 p"
        "\<forall>p. (\<forall>i\<in>{a..<b}. p \<notin> set (queue L s i)) \<longrightarrow> untouched s ?s1 p"
      using Suc.IH by auto
    have t: "dummy_inv L ok ?t" "same_tasks ?s1 ?t" "nr_running ?t = nr_running ?s1"
        "dummy_timeslice ?t = dummy_timeslice ?s1" "\<forall>p\<in>set (queue L ?s1 b). aged b ?s1 ?t p"
        "\<forall>p. p \<notin> set (queue L ?s1 b) \<longrightarrow> untouched ?s1 ?t p"
      using age_queue_eq [OF IH(1) b] by auto
    have ok: "ok queues (links s)" "ok queues (links ?s1)" using assms(1) IH(1) by (auto simp: dummy_inv_def)
    have thr: "sysctl_age_threshold ?s1 = sysctl_age_threshold s" using IH(2) by (simp add: same_tasks_def)
    have old: "aged i s ?t p" if "i \<in> {a..<b}" "p \<in> set (queue L s i)" for i p
    proof -
      have "i \<in> queues" using that(1) Suc.prems by auto
      then have i: "i \<in> queues" "i - 1 \<in> queues" by (auto simp: queues_def)
      have ag: "aged i s ?s1 p" using IH(5) that by blast
      then have "p \<notin> set (queue L ?s1 b)"
        using queue_unique [OF ok(2) b(1), of i p] queue_unique [OF ok(2) b(1), of "i - 1" p] i that(1)
        by (auto simp: aged_def split: if_splits)
      with t(6) ag i show ?thesis by (auto simp: aged_def untouched_def split: if_splits)
    qed
    have new: "aged b s ?t p" if "p \<in> set (queue L s b)" for p
    proof -
      have "untouched s ?s1 p"
        using IH(6) that queue_unique [OF ok(1) b(1) _ that] Suc.prems by fastforce
      then show ?thesis using t(5) that b(1) thr by (auto simp: aged_def untouched_def split: if_splits)
    qed
    have "untouched s ?t p" if "\<forall>i\<in>{a..<Suc b}. p \<notin> set (queue L s i)" for p
    proof -
      have "untouched s ?s1 p" using IH(6) that by simp
      moreover from this have "p \<notin> set (queue L ?s1 b)" using that True b(1) by (simp add: untouched_def)
      ultimately show ?thesis using t(6) untouched_trans by blast
    qed
    moreover have "\<forall>i\<in>{a..<Suc b}. \<forall>p\<in>set (queue L s i). aged i s ?t p"
      using old new by (auto simp: less_Suc_eq)
    ultimately show ?thesis
      using True t IH same_tasks_trans [OF IH(2) t(2)] by simp
  qed
qed

end

end
