(* ===== verification/Sched_Load.thy ===== *)
theory Sched_Load
  imports Sched_State "HOL-Library.Signed_Division"
begin

text \<open>
  Load averages of \<open>kernel/sched/core.c\<close>, with \<open>CONFIG_NO_HZ\<close>: the global averages in fixed point
  (\<open>avenrun\<close>), their catch-up after idle periods, and the per-processor \<open>cpu_load\<close> with its decay
  tables.  Values of type \<open>long\<close> are words read with \<open>sint\<close> where their sign matters.
\<close>

section \<open>Definitions\<close>

definition FSHIFT :: nat where "FSHIFT = 11"
definition FIXED_1 :: u64 where "FIXED_1 = push_bit FSHIFT 1"
definition LOAD_FREQ :: u64 where "LOAD_FREQ = 501"
definition EXP_1 :: u64 where "EXP_1 = 1884"
definition EXP_5 :: u64 where "EXP_5 = 2014"
definition EXP_15 :: u64 where "EXP_15 = 2037"

definition time_before :: "u64 \<Rightarrow> u64 \<Rightarrow> bool" where
  "time_before a b \<longleftrightarrow> sint (a - b) < 0"

definition get_avenrun :: "u64 \<Rightarrow> nat \<Rightarrow> load_glob \<Rightarrow> u64 list" where
  "get_avenrun offset shift g =
     [push_bit shift (avenrun g ! 0 + offset), push_bit shift (avenrun g ! 1 + offset),
      push_bit shift (avenrun g ! 2 + offset)]"

definition calc_load_fold_active :: "('h, 'r, 'x) sched \<Rightarrow> u64 \<times> ('h, 'r, 'x) sched" where
  "calc_load_fold_active s =
     (let nr_active = ucast (nr_running s) + nr_uninterruptible s in
      if nr_active \<noteq> calc_load_active (rq_acct s) then
        (nr_active - calc_load_active (rq_acct s),
         s\<lparr>rq_acct := (rq_acct s)\<lparr>calc_load_active := nr_active\<rparr>\<rparr>)
      else (0, s))"

definition calc_load :: "u64 \<Rightarrow> u64 \<Rightarrow> u64 \<Rightarrow> u64" where
  "calc_load load ex active =
     drop_bit FSHIFT (load * ex + active * (FIXED_1 - ex) + push_bit (FSHIFT - 1) 1)"

definition calc_load_write_idx :: "('h, 'r, 'x) sched \<Rightarrow> nat" where
  "calc_load_write_idx s =
     (let idx = calc_load_idx (loadavg s);
          idx1 = (if \<not> time_before (jiffies s) (calc_load_update (loadavg s)) then idx + 1 else idx)
      in unat (idx1 AND 1))"

definition calc_load_read_idx :: "('h, 'r, 'x) sched \<Rightarrow> nat" where
  "calc_load_read_idx s = unat (calc_load_idx (loadavg s) AND 1)"

definition upd_loadavg :: "(load_glob \<Rightarrow> load_glob) \<Rightarrow> ('h, 'r, 'x) sched \<Rightarrow> ('h, 'r, 'x) sched" where
  "upd_loadavg f s = s\<lparr>loadavg := f (loadavg s)\<rparr>"

definition upd_acct :: "(rq_load_acct \<Rightarrow> rq_load_acct) \<Rightarrow> ('h, 'r, 'x) sched \<Rightarrow> ('h, 'r, 'x) sched" where
  "upd_acct f s = s\<lparr>rq_acct := f (rq_acct s)\<rparr>"

definition calc_load_enter_idle :: "('h, 'r, 'x) sched \<Rightarrow> ('h, 'r, 'x) sched" where
  "calc_load_enter_idle s =
     (let (delta, s1) = calc_load_fold_active s in
      if delta \<noteq> 0 then
        let idx = calc_load_write_idx s1
        in upd_loadavg (\<lambda>g. g\<lparr>calc_load_idle := (calc_load_idle g)[idx := calc_load_idle g ! idx + delta]\<rparr>) s1
      else s1)"

definition calc_load_exit_idle :: "('h, 'r, 'x) sched \<Rightarrow> ('h, 'r, 'x) sched" where
  "calc_load_exit_idle s =
     (if time_before (jiffies s) (rq_calc_load_update (rq_acct s)) then s
      else let u = calc_load_update (loadavg s);
               u1 = (if time_before (jiffies s) (u + 10) then u + LOAD_FREQ else u)
           in upd_acct (rq_calc_load_update_update (\<lambda>_. u1)) s)"

definition calc_load_fold_idle :: "('h, 'r, 'x) sched \<Rightarrow> u64 \<times> ('h, 'r, 'x) sched" where
  "calc_load_fold_idle s =
     (let idx = calc_load_read_idx s; d = calc_load_idle (loadavg s) ! idx in
      if d \<noteq> 0 then (d, upd_loadavg (\<lambda>g. g\<lparr>calc_load_idle := (calc_load_idle g)[idx := 0]\<rparr>) s)
      else (0, s))"

text \<open>\<open>x * y\<close> in fixed point, rounded.\<close>

definition fixed_mult :: "nat \<Rightarrow> u64 \<Rightarrow> u64 \<Rightarrow> u64" where
  "fixed_mult frac_bits x y = drop_bit frac_bits (x * y + push_bit (frac_bits - 1) 1)"

lemma drop_bit_1_less: "(n :: u32) \<noteq> 0 \<Longrightarrow> unat (drop_bit 1 n) < unat n"
  by (simp add: drop_bit_eq_div unat_div unat_gt_0)

text \<open>The loop of \<open>fixed_power_int\<close>, entered with \<open>n\<close> not 0.\<close>

function fixed_power_loop :: "nat \<Rightarrow> u64 \<Rightarrow> u64 \<Rightarrow> u32 \<Rightarrow> u64" where
  "fixed_power_loop frac_bits result x n =
     (let result1 = (if n AND 1 \<noteq> 0 then fixed_mult frac_bits result x else result);
          n1 = drop_bit 1 n
      in if n1 = 0 then result1 else fixed_power_loop frac_bits result1 (fixed_mult frac_bits x x) n1)"
  by pat_completeness auto

termination
proof (relation "measure (\<lambda>(f, r, x, n). unat n)", goal_cases)
  case (2 frac_bits result x n result1 n1)
  then have "n \<noteq> 0" by auto
  with 2 show ?case using drop_bit_1_less by auto
qed simp

definition fixed_power_int :: "u64 \<Rightarrow> nat \<Rightarrow> u32 \<Rightarrow> u64" where
  "fixed_power_int x frac_bits n =
     (let result = push_bit frac_bits 1 in
      if n \<noteq> 0 then fixed_power_loop frac_bits result x n else result)"

definition calc_load_n :: "u64 \<Rightarrow> u64 \<Rightarrow> u64 \<Rightarrow> u32 \<Rightarrow> u64" where
  "calc_load_n load ex active n = calc_load load (fixed_power_int ex FSHIFT n) active"

definition active_load :: "u64 \<Rightarrow> u64" where
  "active_load tasks = (if sint tasks > 0 then tasks * FIXED_1 else 0)"

definition calc_global_nohz :: "('h, 'r, 'x) sched \<Rightarrow> ('h, 'r, 'x) sched" where
  "calc_global_nohz s =
     (let s1 =
        (if \<not> time_before (jiffies s) (calc_load_update (loadavg s) + 10) then
           let delta = jiffies s - calc_load_update (loadavg s) - 10;
               n = 1 + word_of_int (sint delta sdiv sint LOAD_FREQ) :: u64;
               active = active_load (calc_load_tasks (loadavg s));
               k = ucast n :: u32
           in upd_loadavg (\<lambda>g. g\<lparr>avenrun := [calc_load_n (avenrun g ! 0) EXP_1 active k,
                  calc_load_n (avenrun g ! 1) EXP_5 active k, calc_load_n (avenrun g ! 2) EXP_15 active k],
                calc_load_update := calc_load_update g + n * LOAD_FREQ\<rparr>) s
         else s)
      in upd_loadavg (calc_load_idx_update (\<lambda>i. i + 1)) s1)"

definition calc_global_load :: "('h, 'r, 'x) sched \<Rightarrow> ('h, 'r, 'x) sched" where
  "calc_global_load s =
     (if time_before (jiffies s) (calc_load_update (loadavg s) + 10) then s
      else
        let (delta, s1) = calc_load_fold_idle s;
            s2 = (if delta \<noteq> 0 then upd_loadavg (calc_load_tasks_update (\<lambda>t. t + delta)) s1 else s1);
            active = active_load (calc_load_tasks (loadavg s2));
            s3 = upd_loadavg (\<lambda>g. g\<lparr>avenrun := [calc_load (avenrun g ! 0) EXP_1 active,
                   calc_load (avenrun g ! 1) EXP_5 active, calc_load (avenrun g ! 2) EXP_15 active],
                 calc_load_update := calc_load_update g + LOAD_FREQ\<rparr>) s2
        in calc_global_nohz s3)"

definition calc_load_account_active :: "('h, 'r, 'x) sched \<Rightarrow> ('h, 'r, 'x) sched" where
  "calc_load_account_active s =
     (if time_before (jiffies s) (rq_calc_load_update (rq_acct s)) then s
      else
        let (delta, s1) = calc_load_fold_active s;
            s2 = (if delta \<noteq> 0 then upd_loadavg (calc_load_tasks_update (\<lambda>t. t + delta)) s1 else s1)
        in upd_acct (rq_calc_load_update_update (\<lambda>u. u + LOAD_FREQ)) s2)"

section \<open>The load of a processor\<close>

definition CPU_LOAD_IDX_MAX :: nat where "CPU_LOAD_IDX_MAX = 5"
definition DEGRADE_SHIFT :: nat where "DEGRADE_SHIFT = 7"

definition degrade_zero_ticks :: "nat list" where
  "degrade_zero_ticks = [0, 8, 32, 64, 128]"

definition degrade_factor :: "nat list list" where
  "degrade_factor =
    [[0, 0, 0, 0, 0, 0, 0, 0],
     [64, 32, 8, 0, 0, 0, 0, 0],
     [96, 72, 40, 12, 1, 0, 0, 0],
     [112, 98, 75, 43, 15, 1, 0, 0],
     [120, 112, 98, 76, 45, 16, 2, 0]]"

function decay_loop :: "nat list \<Rightarrow> u64 \<Rightarrow> nat \<Rightarrow> nat \<Rightarrow> u64" where
  "decay_loop row load missed j =
     (if missed = 0 then load
      else decay_loop row
             (if missed mod 2 \<noteq> 0 then drop_bit DEGRADE_SHIFT (load * of_nat (row ! j)) else load)
             (missed div 2) (j + 1))"
  by pat_completeness auto

termination
  by (relation "measure (\<lambda>(row, load, missed, j). missed)") auto

definition decay_load_missed :: "u64 \<Rightarrow> u64 \<Rightarrow> nat \<Rightarrow> u64" where
  "decay_load_missed load missed_updates idx =
     (let missed = unat missed_updates in
      if missed = 0 then load
      else if missed \<ge> degrade_zero_ticks ! idx then 0
      else if idx = 1 then drop_bit missed load
      else decay_loop (degrade_factor ! idx) load missed 0)"

definition new_cpu_load :: "u64 \<Rightarrow> u64 \<Rightarrow> nat \<Rightarrow> u64 \<Rightarrow> u64" where
  "new_cpu_load this_load pending i cur =
     (let scale = 2 ^ i;
          old_load = decay_load_missed cur (pending - 1) i;
          new_load = (if this_load > old_load then this_load + (scale - 1) else this_load)
      in drop_bit i (old_load * (scale - 1) + new_load))"

definition raw_update_cpu_load :: "u64 \<Rightarrow> u64 \<Rightarrow> ('h, 'r, 'x) sched \<Rightarrow> ('h, 'r, 'x) sched" where
  "raw_update_cpu_load this_load pending_updates =
     upd_acct (\<lambda>a. a\<lparr>nr_load_updates := nr_load_updates a + 1,
       cpu_load := this_load #
         map (\<lambda>i. new_cpu_load this_load pending_updates i (cpu_load a ! i)) [1..<CPU_LOAD_IDX_MAX]\<rparr>)"

definition update_idle_cpu_load :: "('h, 'r, 'x) sched \<Rightarrow> ('h, 'r, 'x) sched" where
  "update_idle_cpu_load s =
     (let load = weight (rq_load s); last = last_load_update_tick (rq_acct s) in
      if load \<noteq> 0 \<or> jiffies s = last then s
      else raw_update_cpu_load load (jiffies s - last)
             (upd_acct (last_load_update_tick_update (\<lambda>_. jiffies s)) s))"

definition update_cpu_load_nohz :: "('h, 'r, 'x) sched \<Rightarrow> ('h, 'r, 'x) sched" where
  "update_cpu_load_nohz s =
     (let last = last_load_update_tick (rq_acct s); pending = jiffies s - last in
      if jiffies s = last then s
      else if pending \<noteq> 0 then
        raw_update_cpu_load 0 pending (upd_acct (last_load_update_tick_update (\<lambda>_. jiffies s)) s)
      else s)"

definition update_cpu_load_active :: "('h, 'r, 'x) sched \<Rightarrow> ('h, 'r, 'x) sched" where
  "update_cpu_load_active s =
     (let s1 = upd_acct (last_load_update_tick_update (\<lambda>_. jiffies s)) s
      in calc_load_account_active (raw_update_cpu_load (weight (rq_load s1)) 1 s1))"

end
