(* ===== verification/Sched_Core.thy ===== *)
theory Sched_Core
  imports Sched_Fair Sched_Dummy Sched_Load
begin

text \<open>
  The core of the scheduler in \<open>kernel/sched/core.c\<close>, first part: the scheduling classes and their
  order, queueing through a class, priorities, preemption by a class, wakeups and the set-up of
  forked tasks.

  The fair and dummy classes are the modelled ones.  The real-time, stop and idle classes are not in
  the repository and are the component \<open>ext_class\<close> of the environment \<open>core_env\<close>, as are the hooks that
  core.c calls elsewhere in the kernel.
\<close>

section \<open>Classes and environment\<close>

text \<open>\<open>struct sched_class\<close> on one processor; a method that may be \<open>NULL\<close> is an option.\<close>

record ('h, 'r, 'x) class_ops =
  c_enqueue_task :: "nat \<Rightarrow> int \<Rightarrow> ('h, 'r, 'x) sched \<Rightarrow> ('h, 'r, 'x) sched option"
  c_dequeue_task :: "nat \<Rightarrow> int \<Rightarrow> ('h, 'r, 'x) sched \<Rightarrow> ('h, 'r, 'x) sched option"
  c_yield_task :: "('h, 'r, 'x) sched \<Rightarrow> ('h, 'r, 'x) sched option"
  c_yield_to_task :: "(nat \<Rightarrow> ('h, 'r, 'x) sched \<Rightarrow> (bool \<times> ('h, 'r, 'x) sched) option) option"
  c_check_preempt_curr :: "nat \<Rightarrow> int \<Rightarrow> ('h, 'r, 'x) sched \<Rightarrow> ('h, 'r, 'x) sched option"
  c_pick_next_task :: "('h, 'r, 'x) sched \<Rightarrow> (nat option \<times> ('h, 'r, 'x) sched) option"
  c_put_prev_task :: "nat \<Rightarrow> ('h, 'r, 'x) sched \<Rightarrow> ('h, 'r, 'x) sched option"
  c_set_curr_task :: "('h, 'r, 'x) sched \<Rightarrow> ('h, 'r, 'x) sched option"
  c_task_tick :: "nat \<Rightarrow> int \<Rightarrow> ('h, 'r, 'x) sched \<Rightarrow> ('h, 'r, 'x) sched option"
  c_task_fork :: "(nat \<Rightarrow> ('h, 'r, 'x) sched \<Rightarrow> ('h, 'r, 'x) sched option) option"
  c_switched_from :: "(nat \<Rightarrow> ('h, 'r, 'x) sched \<Rightarrow> ('h, 'r, 'x) sched option) option"
  c_switched_to :: "nat \<Rightarrow> ('h, 'r, 'x) sched \<Rightarrow> ('h, 'r, 'x) sched option"
  c_prio_changed :: "nat \<Rightarrow> int \<Rightarrow> ('h, 'r, 'x) sched \<Rightarrow> ('h, 'r, 'x) sched option"
  c_get_rr_interval :: "nat \<Rightarrow> ('h, 'r, 'x) sched \<Rightarrow> u32 \<times> ('h, 'r, 'x) sched"

text \<open>
  Beside the other classes: the workqueue's hooks, priority inheritance (\<open>rt_mutex_getprio\<close> and
  \<open>rt_mutex_adjust_pi\<close>), capabilities, resource limits and credentials, the security module, the task
  lookup by process number, and whether a task's \<open>preempt_count()\<close> has \<open>PREEMPT_ACTIVE\<close>.
\<close>

record ('h, 'r, 'x) core_env = "('h, 'r, 'x) sched_env" +
  ext_class :: "class_id \<Rightarrow> ('h, 'r, 'x) class_ops"
  wq_worker_waking_up :: "nat \<Rightarrow> 'x \<Rightarrow> 'x"
  wq_worker_sleeping :: "nat \<Rightarrow> 'x \<Rightarrow> nat option \<times> 'x"
  rt_mutex_getprio :: "nat \<Rightarrow> task \<Rightarrow> 'x \<Rightarrow> int"
  rt_mutex_adjust_pi :: "nat \<Rightarrow> ('h, 'r, 'x) sched \<Rightarrow> ('h, 'r, 'x) sched option"
  capable_sys_nice :: "'x \<Rightarrow> bool"
  rlimit_nice :: "nat \<Rightarrow> 'x \<Rightarrow> u64"
  rlimit_rtprio :: "nat \<Rightarrow> 'x \<Rightarrow> u64"
  cred_euid :: "nat \<Rightarrow> 'x \<Rightarrow> u32"
  cred_uid :: "nat \<Rightarrow> 'x \<Rightarrow> u32"
  security_task_setscheduler :: "nat \<Rightarrow> 'x \<Rightarrow> int"
  security_task_setnice :: "nat \<Rightarrow> int \<Rightarrow> 'x \<Rightarrow> int"
  security_task_getscheduler :: "nat \<Rightarrow> 'x \<Rightarrow> int"
  find_task_by_vpid :: "int \<Rightarrow> 'x \<Rightarrow> nat option"
  preempt_active :: "nat \<Rightarrow> 'x \<Rightarrow> bool"

text \<open>The classes in the order of \<open>for_each_class\<close>, following their \<open>next\<close> members.\<close>

definition classes :: "class_id list" where
  "classes = [Stop_class, Rt_class, Fair_class, Dummy_class, Idle_class]"

abbreviation class_of :: "('h, 'r, 'x) sched \<Rightarrow> nat \<Rightarrow> class_id" where
  "class_of s p \<equiv> sched_class (task_of s p)"

section \<open>Preemption by a class\<close>

definition check_preempt_of :: "('h, 'r, 'x) core_env \<Rightarrow> class_id \<Rightarrow> nat \<Rightarrow> int \<Rightarrow> ('h, 'r, 'x) sched \<Rightarrow> ('h, 'r, 'x) sched option" where
  "check_preempt_of E c =
     (case c of
        Fair_class \<Rightarrow> check_preempt_wakeup E
      | Dummy_class \<Rightarrow> check_preempt_curr_dummy
      | _ \<Rightarrow> c_check_preempt_curr (ext_class E c))"

text \<open>The loop over the classes: whether the class of the waking task comes before the current one.\<close>

fun class_preempts :: "class_id list \<Rightarrow> class_id \<Rightarrow> class_id \<Rightarrow> bool" where
  "class_preempts [] cur pc = False"
| "class_preempts (c # cs) cur pc =
     (if c = cur then False else if c = pc then True else class_preempts cs cur pc)"

definition check_preempt_curr :: "('h, 'r, 'x) core_env \<Rightarrow> nat \<Rightarrow> int \<Rightarrow> ('h, 'r, 'x) sched \<Rightarrow> ('h, 'r, 'x) sched option" where
  "check_preempt_curr E p flags s =
     do { s1 \<leftarrow> (if class_of s p = class_of s (rq_curr s)
                then check_preempt_of E (class_of s (rq_curr s)) p flags s
                else Some (if class_preempts classes (class_of s (rq_curr s)) (class_of s p)
                           then resched_task (rq_curr s) s else s));
          Some (if on_rq (task_of s1 (rq_curr s1)) \<and> need_resched (task_of s1 (rq_curr s1))
                then s1\<lparr>skip_clock_update := 1\<rparr> else s1) }"

section \<open>The remaining operations of the fair class, and the class table\<close>

definition prio_changed_fair :: "('h, 'r, 'x) core_env \<Rightarrow> nat \<Rightarrow> int \<Rightarrow> ('h, 'r, 'x) sched \<Rightarrow> ('h, 'r, 'x) sched option" where
  "prio_changed_fair E p oldprio s =
     (if \<not> se_on_rq (se_of s p) then Some s
      else if rq_curr s = p then
        Some (if prio (task_of s p) > oldprio then resched_task (rq_curr s) s else s)
      else check_preempt_curr E p 0 s)"

definition switched_to_fair :: "('h, 'r, 'x) core_env \<Rightarrow> nat \<Rightarrow> ('h, 'r, 'x) sched \<Rightarrow> ('h, 'r, 'x) sched option" where
  "switched_to_fair E p s =
     (if \<not> se_on_rq (se_of s p) then Some s
      else if rq_curr s = p then Some (resched_task (rq_curr s) s)
      else check_preempt_curr E p 0 s)"

definition fair_sched_class :: "('h, 'r, 'x) core_env \<Rightarrow> ('h, 'r, 'x) class_ops" where
  "fair_sched_class E = \<lparr>c_enqueue_task = enqueue_task_fair E, c_dequeue_task = dequeue_task_fair E,
     c_yield_task = yield_task_fair E, c_yield_to_task = Some (yield_to_task_fair E),
     c_check_preempt_curr = check_preempt_wakeup E,
     c_pick_next_task = pick_next_task_fair E, c_put_prev_task = put_prev_task_fair E,
     c_set_curr_task = set_curr_task_fair E, c_task_tick = task_tick_fair,
     c_task_fork = Some (task_fork_fair E),
     c_switched_from = Some (switched_from_fair E), c_switched_to = switched_to_fair E,
     c_prio_changed = prio_changed_fair E, c_get_rr_interval = get_rr_interval_fair\<rparr>"

definition dummy_sched_class :: "('h, 'r, 'x) core_env \<Rightarrow> ('h, 'r, 'x) class_ops" where
  "dummy_sched_class E = \<lparr>c_enqueue_task = enqueue_task_dummy (e_list E),
     c_dequeue_task = dequeue_task_dummy (e_list E),
     c_yield_task = yield_task_dummy (e_list E), c_yield_to_task = None,
     c_check_preempt_curr = check_preempt_curr_dummy,
     c_pick_next_task = pick_next_task_dummy (e_list E), c_put_prev_task = put_prev_task_dummy,
     c_set_curr_task = set_curr_task_dummy, c_task_tick = task_tick_dummy (e_list E),
     c_task_fork = None,
     c_switched_from = Some switched_from_dummy, c_switched_to = switched_to_dummy,
     c_prio_changed = prio_changed_dummy, c_get_rr_interval = (\<lambda>p s. (get_rr_interval_dummy p s, s))\<rparr>"

definition class_table :: "('h, 'r, 'x) core_env \<Rightarrow> class_id \<Rightarrow> ('h, 'r, 'x) class_ops" where
  "class_table E c =
     (case c of Fair_class \<Rightarrow> fair_sched_class E | Dummy_class \<Rightarrow> dummy_sched_class E
      | _ \<Rightarrow> ext_class E c)"

section \<open>Queueing through the class\<close>

definition enqueue_task :: "('h, 'r, 'x) core_env \<Rightarrow> nat \<Rightarrow> int \<Rightarrow> ('h, 'r, 'x) sched \<Rightarrow> ('h, 'r, 'x) sched option" where
  "enqueue_task E p flags s =
     (let s1 = update_rq_clock E s in c_enqueue_task (class_table E (class_of s1 p)) p flags s1)"

definition dequeue_task :: "('h, 'r, 'x) core_env \<Rightarrow> nat \<Rightarrow> int \<Rightarrow> ('h, 'r, 'x) sched \<Rightarrow> ('h, 'r, 'x) sched option" where
  "dequeue_task E p flags s =
     (let s1 = update_rq_clock E s in c_dequeue_task (class_table E (class_of s1 p)) p flags s1)"

definition activate_task :: "('h, 'r, 'x) core_env \<Rightarrow> nat \<Rightarrow> int \<Rightarrow> ('h, 'r, 'x) sched \<Rightarrow> ('h, 'r, 'x) sched option" where
  "activate_task E p flags s =
     enqueue_task E p flags
       (if task_contributes_to_load (task_of s p)
        then s\<lparr>nr_uninterruptible := nr_uninterruptible s - 1\<rparr> else s)"

definition deactivate_task :: "('h, 'r, 'x) core_env \<Rightarrow> nat \<Rightarrow> int \<Rightarrow> ('h, 'r, 'x) sched \<Rightarrow> ('h, 'r, 'x) sched option" where
  "deactivate_task E p flags s =
     dequeue_task E p flags
       (if task_contributes_to_load (task_of s p)
        then s\<lparr>nr_uninterruptible := nr_uninterruptible s + 1\<rparr> else s)"

section \<open>Priorities\<close>

definition raw_normal_prio :: "task \<Rightarrow> int" where
  "raw_normal_prio t = static_prio t"

definition normal_prio_of :: "task \<Rightarrow> int" where
  "normal_prio_of t =
     (if task_has_rt_policy t then sint (word_of_int (MAX_RT_PRIO - 1) - rt_priority t)
      else raw_normal_prio t)"

text \<open>Also stores the normal priority, so it returns the task.\<close>

definition effective_prio :: "task \<Rightarrow> int \<times> task" where
  "effective_prio t =
     (let t1 = t\<lparr>normal_prio := normal_prio_of t\<rparr>
      in (if \<not> rt_prio (prio t1) then normal_prio t1 else prio t1, t1))"

definition task_curr :: "nat \<Rightarrow> ('h, 'r, 'x) sched \<Rightarrow> bool" where
  "task_curr p s \<longleftrightarrow> rq_curr s = p"

definition check_class_changed :: "('h, 'r, 'x) core_env \<Rightarrow> nat \<Rightarrow> class_id \<Rightarrow> int \<Rightarrow> ('h, 'r, 'x) sched \<Rightarrow> ('h, 'r, 'x) sched option" where
  "check_class_changed E p prev_class oldprio s =
     (if prev_class \<noteq> class_of s p then
        do { s1 \<leftarrow> (case c_switched_from (class_table E prev_class) of Some f \<Rightarrow> f p s | None \<Rightarrow> Some s);
             c_switched_to (class_table E (class_of s1 p)) p s1 }
      else if oldprio \<noteq> prio (task_of s p) then c_prio_changed (class_table E (class_of s p)) p oldprio s
      else Some s)"

section \<open>Wakeups\<close>

definition ttwu_activate :: "('h, 'r, 'x) core_env \<Rightarrow> nat \<Rightarrow> int \<Rightarrow> ('h, 'r, 'x) sched \<Rightarrow> ('h, 'r, 'x) sched option" where
  "ttwu_activate E p en_flags s =
     do { s1 \<leftarrow> activate_task E p en_flags s;
          let s2 = upd_task p (on_rq_update (\<lambda>_. True)) s1;
          Some (if tflags (task_of s2 p) AND PF_WQ_WORKER \<noteq> 0
                then s2\<lparr>others := wq_worker_waking_up E p (others s2)\<rparr> else s2) }"

definition ttwu_do_wakeup :: "('h, 'r, 'x) core_env \<Rightarrow> nat \<Rightarrow> int \<Rightarrow> ('h, 'r, 'x) sched \<Rightarrow> ('h, 'r, 'x) sched option" where
  "ttwu_do_wakeup E p wake_flags s =
     do { s1 \<leftarrow> check_preempt_curr E p wake_flags s;
          Some (upd_task p (tstate_update (\<lambda>_. TASK_RUNNING)) s1) }"

definition ttwu_do_activate :: "('h, 'r, 'x) core_env \<Rightarrow> nat \<Rightarrow> int \<Rightarrow> ('h, 'r, 'x) sched \<Rightarrow> ('h, 'r, 'x) sched option" where
  "ttwu_do_activate E p wake_flags s =
     do { s1 \<leftarrow> ttwu_activate E p (ENQUEUE_WAKEUP OR ENQUEUE_WAKING) s;
          ttwu_do_wakeup E p wake_flags s1 }"

definition ttwu_remote :: "('h, 'r, 'x) core_env \<Rightarrow> nat \<Rightarrow> int \<Rightarrow> ('h, 'r, 'x) sched \<Rightarrow> (bool \<times> ('h, 'r, 'x) sched) option" where
  "ttwu_remote E p wake_flags s =
     (if on_rq (task_of s p) then do { s1 \<leftarrow> ttwu_do_wakeup E p wake_flags s; Some (True, s1) }
      else Some (False, s))"

definition ttwu_queue :: "('h, 'r, 'x) core_env \<Rightarrow> nat \<Rightarrow> ('h, 'r, 'x) sched \<Rightarrow> ('h, 'r, 'x) sched option" where
  "ttwu_queue E p s = ttwu_do_activate E p 0 s"

definition try_to_wake_up :: "('h, 'r, 'x) core_env \<Rightarrow> nat \<Rightarrow> u64 \<Rightarrow> int \<Rightarrow> ('h, 'r, 'x) sched \<Rightarrow> (bool \<times> ('h, 'r, 'x) sched) option" where
  "try_to_wake_up E p st wake_flags s =
     (if tstate (task_of s p) AND st = 0 then Some (False, s)
      else
        do { (woken, s1) \<leftarrow> (if on_rq (task_of s p) then ttwu_remote E p wake_flags s else Some (False, s));
             s2 \<leftarrow> (if woken then Some s1 else ttwu_queue E p s1);
             Some (True, s2) })"

definition try_to_wake_up_local :: "('h, 'r, 'x) core_env \<Rightarrow> nat \<Rightarrow> ('h, 'r, 'x) sched \<Rightarrow> ('h, 'r, 'x) sched option" where
  "try_to_wake_up_local E p s =
     (if p = rq_curr s then None
      else if tstate (task_of s p) AND TASK_NORMAL = 0 then Some s
      else
        do { s1 \<leftarrow> (if \<not> on_rq (task_of s p) then ttwu_activate E p ENQUEUE_WAKEUP s else Some s);
             ttwu_do_wakeup E p 0 s1 })"

definition wake_up_process :: "('h, 'r, 'x) core_env \<Rightarrow> nat \<Rightarrow> ('h, 'r, 'x) sched \<Rightarrow> (bool \<times> ('h, 'r, 'x) sched) option" where
  "wake_up_process E p s = try_to_wake_up E p TASK_NORMAL 0 s"

definition wake_up_state :: "('h, 'r, 'x) core_env \<Rightarrow> nat \<Rightarrow> u64 \<Rightarrow> ('h, 'r, 'x) sched \<Rightarrow> (bool \<times> ('h, 'r, 'x) sched) option" where
  "wake_up_state E p st s = try_to_wake_up E p st 0 s"

section \<open>Forked tasks\<close>

definition raw_sched_fork :: "nat \<Rightarrow> ('h, 'r, 'x) sched \<Rightarrow> ('h, 'r, 'x) sched" where
  "raw_sched_fork p =
     upd_task p (\<lambda>t. t\<lparr>on_rq := False,
       se := (se t)\<lparr>se_on_rq := False, exec_start := 0, sum_exec_runtime := 0,
                    prev_sum_exec_runtime := 0, nr_migrations := 0, vruntime := 0\<rparr>\<rparr>)"

text \<open>The part of \<open>sched_fork\<close> under \<open>sched_reset_on_fork\<close>.\<close>

definition reset_on_fork_task :: "task \<Rightarrow> task" where
  "reset_on_fork_task t =
     (let t1 = (if task_has_rt_policy t
                then t\<lparr>policy := SCHED_NORMAL, static_prio := NICE_TO_PRIO 0, rt_priority := 0\<rparr>
                else if PRIO_TO_NICE (static_prio t) < 0 then t\<lparr>static_prio := NICE_TO_PRIO 0\<rparr>
                else t)
      in t1\<lparr>normal_prio := raw_normal_prio t1, prio := raw_normal_prio t1\<rparr>)"

definition sched_fork :: "('h, 'r, 'x) core_env \<Rightarrow> nat \<Rightarrow> ('h, 'r, 'x) sched \<Rightarrow> ('h, 'r, 'x) sched option" where
  "sched_fork E p s =
     (let s1 = raw_sched_fork p s;
          s2 = upd_task p (\<lambda>t. t\<lparr>tstate := TASK_RUNNING, prio := normal_prio (task_of s1 (rq_curr s1))\<rparr>) s1
      in do { s3 \<leftarrow> (if sched_reset_on_fork (task_of s2 p) then
                       do { t \<leftarrow> set_load_weight p (upd_task p reset_on_fork_task s2);
                            Some (upd_task p (sched_reset_on_fork_update (\<lambda>_. False)) t) }
                     else Some s2);
              let s4 = (if \<not> rt_prio (prio (task_of s3 p)) then
                          if dummy_prio (prio (task_of s3 p))
                          then upd_task p (sched_class_update (\<lambda>_. Dummy_class)) s3
                          else upd_task p (sched_class_update (\<lambda>_. Fair_class)) s3
                        else s3);
              (case c_task_fork (class_table E (class_of s4 p)) of Some f \<Rightarrow> f p s4 | None \<Rightarrow> Some s4) })"

definition wake_up_new_task :: "('h, 'r, 'x) core_env \<Rightarrow> nat \<Rightarrow> ('h, 'r, 'x) sched \<Rightarrow> ('h, 'r, 'x) sched option" where
  "wake_up_new_task E p s =
     do { s1 \<leftarrow> activate_task E p 0 s;
          check_preempt_curr E p WF_FORK (upd_task p (on_rq_update (\<lambda>_. True)) s1) }"

end
