(* ===== verification/Sched_Run.thy ===== *)
theory Sched_Run
  imports Sched_Core
begin

text \<open>
  The core of the scheduler, second part: start-up, the timer tick, \<open>__schedule\<close> and the system call
  and kernel functions that give up the processor.  \<open>context_switch\<close> changes the address space and
  the stack, not the run queue, and has no counterpart; after it the code goes on as the next task,
  which is why the test at the end of \<open>__schedule\<close> reads the flag of the new current task.
\<close>

section \<open>Start-up\<close>

definition init_idle :: "('h, 'r, 'x) core_env \<Rightarrow> nat \<Rightarrow> ('h, 'r, 'x) sched \<Rightarrow> ('h, 'r, 'x) sched" where
  "init_idle E idle s =
     (let s1 = upd_task idle (tstate_update (\<lambda>_. TASK_RUNNING)) (raw_sched_fork idle s);
          (now, x) = sched_clock_cpu E (others s1);
          s2 = upd_se idle (exec_start_update (\<lambda>_. now)) (s1\<lparr>others := x\<rparr>);
          s3 = s2\<lparr>rq_curr := idle, rq_idle := idle\<rparr>
      in upd_task idle (sched_class_update (\<lambda>_. Idle_class)) s3)"

text \<open>The body of the loop over processors, for the one there is; \<open>init_rt_rq\<close> acts on the outside.\<close>

definition sched_init_rq :: "('h, 'r, 'x) core_env \<Rightarrow> ('x \<Rightarrow> 'x) \<Rightarrow> ('h, 'r, 'x) sched \<Rightarrow> ('h, 'r, 'x) sched" where
  "sched_init_rq E init_rt_rq s =
     (let s1 = upd_acct (\<lambda>a. a\<lparr>calc_load_active := 0, rq_calc_load_update := jiffies s + LOAD_FREQ\<rparr>)
                 (s\<lparr>nr_running := 0\<rparr>);
          s2 = init_cfs_rq E s1;
          s3 = s2\<lparr>others := init_rt_rq (others s2)\<rparr>;
          s4 = init_dummy_rq (e_list E) s3
      in upd_acct (\<lambda>a. a\<lparr>cpu_load := replicate CPU_LOAD_IDX_MAX 0, last_load_update_tick := jiffies s4\<rparr>) s4)"

definition sched_init :: "('h, 'r, 'x) core_env \<Rightarrow> ('x \<Rightarrow> 'x) \<Rightarrow> nat \<Rightarrow> ('h, 'r, 'x) sched \<Rightarrow> ('h, 'r, 'x) sched option" where
  "sched_init E init_rt_rq boot s =
     do { s1 \<leftarrow> set_load_weight boot (sched_init_rq E init_rt_rq s);
          let s2 = init_idle E boot s1;
          let s3 = upd_loadavg (calc_load_update_update (\<lambda>_. jiffies s2 + LOAD_FREQ)) s2;
          Some (if prio (task_of s3 (rq_curr s3)) \<ge> MIN_DUMMY_PRIO
                then upd_task (rq_curr s3) (sched_class_update (\<lambda>_. Dummy_class)) s3
                else upd_task (rq_curr s3) (sched_class_update (\<lambda>_. Fair_class)) s3) }"

section \<open>Time\<close>

definition do_task_delta_exec :: "('h, 'r, 'x) core_env \<Rightarrow> nat \<Rightarrow> ('h, 'r, 'x) sched \<Rightarrow> u64 \<times> ('h, 'r, 'x) sched" where
  "do_task_delta_exec E p s =
     (if rq_curr s = p then
        let s1 = update_rq_clock E s; ns = clock_task s1 - exec_start (se_of s1 p)
        in (if sint ns < 0 then 0 else ns, s1)
      else (0, s))"

definition task_delta_exec :: "('h, 'r, 'x) core_env \<Rightarrow> nat \<Rightarrow> ('h, 'r, 'x) sched \<Rightarrow> u64 \<times> ('h, 'r, 'x) sched" where
  "task_delta_exec E p s = do_task_delta_exec E p s"

definition task_sched_runtime :: "('h, 'r, 'x) core_env \<Rightarrow> nat \<Rightarrow> ('h, 'r, 'x) sched \<Rightarrow> u64 \<times> ('h, 'r, 'x) sched" where
  "task_sched_runtime E p s =
     (let (d, s1) = do_task_delta_exec E p s in (sum_exec_runtime (se_of s p) + d, s1))"

definition scheduler_tick :: "('h, 'r, 'x) core_env \<Rightarrow> ('h, 'r, 'x) sched \<Rightarrow> ('h, 'r, 'x) sched option" where
  "scheduler_tick E s =
     (let cur = rq_curr s; s1 = update_cpu_load_active (update_rq_clock E s)
      in c_task_tick (class_table E (class_of s1 cur)) cur 0 s1)"

section \<open>Picking and switching\<close>

definition put_prev_task :: "('h, 'r, 'x) core_env \<Rightarrow> nat \<Rightarrow> ('h, 'r, 'x) sched \<Rightarrow> ('h, 'r, 'x) sched option" where
  "put_prev_task E prev s =
     (let s1 = (if on_rq (task_of s prev) \<or> skip_clock_update s < 0 then update_rq_clock E s else s)
      in c_put_prev_task (class_table E (class_of s1 prev)) prev s1)"

fun pick_from :: "('h, 'r, 'x) core_env \<Rightarrow> class_id list \<Rightarrow> ('h, 'r, 'x) sched \<Rightarrow> (nat \<times> ('h, 'r, 'x) sched) option" where
  "pick_from E [] s = None"
| "pick_from E (c # cs) s =
     (case c_pick_next_task (class_table E c) s of
        None \<Rightarrow> None
      | Some (None, s1) \<Rightarrow> pick_from E cs s1
      | Some (Some p, s1) \<Rightarrow> Some (p, s1))"

definition pick_next_task :: "('h, 'r, 'x) core_env \<Rightarrow> ('h, 'r, 'x) sched \<Rightarrow> (nat \<times> ('h, 'r, 'x) sched) option" where
  "pick_next_task E s = pick_from E classes s"

text \<open>The branch of \<open>__schedule\<close> for a task that gives up the processor because it sleeps.\<close>

definition sleep_prev :: "('h, 'r, 'x) core_env \<Rightarrow> nat \<Rightarrow> ('h, 'r, 'x) sched \<Rightarrow> ('h, 'r, 'x) sched option" where
  "sleep_prev E prev s =
     (if signal_pending_state (tstate (task_of s prev)) (task_of s prev)
      then Some (upd_task prev (tstate_update (\<lambda>_. TASK_RUNNING)) s)
      else
        do { s1 \<leftarrow> deactivate_task E prev DEQUEUE_SLEEP s;
             let s2 = upd_task prev (on_rq_update (\<lambda>_. False)) s1;
             if tflags (task_of s2 prev) AND PF_WQ_WORKER \<noteq> 0 then
               (let (to_wakeup, x) = wq_worker_sleeping E prev (others s2); s3 = s2\<lparr>others := x\<rparr>
                in case to_wakeup of Some q \<Rightarrow> try_to_wake_up_local E q s3 | None \<Rightarrow> Some s3)
             else Some s2 })"

text \<open>From the label \<open>need_resched\<close> to the end of one pass; \<open>pa\<close> is \<open>PREEMPT_ACTIVE\<close>.\<close>

definition schedule_pass :: "('h, 'r, 'x) core_env \<Rightarrow> bool \<Rightarrow> ('h, 'r, 'x) sched \<Rightarrow> ('h, 'r, 'x) sched option" where
  "schedule_pass E pa s =
     (let prev = rq_curr s; voluntary = tstate (task_of s prev) \<noteq> 0 \<and> \<not> pa in
      do { s1 \<leftarrow> (if voluntary then sleep_prev E prev s else Some s);
           s2 \<leftarrow> put_prev_task E prev s1;
           (next, s3) \<leftarrow> pick_next_task E s2;
           let s4 = (clear_tsk_need_resched prev s3)\<lparr>skip_clock_update := 0\<rparr>;
           Some (if prev \<noteq> next then
                   upd_task prev (\<lambda>t. if voluntary then t\<lparr>nvcsw := nvcsw t + 1\<rparr> else t\<lparr>nivcsw := nivcsw t + 1\<rparr>)
                     (s4\<lparr>nr_switches := nr_switches s4 + 1, rq_curr := next\<rparr>)
                 else s4) })"

partial_function (option) raw_schedule ::
  "('h, 'r, 'x) core_env \<Rightarrow> bool \<Rightarrow> ('h, 'r, 'x) sched \<Rightarrow> ('h, 'r, 'x) sched option" where
  "raw_schedule E pa s =
     do { s1 \<leftarrow> schedule_pass E pa s;
          if need_resched (task_of s1 (rq_curr s1))
          then raw_schedule E (preempt_active E (rq_curr s1) (others s1)) s1 else Some s1 }"

definition schedule :: "('h, 'r, 'x) core_env \<Rightarrow> ('h, 'r, 'x) sched \<Rightarrow> ('h, 'r, 'x) sched option" where
  "schedule E s = raw_schedule E (preempt_active E (rq_curr s) (others s)) s"

section \<open>Giving up the processor\<close>

definition sys_sched_yield :: "('h, 'r, 'x) core_env \<Rightarrow> ('h, 'r, 'x) sched \<Rightarrow> ('h, 'r, 'x) sched option" where
  "sys_sched_yield E s =
     do { s1 \<leftarrow> c_yield_task (class_table E (class_of s (rq_curr s))) s; schedule E s1 }"

definition should_resched :: "('h, 'r, 'x) core_env \<Rightarrow> ('h, 'r, 'x) sched \<Rightarrow> bool" where
  "should_resched E s \<longleftrightarrow>
     need_resched (task_of s (rq_curr s)) \<and> \<not> preempt_active E (rq_curr s) (others s)"

definition raw_cond_resched :: "('h, 'r, 'x) core_env \<Rightarrow> ('h, 'r, 'x) sched \<Rightarrow> ('h, 'r, 'x) sched option" where
  "raw_cond_resched E s = raw_schedule E True s"

definition cond_resched :: "('h, 'r, 'x) core_env \<Rightarrow> ('h, 'r, 'x) sched \<Rightarrow> (bool \<times> ('h, 'r, 'x) sched) option" where
  "cond_resched E s =
     (if should_resched E s then do { s1 \<leftarrow> raw_cond_resched E s; Some (True, s1) } else Some (False, s))"

definition yield :: "('h, 'r, 'x) core_env \<Rightarrow> ('h, 'r, 'x) sched \<Rightarrow> ('h, 'r, 'x) sched option" where
  "yield E s = sys_sched_yield E (upd_task (rq_curr s) (tstate_update (\<lambda>_. TASK_RUNNING)) s)"

definition yield_to :: "('h, 'r, 'x) core_env \<Rightarrow> nat \<Rightarrow> ('h, 'r, 'x) sched \<Rightarrow> (bool \<times> ('h, 'r, 'x) sched) option" where
  "yield_to E p s =
     (case c_yield_to_task (class_table E (class_of s (rq_curr s))) of
        None \<Rightarrow> Some (False, s)
      | Some f \<Rightarrow>
          if class_of s (rq_curr s) \<noteq> class_of s p then Some (False, s)
          else if rq_curr s = p \<or> tstate (task_of s p) \<noteq> 0 then Some (False, s)
          else
            do { (yielded, s1) \<leftarrow> f p s;
                 if yielded then do { s2 \<leftarrow> schedule E s1; Some (True, s2) } else Some (False, s1) })"

definition idle_cpu :: "('h, 'r, 'x) sched \<Rightarrow> bool" where
  "idle_cpu s \<longleftrightarrow> (if rq_curr s \<noteq> rq_idle s then False else if nr_running s \<noteq> 0 then False else True)"

definition nr_uninterruptible_total :: "('h, 'r, 'x) sched \<Rightarrow> u64" where
  "nr_uninterruptible_total s = (if sint (nr_uninterruptible s) < 0 then 0 else nr_uninterruptible s)"

definition this_cpu_load :: "('h, 'r, 'x) sched \<Rightarrow> u64" where
  "this_cpu_load s = cpu_load (rq_acct s) ! 0"

end
