(* ===== verification/Sched_Policy.thy ===== *)
theory Sched_Policy
  imports Sched_Core
begin

text \<open>
  The core of the scheduler, third part: priorities and policies set by priority inheritance, by nice
  values and by the scheduling system calls.  One processor runs the code, so a policy that is read
  before the run queue is locked is still the task's policy afterwards, and the jump back to
  \<open>recheck\<close> in \<open>__sched_setscheduler\<close> is not taken.
\<close>

definition MAX_USER_RT_PRIO :: int where "MAX_USER_RT_PRIO = 100"

text \<open>An operation on a task that may be queued and may be running.\<close>

definition if_do :: "bool \<Rightarrow> ('s \<Rightarrow> 's option) \<Rightarrow> 's \<Rightarrow> 's option" where
  "if_do b f s = (if b then f s else Some s)"

definition class_for_prio :: "int \<Rightarrow> class_id" where
  "class_for_prio pr = (if rt_prio pr then Rt_class else if dummy_prio pr then Dummy_class else Fair_class)"

section \<open>Priority inheritance\<close>

definition rt_mutex_setprio :: "('h, 'r, 'x) core_env \<Rightarrow> nat \<Rightarrow> int \<Rightarrow> ('h, 'r, 'x) sched \<Rightarrow> ('h, 'r, 'x) sched option" where
  "rt_mutex_setprio E p pr s =
     (if pr < 0 \<or> pr > MAX_PRIO then None
      else if p = rq_idle s then Some s
      else
        let oldprio = prio (task_of s p); prev_class = class_of s p;
            onq = on_rq (task_of s p); running = (rq_curr s = p)
        in do { s1 \<leftarrow> if_do onq (dequeue_task E p 0) s;
                s2 \<leftarrow> if_do running (\<lambda>u. c_put_prev_task (class_table E (class_of u p)) p u) s1;
                let s3 = upd_task p (\<lambda>t. t\<lparr>sched_class := class_for_prio pr, prio := pr\<rparr>) s2;
                s4 \<leftarrow> if_do running (\<lambda>u. c_set_curr_task (class_table E (class_of u p)) u) s3;
                s5 \<leftarrow> if_do onq (enqueue_task E p (if oldprio < pr then ENQUEUE_HEAD else 0)) s4;
                check_class_changed E p prev_class oldprio s5 })"

section \<open>Nice values\<close>

definition set_user_nice :: "('h, 'r, 'x) core_env \<Rightarrow> nat \<Rightarrow> int \<Rightarrow> ('h, 'r, 'x) sched \<Rightarrow> ('h, 'r, 'x) sched option" where
  "set_user_nice E p nice s =
     (if TASK_NICE (task_of s p) = nice \<or> nice < -20 \<or> nice > 19 then Some s
      else if task_has_rt_policy (task_of s p) then
        Some (upd_task p (static_prio_update (\<lambda>_. NICE_TO_PRIO nice)) s)
      else
        let onq = on_rq (task_of s p) in
        do { s1 \<leftarrow> if_do onq (dequeue_task E p 0) s;
             s2 \<leftarrow> set_load_weight p (upd_task p (static_prio_update (\<lambda>_. NICE_TO_PRIO nice)) s1);
             let old_prio = prio (task_of s2 p);
             let (np, t) = effective_prio (task_of s2 p);
             let s3 = upd_task p (\<lambda>_. t\<lparr>prio := np\<rparr>) s2;
             let delta = np - old_prio;
             let s4 = (if dummy_prio (prio (task_of s3 p))
                       then upd_task p (sched_class_update (\<lambda>_. Dummy_class)) s3 else s3);
             if onq then
               do { s5 \<leftarrow> enqueue_task E p 0 s4;
                    Some (if delta < 0 \<or> (delta > 0 \<and> rq_curr s5 = p)
                          then resched_task (rq_curr s5) s5 else s5) }
             else Some s4 })"

definition can_nice :: "('h, 'r, 'x) core_env \<Rightarrow> nat \<Rightarrow> int \<Rightarrow> ('h, 'r, 'x) sched \<Rightarrow> bool" where
  "can_nice E p nice s \<longleftrightarrow>
     word_of_int (20 - nice) \<le> rlimit_nice E p (others s) \<or> capable_sys_nice E (others s)"

definition clamp :: "int \<Rightarrow> int \<Rightarrow> int \<Rightarrow> int" where
  "clamp lo hi v = (let v1 = (if v < lo then lo else v) in if v1 > hi then hi else v1)"

definition sys_nice :: "('h, 'r, 'x) core_env \<Rightarrow> int \<Rightarrow> ('h, 'r, 'x) sched \<Rightarrow> (int \<times> ('h, 'r, 'x) sched) option" where
  "sys_nice E increment s =
     (let cur = rq_curr s;
          incr = clamp (-40) 40 increment;
          nice = clamp (-20) 19 (TASK_NICE (task_of s cur) + incr)
      in if incr < 0 \<and> \<not> can_nice E cur nice s then Some (- EPERM, s)
         else
           let retval = security_task_setnice E cur nice (others s) in
           if retval \<noteq> 0 then Some (retval, s)
           else do { s1 \<leftarrow> set_user_nice E cur nice s; Some (0, s1) })"

definition task_prio :: "task \<Rightarrow> int" where
  "task_prio t = prio t - MAX_RT_PRIO"

definition task_nice :: "task \<Rightarrow> int" where
  "task_nice t = TASK_NICE t"

section \<open>Policies\<close>

definition find_process_by_pid :: "('h, 'r, 'x) core_env \<Rightarrow> int \<Rightarrow> ('h, 'r, 'x) sched \<Rightarrow> nat option" where
  "find_process_by_pid E pid s = (if pid \<noteq> 0 then find_task_by_vpid E pid (others s) else Some (rq_curr s))"

definition raw_setscheduler :: "('h, 'r, 'x) core_env \<Rightarrow> nat \<Rightarrow> int \<Rightarrow> int \<Rightarrow> ('h, 'r, 'x) sched \<Rightarrow> ('h, 'r, 'x) sched option" where
  "raw_setscheduler E p pol pr s =
     (let s1 = upd_task p (\<lambda>t. t\<lparr>policy := pol, rt_priority := word_of_int pr\<rparr>) s;
          s2 = upd_task p (\<lambda>t. t\<lparr>normal_prio := normal_prio_of t\<rparr>) s1;
          s3 = upd_task p (prio_update (\<lambda>_. rt_mutex_getprio E p (task_of s2 p) (others s2))) s2;
          s4 = upd_task p (\<lambda>t. t\<lparr>sched_class := class_for_prio (prio t)\<rparr>) s3
      in set_load_weight p s4)"

definition check_same_owner :: "('h, 'r, 'x) core_env \<Rightarrow> nat \<Rightarrow> ('h, 'r, 'x) sched \<Rightarrow> bool" where
  "check_same_owner E p s \<longleftrightarrow>
     (let me = cred_euid E (rq_curr s) (others s)
      in me = cred_euid E p (others s) \<or> me = cred_uid E p (others s))"

definition valid_policy :: "int \<Rightarrow> bool" where
  "valid_policy pol \<longleftrightarrow> pol = SCHED_FIFO \<or> pol = SCHED_RR \<or> pol = SCHED_NORMAL \<or> pol = SCHED_BATCH \<or> pol = SCHED_IDLE"

text \<open>The policy and the reset flag that a request means; \<open>None\<close> for a policy that is not valid.\<close>

definition requested_policy :: "task \<Rightarrow> int \<Rightarrow> (int \<times> bool) option" where
  "requested_policy t pol =
     (if pol < 0 then Some (policy t, sched_reset_on_fork t)
      else let pol1 = pol AND NOT SCHED_RESET_ON_FORK
           in if valid_policy pol1 then Some (pol1, pol AND SCHED_RESET_ON_FORK \<noteq> 0) else None)"

definition valid_param :: "task \<Rightarrow> int \<Rightarrow> int \<Rightarrow> bool" where
  "valid_param t pol pr \<longleftrightarrow>
     \<not> (pr < 0 \<or> (has_mm t \<and> pr > MAX_USER_RT_PRIO - 1) \<or> (\<not> has_mm t \<and> pr > MAX_RT_PRIO - 1))
     \<and> (rt_policy pol \<longleftrightarrow> pr \<noteq> 0)"

text \<open>The permission tests for a user without \<open>CAP_SYS_NICE\<close>.\<close>

definition setscheduler_permitted :: "('h, 'r, 'x) core_env \<Rightarrow> nat \<Rightarrow> int \<Rightarrow> int \<Rightarrow> bool \<Rightarrow> ('h, 'r, 'x) sched \<Rightarrow> bool" where
  "setscheduler_permitted E p pol pr reset s =
     (let t = task_of s p; rlim = rlimit_rtprio E p (others s) in
      if rt_policy pol \<and> pol \<noteq> policy t \<and> rlim = 0 then False
      else if rt_policy pol \<and> pr > int (unat (rt_priority t)) \<and> pr > int (unat rlim) then False
      else if policy t = SCHED_IDLE \<and> pol \<noteq> SCHED_IDLE \<and> \<not> can_nice E p (TASK_NICE t) s then False
      else if \<not> check_same_owner E p s then False
      else if sched_reset_on_fork t \<and> \<not> reset then False
      else True)"

text \<open>The change itself, once the run queue is locked.\<close>

definition change_policy :: "('h, 'r, 'x) core_env \<Rightarrow> nat \<Rightarrow> int \<Rightarrow> int \<Rightarrow> bool \<Rightarrow> ('h, 'r, 'x) sched \<Rightarrow> ('h, 'r, 'x) sched option" where
  "change_policy E p pol pr reset s =
     (let onq = on_rq (task_of s p); running = (rq_curr s = p) in
      do { s1 \<leftarrow> if_do onq (dequeue_task E p 0) s;
           s2 \<leftarrow> if_do running (\<lambda>u. c_put_prev_task (class_table E (class_of u p)) p u) s1;
           let s3 = upd_task p (sched_reset_on_fork_update (\<lambda>_. reset)) s2;
           let oldprio = prio (task_of s3 p);
           let prev_class = class_of s3 p;
           s4 \<leftarrow> raw_setscheduler E p pol pr s3;
           s5 \<leftarrow> if_do running (\<lambda>u. c_set_curr_task (class_table E (class_of u p)) u) s4;
           s6 \<leftarrow> if_do onq (enqueue_task E p 0) s5;
           check_class_changed E p prev_class oldprio s6 })"

definition raw_sched_setscheduler :: "('h, 'r, 'x) core_env \<Rightarrow> nat \<Rightarrow> int \<Rightarrow> int \<Rightarrow> bool \<Rightarrow> ('h, 'r, 'x) sched \<Rightarrow> (int \<times> ('h, 'r, 'x) sched) option" where
  "raw_sched_setscheduler E p pol0 pr user s =
     (case requested_policy (task_of s p) pol0 of
        None \<Rightarrow> Some (- EINVAL, s)
      | Some (pol, reset) \<Rightarrow>
          if \<not> valid_param (task_of s p) pol pr then Some (- EINVAL, s)
          else if user \<and> \<not> capable_sys_nice E (others s) \<and> \<not> setscheduler_permitted E p pol pr reset s
            then Some (- EPERM, s)
          else
            let retval = (if user then security_task_setscheduler E p (others s) else 0) in
            if retval \<noteq> 0 then Some (retval, s)
            else if rq_stop s = Some p then Some (- EINVAL, s)
            else if pol = policy (task_of s p)
                 \<and> (\<not> rt_policy pol \<or> pr = int (unat (rt_priority (task_of s p)))) then Some (0, s)
            else do { s1 \<leftarrow> change_policy E p pol pr reset s;
                      s2 \<leftarrow> rt_mutex_adjust_pi E p s1;
                      Some (0, s2) })"

definition sched_setscheduler :: "('h, 'r, 'x) core_env \<Rightarrow> nat \<Rightarrow> int \<Rightarrow> int \<Rightarrow> ('h, 'r, 'x) sched \<Rightarrow> (int \<times> ('h, 'r, 'x) sched) option" where
  "sched_setscheduler E p pol pr s = raw_sched_setscheduler E p pol pr True s"

definition sched_setscheduler_nocheck :: "('h, 'r, 'x) core_env \<Rightarrow> nat \<Rightarrow> int \<Rightarrow> int \<Rightarrow> ('h, 'r, 'x) sched \<Rightarrow> (int \<times> ('h, 'r, 'x) sched) option" where
  "sched_setscheduler_nocheck E p pol pr s = raw_sched_setscheduler E p pol pr False s"

text \<open>A user pointer to a \<open>struct sched_param\<close>: \<open>NULL\<close>, not readable, or the priority it holds.\<close>

datatype user_param = Null_param | Bad_param | Param int

definition do_sched_setscheduler :: "('h, 'r, 'x) core_env \<Rightarrow> int \<Rightarrow> int \<Rightarrow> user_param \<Rightarrow> ('h, 'r, 'x) sched \<Rightarrow> (int \<times> ('h, 'r, 'x) sched) option" where
  "do_sched_setscheduler E pid pol param s =
     (if param = Null_param \<or> pid < 0 then Some (- EINVAL, s)
      else case param of
        Param pr \<Rightarrow>
          (case find_process_by_pid E pid s of
             None \<Rightarrow> Some (- ESRCH, s)
           | Some p \<Rightarrow> sched_setscheduler E p pol pr s)
      | _ \<Rightarrow> Some (- EFAULT, s))"

definition sys_sched_setscheduler :: "('h, 'r, 'x) core_env \<Rightarrow> int \<Rightarrow> int \<Rightarrow> user_param \<Rightarrow> ('h, 'r, 'x) sched \<Rightarrow> (int \<times> ('h, 'r, 'x) sched) option" where
  "sys_sched_setscheduler E pid pol param s =
     (if pol < 0 then Some (- EINVAL, s) else do_sched_setscheduler E pid pol param s)"

definition sys_sched_setparam :: "('h, 'r, 'x) core_env \<Rightarrow> int \<Rightarrow> user_param \<Rightarrow> ('h, 'r, 'x) sched \<Rightarrow> (int \<times> ('h, 'r, 'x) sched) option" where
  "sys_sched_setparam E pid param s = do_sched_setscheduler E pid (-1) param s"

definition sys_sched_getscheduler :: "('h, 'r, 'x) core_env \<Rightarrow> int \<Rightarrow> ('h, 'r, 'x) sched \<Rightarrow> int" where
  "sys_sched_getscheduler E pid s =
     (if pid < 0 then - EINVAL
      else case find_process_by_pid E pid s of
        None \<Rightarrow> - ESRCH
      | Some p \<Rightarrow>
          (let retval = security_task_getscheduler E p (others s) in
           if retval \<noteq> 0 then retval
           else policy (task_of s p) OR (if sched_reset_on_fork (task_of s p) then SCHED_RESET_ON_FORK else 0)))"

text \<open>Returns the value for the user as well, when the copy succeeds; \<open>writable\<close> says whether it does.\<close>

definition sys_sched_getparam :: "('h, 'r, 'x) core_env \<Rightarrow> int \<Rightarrow> bool \<Rightarrow> bool \<Rightarrow> ('h, 'r, 'x) sched \<Rightarrow> int \<times> int option" where
  "sys_sched_getparam E pid null writable s =
     (if null \<or> pid < 0 then (- EINVAL, None)
      else case find_process_by_pid E pid s of
        None \<Rightarrow> (- ESRCH, None)
      | Some p \<Rightarrow>
          (let retval = security_task_getscheduler E p (others s) in
           if retval \<noteq> 0 then (retval, None)
           else if writable then (0, Some (sint (rt_priority (task_of s p)))) else (- EFAULT, None)))"

definition sys_sched_get_priority_max :: "int \<Rightarrow> int" where
  "sys_sched_get_priority_max pol =
     (if pol = SCHED_FIFO \<or> pol = SCHED_RR then MAX_USER_RT_PRIO - 1
      else if pol = SCHED_NORMAL \<or> pol = SCHED_BATCH \<or> pol = SCHED_IDLE then 0
      else - EINVAL)"

definition sys_sched_get_priority_min :: "int \<Rightarrow> int" where
  "sys_sched_get_priority_min pol =
     (if pol = SCHED_FIFO \<or> pol = SCHED_RR then 1
      else if pol = SCHED_NORMAL \<or> pol = SCHED_BATCH \<or> pol = SCHED_IDLE then 0
      else - EINVAL)"

text \<open>The interval in jiffies, before \<open>jiffies_to_timespec\<close>.\<close>

definition sys_sched_rr_get_interval :: "('h, 'r, 'x) core_env \<Rightarrow> int \<Rightarrow> bool \<Rightarrow> ('h, 'r, 'x) sched \<Rightarrow> (int \<times> u32 option) \<times> ('h, 'r, 'x) sched" where
  "sys_sched_rr_get_interval E pid writable s =
     (if pid < 0 then ((- EINVAL, None), s)
      else case find_process_by_pid E pid s of
        None \<Rightarrow> ((- ESRCH, None), s)
      | Some p \<Rightarrow>
          (let retval = security_task_getscheduler E p (others s) in
           if retval \<noteq> 0 then ((retval, None), s)
           else let (ts, s1) = c_get_rr_interval (class_table E (class_of s p)) p s
                in (if writable then (0, Some ts) else (- EFAULT, None), s1)))"

section \<open>Stop tasks, normalisation\<close>

definition sched_set_stop_task :: "('h, 'r, 'x) core_env \<Rightarrow> nat option \<Rightarrow> ('h, 'r, 'x) sched \<Rightarrow> ('h, 'r, 'x) sched option" where
  "sched_set_stop_task E stop s =
     (let old_stop = rq_stop s in
      do { s1 \<leftarrow> (case stop of
                   None \<Rightarrow> Some s
                 | Some p \<Rightarrow>
                     do { (r, t) \<leftarrow> sched_setscheduler_nocheck E p SCHED_FIFO (MAX_RT_PRIO - 1) s;
                          Some (upd_task p (sched_class_update (\<lambda>_. Stop_class)) t) });
           let s2 = s1\<lparr>rq_stop := stop\<rparr>;
           Some (case old_stop of
                   None \<Rightarrow> s2
                 | Some o' \<Rightarrow> upd_task o' (sched_class_update (\<lambda>_. Rt_class)) s2) })"

definition normalize_task :: "('h, 'r, 'x) core_env \<Rightarrow> nat \<Rightarrow> ('h, 'r, 'x) sched \<Rightarrow> ('h, 'r, 'x) sched option" where
  "normalize_task E p s =
     (let prev_class = class_of s p; old_prio = prio (task_of s p); onq = on_rq (task_of s p) in
      do { s1 \<leftarrow> if_do onq (dequeue_task E p 0) s;
           s2 \<leftarrow> raw_setscheduler E p SCHED_NORMAL 0 s1;
           s3 \<leftarrow> if_do onq (\<lambda>u. do { v \<leftarrow> enqueue_task E p 0 u; Some (resched_task (rq_curr v) v) }) s2;
           check_class_changed E p prev_class old_prio s3 })"

text \<open>Over the list of all threads.\<close>

fun normalize_rt_tasks :: "('h, 'r, 'x) core_env \<Rightarrow> nat list \<Rightarrow> ('h, 'r, 'x) sched \<Rightarrow> ('h, 'r, 'x) sched option" where
  "normalize_rt_tasks E [] s = Some s"
| "normalize_rt_tasks E (p # ps) s =
     (if \<not> has_mm (task_of s p) then normalize_rt_tasks E ps s
      else
        let s1 = upd_se p (exec_start_update (\<lambda>_. 0)) s in
        if \<not> rt_task (task_of s1 p) then
          if TASK_NICE (task_of s1 p) < 0 \<and> has_mm (task_of s1 p) then
            (case set_user_nice E p 0 s1 of None \<Rightarrow> None | Some s2 \<Rightarrow> normalize_rt_tasks E ps s2)
          else normalize_rt_tasks E ps s1
        else (case normalize_task E p s1 of None \<Rightarrow> None | Some s2 \<Rightarrow> normalize_rt_tasks E ps s2))"

end
