(* ===== verification/Sched_Sample.thy ===== *)
theory Sched_Sample
  imports Sched_State Sched_Rbtree
begin

text \<open>A small state of the scheduler, on which the properties are instantiated.\<close>

definition sample_task :: "int \<Rightarrow> task" where
  "sample_task pr = \<lparr>tstate = 0, tflags = 0, on_rq = True, prio = pr, static_prio = pr, normal_prio = pr,
     rt_priority = 0, sched_class = Dummy_class,
     se = \<lparr>se_load = \<lparr>weight = 1024, inv_weight = 0\<rparr>, se_on_rq = False, exec_start = 0, sum_exec_runtime = 0,
        vruntime = 0, prev_sum_exec_runtime = 0, nr_migrations = 0\<rparr>,
     dummy_age_tick = 0, policy = SCHED_NORMAL, sched_reset_on_fork = False, has_mm = True,
     need_resched = False, sigpending = False, killed = False, nvcsw = 0, nivcsw = 0\<rparr>"

text \<open>Tasks 1 and 2 have nice 15, task 3 nice 17, every other nice 19; task 1 runs.\<close>

definition sample_prio :: "nat \<Rightarrow> int" where
  "sample_prio p = (if p \<le> 2 then 135 else if p = 3 then 137 else 139)"

definition sample_links :: "nat \<Rightarrow> nat list" where
  "sample_links i = (if i = 0 then [1, 2] else if i = 2 then [3] else [])"

definition sample_sched :: "(nat \<Rightarrow> nat list, nat tree, unit) sched" where
  "sample_sched = \<lparr>task_of = (\<lambda>p. sample_task (sample_prio p)), rq_curr = 1, rq_idle = 0, rq_stop = None,
     nr_running = 3, nr_uninterruptible = 0, nr_switches = 0, rq_clock = 0, clock_task = 0,
     skip_clock_update = 0, rq_load = \<lparr>weight = 0, inv_weight = 0\<rparr>,
     cfs = \<lparr>cfs_load = \<lparr>weight = 0, inv_weight = 0\<rparr>, cfs_nr_running = 0, h_nr_running = 0,
        min_vruntime = 0, tasks_timeline = Leaf, rb_leftmost = None, cfs_curr = None, cfs_next = None,
        cfs_last = None, cfs_skip = None\<rparr>,
     rq_acct = \<lparr>cpu_load = replicate 5 0, last_load_update_tick = 0, nr_load_updates = 0,
        rq_calc_load_update = 0, calc_load_active = 0\<rparr>,
     dummy_timeslice = 0, links = sample_links,
     loadavg = \<lparr>calc_load_tasks = 0, calc_load_update = 0, avenrun = [0, 0, 0], calc_load_idle = [0, 0],
        calc_load_idx = 0\<rparr>,
     jiffies = 0,
     tun = \<lparr>sched_latency = 6000000, min_granularity = 750000, wakeup_granularity = 1000000,
        normalized_latency = 6000000, normalized_min_granularity = 750000,
        normalized_wakeup_granularity = 1000000, sched_nr_latency = 8, child_runs_first = 0,
        tunable_scaling = 1\<rparr>,
     sysctl_timeslice = 10, sysctl_age_threshold = 30, others = ()\<rparr>"

lemmas sample_defs = sample_sched_def sample_links_def sample_prio_def sample_task_def

lemma sample_fields [simp]:
  "rq_curr sample_sched = 1" "sysctl_age_threshold sample_sched = 30" "nr_running sample_sched = 3"
  "task_of sample_sched p = sample_task (sample_prio p)"
  "prio (sample_task v) = v" "dummy_age_tick (sample_task v) = 0"
  by (simp_all add: sample_sched_def sample_task_def)

end
