(* ===== verification/Sched_Dummy_Props.thy ===== *)
theory Sched_Dummy_Props
  imports Sched_Dummy Sched_Sample
begin

text \<open>
  Correctness of the class of \<open>kernel/sched/dummy.c\<close>: its queue invariant over every run, FIFO
  picking, rotation, bounded waiting by aging, and its preemption test.  The lemmas are proved in the
  locale \<open>klist\<close> of the kernel's lists; the properties have its laws as a hypothesis.
\<close>

section \<open>Invariant preservation\<close>

context klist
begin

lemma inv_ok: "dummy_inv L ok s \<Longrightarrow> ok queues (links s)"
  by (simp add: dummy_inv_def)

lemma enqueue_inv:
  assumes "dummy_inv L ok s" and "p \<notin> set (queued L s)" and "queue_index (task_of s p) = Some b"
  shows "\<exists>t. enqueue_task_dummy L p flags s = Some t \<and> dummy_inv L ok t \<and> same_tasks s t
     \<and> nr_running t = nr_running s + 1 \<and> set (queued L t) = insert p (set (queued L s))
     \<and> (\<forall>i\<in>queues. queue L t i = queue L s i @ (if i = b then [p] else []))"
proof -
  obtain t where t: "enqueue_task_dummy L p flags s = Some t" "ok queues (links t)" "same_tasks s t"
      "\<forall>i\<in>queues. queue L t i = queue L s i @ (if i = b then [p] else [])"
      "nr_running t = nr_running s + 1"
    using enqueue_task_dummy_eq [OF inv_ok [OF assms(1)] assms(2,3)] by blast
  have "\<exists>c. queue_index (task_of t q) = Some c \<and> i \<le> c" if "i \<in> queues" "q \<in> set (queue L t i)" for i q
    using that t(4) assms(3) dummy_invD [OF assms(1) that(1), of q] same_tasks_index [OF t(3)]
    by (auto split: if_splits)
  then have "dummy_inv L ok t" using t(2) by (simp add: dummy_inv_def)
  moreover have "set (queued L t) = insert p (set (queued L s))"
    using t(4) queue_index_bound [OF assms(3)] by (auto simp: set_queued split: if_splits)
  ultimately show ?thesis using t by blast
qed

lemma dequeue_inv:
  assumes "dummy_inv L ok s"
  shows "\<exists>t. dequeue_task_dummy L p flags s = Some t \<and> dummy_inv L ok t \<and> same_tasks s t
     \<and> nr_running t = nr_running s - 1 \<and> set (queued L t) = set (queued L s) - {p}
     \<and> (\<forall>i\<in>queues. queue L t i = removeAll p (queue L s i))"
proof -
  obtain t where t: "dequeue_task_dummy L p flags s = Some t" "ok queues (links t)" "same_tasks s t"
      "\<forall>i\<in>queues. queue L t i = removeAll p (queue L s i)" "nr_running t = nr_running s - 1"
    using dequeue_task_dummy_eq [OF inv_ok [OF assms]] by blast
  then have "dummy_inv L ok t"
    using dummy_invD [OF assms] same_tasks_index [OF t(3)] by (simp add: dummy_inv_def)
  moreover have "set (queued L t) = set (queued L s) - {p}" using t(4) by (auto simp: set_queued)
  ultimately show ?thesis using t by blast
qed

lemma requeue_inv:
  assumes "dummy_inv L ok s" and "p \<in> set (queued L s)" and "queue_index (task_of s p) = Some b"
  shows "\<exists>t. requeue_task_dummy L p flags s = Some t \<and> dummy_inv L ok t \<and> same_tasks s t
     \<and> nr_running t = nr_running s \<and> set (queued L t) = set (queued L s)
     \<and> dummy_timeslice t = dummy_timeslice s
     \<and> (\<forall>i\<in>queues. queue L t i = removeAll p (queue L s i) @ (if i = b then [p] else []))
     \<and> (\<forall>q. q \<noteq> p \<longrightarrow> untouched s t q) \<and> need_resched (task_of t p)"
proof -
  obtain t where t: "requeue_task_dummy L p flags s = Some t" "ok queues (links t)" "same_tasks s t"
      "\<forall>i\<in>queues. queue L t i = removeAll p (queue L s i) @ (if i = b then [p] else [])"
      "nr_running t = nr_running s" "dummy_timeslice t = dummy_timeslice s"
      "\<forall>q. q \<noteq> p \<longrightarrow> task_of t q = task_of s q" "need_resched (task_of t p)"
    using requeue_task_dummy_eq [OF inv_ok [OF assms(1)] assms(3)] by blast
  have "\<exists>c. queue_index (task_of t q) = Some c \<and> i \<le> c" if "i \<in> queues" "q \<in> set (queue L t i)" for i q
    using that t(4) assms(3) dummy_invD [OF assms(1) that(1), of q] same_tasks_index [OF t(3)]
    by (auto split: if_splits)
  then have "dummy_inv L ok t" using t(2) by (simp add: dummy_inv_def)
  moreover have "set (queued L t) = set (queued L s)"
    using t(4) queue_index_bound [OF assms(3)] assms(2) by (auto simp: set_queued split: if_splits)
  moreover have "untouched s t q" if "q \<noteq> p" for q
    using that t(4,7) by (auto simp: untouched_def split: if_splits)
  ultimately show ?thesis using t by blast
qed

lemma age_queues_inv:
  assumes "dummy_inv L ok s"
  shows "dummy_inv L ok (age_queues L s) \<and> same_tasks s (age_queues L s)
     \<and> nr_running (age_queues L s) = nr_running s \<and> dummy_timeslice (age_queues L s) = dummy_timeslice s
     \<and> set (queued L (age_queues L s)) = set (queued L s)
     \<and> (\<forall>i\<in>queues. 0 < i \<longrightarrow> (\<forall>p\<in>set (queue L s i). aged i s (age_queues L s) p))
     \<and> (\<forall>p\<in>set (queue L s 0). untouched s (age_queues L s) p)"
proof -
  let ?t = "age_queues L s"
  have eq: "{1..<DUMMY_QUEUE_SIZE} = {i \<in> queues. 0 < i}" by (auto simp: queues_def)
  then have sub: "{1..<DUMMY_QUEUE_SIZE} \<subseteq> queues" by auto
  have t: "dummy_inv L ok ?t" "same_tasks s ?t" "nr_running ?t = nr_running s"
      "dummy_timeslice ?t = dummy_timeslice s" "\<forall>i\<in>{1..<DUMMY_QUEUE_SIZE}. \<forall>p\<in>set (queue L s i). aged i s ?t p"
      "\<forall>p. (\<forall>i\<in>{1..<DUMMY_QUEUE_SIZE}. p \<notin> set (queue L s i)) \<longrightarrow> untouched s ?t p"
    using age_passes [OF assms _ sub] unfolding age_queues_def by simp_all
  have 0: "untouched s ?t p" if "p \<in> set (queue L s 0)" for p
    using t(6) queue_unique [OF inv_ok [OF assms] _ _ that] unfolding eq
    by (auto simp: queues_def DUMMY_QUEUE_SIZE_def)
  have "p \<in> set (queued L ?t) \<longleftrightarrow> p \<in> set (queued L s)" for p
  proof (cases "\<exists>i\<in>{1..<DUMMY_QUEUE_SIZE}. p \<in> set (queue L s i)")
    case True
    then obtain i where i: "i \<in> queues" "0 < i" "p \<in> set (queue L s i)" using eq by auto
    moreover from this have "aged i s ?t p" using t(5) eq by auto
    moreover have "i - 1 \<in> queues" using i by (auto simp: queues_def)
    ultimately show ?thesis by (auto simp: set_queued aged_def split: if_splits)
  next
    case False
    with t(6) have "untouched s ?t p" by blast
    then show ?thesis by (auto simp: set_queued untouched_def)
  qed
  then have "set (queued L ?t) = set (queued L s)" by blast
  then show ?thesis using t 0 eq by auto
qed

lemma dummy_inv_timeslice [simp]: "dummy_inv L ok (s\<lparr>dummy_timeslice := k\<rparr>) = dummy_inv L ok s"
  "queue L (s\<lparr>dummy_timeslice := k\<rparr>) = queue L s" "queued L (s\<lparr>dummy_timeslice := k\<rparr>) = queued L s"
  "untouched s (t\<lparr>dummy_timeslice := k\<rparr>) p = untouched s t p"
  "aged i s (t\<lparr>dummy_timeslice := k\<rparr>) p = aged i s t p"
  by (simp_all add: dummy_inv_def queue_def [abs_def] queued_def untouched_def aged_def)

lemma untouched_source [simp]: "untouched (s\<lparr>dummy_timeslice := k\<rparr>) t p = untouched s t p"
  by (simp add: untouched_def)

lemma same_tasks_source [simp]: "same_tasks (s\<lparr>dummy_timeslice := k\<rparr>) t = same_tasks s t"
  by (simp add: same_tasks_def)

lemma aged_untouched: "i \<in> queues \<Longrightarrow> aged i s t p \<Longrightarrow> untouched t u p \<Longrightarrow> aged i s u p"
  by (auto simp: aged_def untouched_def queues_def split: if_splits)

lemma queued_index: "dummy_inv L ok s \<Longrightarrow> p \<in> set (queued L s) \<Longrightarrow> \<exists>b. queue_index (task_of s p) = Some b"
  by (auto simp: set_queued dest: dummy_invD)

lemma task_tick_inv:
  assumes "dummy_inv L ok s" and "cur \<in> set (queued L s)"
  shows "\<exists>t. task_tick_dummy L cur queue_flag s = Some t \<and> dummy_inv L ok t \<and> same_tasks s t
     \<and> nr_running t = nr_running s \<and> set (queued L t) = set (queued L s)
     \<and> (\<forall>p. p \<noteq> cur \<longrightarrow> (\<forall>i\<in>queues. p \<in> set (queue L s i) \<longrightarrow> (if 0 < i then aged i s t p else untouched s t p)))"
proof -
  let ?s1 = "age_queues L s" let ?s2 = "?s1\<lparr>dummy_timeslice := dummy_timeslice ?s1 + 1\<rparr>"
  have a: "dummy_inv L ok ?s1" "same_tasks s ?s1" "nr_running ?s1 = nr_running s"
      "set (queued L ?s1) = set (queued L s)"
      "\<forall>i\<in>queues. 0 < i \<longrightarrow> (\<forall>p\<in>set (queue L s i). aged i s ?s1 p)"
      "\<forall>p\<in>set (queue L s 0). untouched s ?s1 p"
    using age_queues_inv [OF assms(1)] by auto
  show ?thesis
  proof (cases "dummy_timeslice ?s1 \<ge> get_timeslice ?s2")
    case False
    then show ?thesis
      using a by (intro exI [of _ ?s2]) (auto simp: task_tick_dummy_def Let_def)
  next
    case True
    have "dummy_inv L ok ?s2" "cur \<in> set (queued L ?s2)" using a assms(2) by auto
    from queued_index [OF this] obtain b where "queue_index (task_of ?s2 cur) = Some b" by blast
    from requeue_inv [OF \<open>dummy_inv L ok ?s2\<close> \<open>cur \<in> set (queued L ?s2)\<close> this, of 0]
    obtain t where t: "requeue_task_dummy L cur 0 ?s2 = Some t" "dummy_inv L ok t" "same_tasks ?s2 t"
        "nr_running t = nr_running ?s2" "set (queued L t) = set (queued L ?s2)"
        "\<forall>q. q \<noteq> cur \<longrightarrow> untouched ?s2 t q" by blast
    have t6: "\<forall>q. q \<noteq> cur \<longrightarrow> untouched ?s1 t q" using t(6) unfolding untouched_source .
    let ?t = "t\<lparr>dummy_timeslice := 0\<rparr>"
    have "same_tasks s ?t" using same_tasks_trans [OF a(2), of t] t(3) by simp
    moreover have "if 0 < i then aged i s ?t p else untouched s ?t p"
      if "p \<noteq> cur" "i \<in> queues" "p \<in> set (queue L s i)" for p i
    proof (cases "0 < i")
      case True
      with a(5) that have "aged i s ?s1 p" by blast
      with t6 that True show ?thesis using aged_untouched [of i s ?s1 p t] by simp
    next
      case False
      with a(6) that have "untouched s ?s1 p" by auto
      with t6 that False show ?thesis using untouched_trans [of s ?s1 p t] by simp
    qed
    then have "\<forall>p. p \<noteq> cur \<longrightarrow> (\<forall>i\<in>queues. p \<in> set (queue L s i) \<longrightarrow>
        (if 0 < i then aged i s ?t p else untouched s ?t p))" by blast
    moreover have "task_tick_dummy L cur queue_flag s = Some ?t"
      using True t(1) by (simp add: task_tick_dummy_def Let_def)
    ultimately show ?thesis
      using t(2,4,5) a(3,4) by (intro exI [of _ ?t]) simp
  qed
qed

lemma init_queues_ok:
  "ok {..<n} (init_queues L n h) \<and> (\<forall>i<n. l_each L i (init_queues L n h) = [])"
proof (induction n)
  case 0
  then show ?case using wf_none by simp
next
  case (Suc n)
  then show ?case
    using wf_init [of "{..<n}" "init_queues L n h" n] each_init [of "{..<n}" "init_queues L n h" _ n]
    by (auto simp: lessThan_Suc less_Suc_eq)
qed

lemma init_dummy_inv: "dummy_inv L ok (init_dummy_rq L s) \<and> queued L (init_dummy_rq L s) = []"
  using init_queues_ok [of DUMMY_QUEUE_SIZE "links s"]
  by (auto simp: dummy_inv_def init_dummy_rq_def queues_def queue_def queued_def)

lemma pick_queue_eq:
  "ok queues h \<Longrightarrow> set is \<subseteq> queues \<Longrightarrow>
     pick_queue L h is = map_option (\<lambda>i. hd (l_each L i h)) (List.find (\<lambda>i. l_each L i h \<noteq> []) is)"
  by (induction "is") (auto simp: empty_iff first_hd)

lemma find_append: "List.find P (xs @ ys) = (case List.find P xs of None \<Rightarrow> List.find P ys | Some x \<Rightarrow> Some x)"
  by (induction xs) auto

lemma find_upt_least:
  "List.find P [0..<n] = (if \<exists>i<n. P i then Some (LEAST i. P i) else None)"
proof (induction n)
  case (Suc n)
  have "(LEAST i. P i) = n" if "P n" "\<forall>i<n. \<not> P i"
    using that by (intro Least_equality) (auto simp: not_less)
  with Suc show ?case by (auto simp: find_append less_Suc_eq split: option.splits if_splits)
qed simp

end

section \<open>Runs of the class\<close>

text \<open>
  The ways in which the class is used: a task that is not queued is put in, one that is queued is
  taken out, the current task is one of the class's and the timer ticks or it yields, the next task
  is picked, and priorities of tasks outside the queues change.
\<close>

inductive dummy_step :: "'h list_ops \<Rightarrow> ('h, 'r, 'x) sched \<Rightarrow> ('h, 'r, 'x) sched \<Rightarrow> bool" for L where
  step_enqueue: "p \<notin> set (queued L s) \<Longrightarrow> queue_index (task_of s p) = Some b
     \<Longrightarrow> enqueue_task_dummy L p f s = Some t \<Longrightarrow> dummy_step L s t"
| step_dequeue: "p \<in> set (queued L s) \<Longrightarrow> dequeue_task_dummy L p f s = Some t \<Longrightarrow> dummy_step L s t"
| step_tick: "rq_curr s \<in> set (queued L s) \<Longrightarrow> task_tick_dummy L (rq_curr s) f s = Some t \<Longrightarrow> dummy_step L s t"
| step_yield: "rq_curr s \<in> set (queued L s) \<Longrightarrow> yield_task_dummy L s = Some t \<Longrightarrow> dummy_step L s t"
| step_pick: "pick_next_task_dummy L s = Some (Some p, t) \<Longrightarrow> dummy_step L s (t\<lparr>rq_curr := p\<rparr>)"
| step_preempt: "check_preempt_curr_dummy p f s = Some t \<Longrightarrow> dummy_step L s t"
| step_switched: "switched_to_dummy p s = Some t \<Longrightarrow> dummy_step L s t"
| step_prio_changed: "prio_changed_dummy p v s = Some t \<Longrightarrow> dummy_step L s t"
| step_renice: "p \<notin> set (queued L s) \<Longrightarrow> dummy_step L s (upd_task p (prio_update (\<lambda>_. v)) s)"

inductive_cases dummy_stepE: "dummy_step L s t"

context klist
begin

definition balance :: "('h, 'r, 'x) sched \<Rightarrow> u32" where
  "balance s = nr_running s - of_nat (length (queued L s))"

lemma balance_cong:
  assumes "dummy_inv L ok s" "dummy_inv L ok t" "nr_running t = nr_running s" "set (queued L t) = set (queued L s)"
  shows "balance t = balance s"
  using assms length_queued [OF inv_ok] unfolding balance_def by metis

lemma inv_same_links:
  assumes "dummy_inv L ok s" "links t = links s" "\<And>p. p \<in> set (queued L s) \<Longrightarrow> prio (task_of t p) = prio (task_of s p)"
  shows "dummy_inv L ok t"
proof -
  have q: "queue L t = queue L s" using assms(2) by (simp add: queue_def [abs_def])
  have "\<exists>b. queue_index (task_of t p) = Some b \<and> i \<le> b" if "i \<in> queues" "p \<in> set (queue L s i)" for i p
  proof -
    have "p \<in> set (queued L s)" using that by (auto simp: set_queued)
    from queue_index_cong [OF assms(3) [OF this]] dummy_invD [OF assms(1) that] show ?thesis by simp
  qed
  then show ?thesis using assms(1,2) q by (simp add: dummy_inv_def)
qed

lemma same_links_keep:
  assumes "dummy_inv L ok s" "links t = links s" "nr_running t = nr_running s"
    "\<And>p. p \<in> set (queued L s) \<Longrightarrow> prio (task_of t p) = prio (task_of s p)"
  shows "dummy_inv L ok t \<and> balance t = balance s"
proof -
  have "queued L t = queued L s" using assms(2) by (simp add: queued_def queue_def [abs_def])
  with inv_same_links [OF assms(1,2,4)] assms(3) show ?thesis by (simp add: balance_def)
qed

lemma resched_keeps:
  "dummy_inv L ok s \<Longrightarrow> dummy_inv L ok (resched_task p s)" "balance (resched_task p s) = balance s"
  using same_links_keep [of s "resched_task p s"] by (auto simp: balance_def queued_def)

lemma dummy_step_keeps:
  assumes "dummy_step L s t" and "dummy_inv L ok s"
  shows "dummy_inv L ok t \<and> balance t = balance s"
  using assms(1)
proof (cases rule: dummy_step.cases)
  case (step_enqueue p b f)
  from enqueue_inv [OF assms(2) step_enqueue(1,2), of f] step_enqueue(3)
  have t: "dummy_inv L ok t" "nr_running t = nr_running s + 1" "set (queued L t) = insert p (set (queued L s))"
    by auto
  then have "length (queued L t) = Suc (length (queued L s))"
    using length_queued inv_ok assms(2) step_enqueue(1) by (metis card_insert_disjoint finite_set)
  with t show ?thesis by (simp add: balance_def)
next
  case (step_dequeue p f)
  from dequeue_inv [OF assms(2), of p f] step_dequeue(2)
  have t: "dummy_inv L ok t" "nr_running t = nr_running s - 1" "set (queued L t) = set (queued L s) - {p}"
    by fastforce+
  then have "Suc (length (queued L t)) = length (queued L s)"
    using length_queued inv_ok assms(2) step_dequeue(1) by (metis card.remove finite_set)
  with t have "balance t = nr_running s - (1 + of_nat (length (queued L t)))" by (simp add: balance_def)
  also have "\<dots> = balance s"
    using \<open>Suc (length (queued L t)) = length (queued L s)\<close> [symmetric] by (simp add: balance_def)
  finally show ?thesis using t(1) by simp
next
  case (step_tick f)
  from task_tick_inv [OF assms(2) step_tick(1), of f] step_tick(2)
  have "dummy_inv L ok t" "nr_running t = nr_running s" "set (queued L t) = set (queued L s)" by fastforce+
  then show ?thesis using balance_cong [OF assms(2)] by blast
next
  case step_yield
  obtain b where "queue_index (task_of s (rq_curr s)) = Some b" using queued_index [OF assms(2) step_yield(1)] by blast
  from requeue_inv [OF assms(2) step_yield(1) this, of 0] step_yield(2)
  have "dummy_inv L ok t" "nr_running t = nr_running s" "set (queued L t) = set (queued L s)"
    unfolding yield_task_dummy_def by fastforce+
  then show ?thesis using balance_cong [OF assms(2)] by blast
next
  case (step_pick p u)
  then show ?thesis
    by (intro same_links_keep [OF assms(2)])
       (auto simp: pick_next_task_dummy_def split: option.splits if_splits)
next
  case (step_renice p v)
  then show ?thesis by (intro same_links_keep [OF assms(2)]) auto
qed (insert assms(2), auto simp: check_preempt_curr_dummy_def switched_to_dummy_def prio_changed_dummy_def
       resched_keeps split: if_splits)

lemma dummy_reach_keeps:
  assumes "(dummy_step L)\<^sup>*\<^sup>* s t" and "dummy_inv L ok s"
  shows "dummy_inv L ok t \<and> balance t = balance s"
  using assms by (induction rule: rtranclp_induct) (auto dest: dummy_step_keeps)

end

text \<open>
  Between two moments at which a task \<open>p\<close> is picked or dequeued: it waits while \<open>n\<close> timer ticks and
  any number of other operations, on other tasks, go by.
\<close>

inductive dummy_wait :: "'h list_ops \<Rightarrow> nat \<Rightarrow> nat \<Rightarrow> ('h, 'r, 'x) sched \<Rightarrow> ('h, 'r, 'x) sched \<Rightarrow> bool" for L p where
  wait_refl: "dummy_wait L p 0 s s"
| wait_tick: "dummy_wait L p n s t \<Longrightarrow> rq_curr t \<noteq> p \<Longrightarrow> rq_curr t \<in> set (queued L t)
     \<Longrightarrow> task_tick_dummy L (rq_curr t) f t = Some u \<Longrightarrow> dummy_wait L p (Suc n) s u"
| wait_yield: "dummy_wait L p n s t \<Longrightarrow> rq_curr t \<noteq> p \<Longrightarrow> rq_curr t \<in> set (queued L t)
     \<Longrightarrow> yield_task_dummy L t = Some u \<Longrightarrow> dummy_wait L p n s u"
| wait_enqueue: "dummy_wait L p n s t \<Longrightarrow> q \<notin> set (queued L t) \<Longrightarrow> queue_index (task_of t q) = Some b
     \<Longrightarrow> enqueue_task_dummy L q f t = Some u \<Longrightarrow> dummy_wait L p n s u"
| wait_dequeue: "dummy_wait L p n s t \<Longrightarrow> q \<noteq> p \<Longrightarrow> dequeue_task_dummy L q f t = Some u \<Longrightarrow> dummy_wait L p n s u"
| wait_pick: "dummy_wait L p n s t \<Longrightarrow> q \<noteq> p \<Longrightarrow> pick_next_task_dummy L t = Some (Some q, u)
     \<Longrightarrow> dummy_wait L p n s (u\<lparr>rq_curr := q\<rparr>)"

context klist
begin

text \<open>The ticks that a task in queue \<open>i\<close> still has to wait before it is in queue 0.\<close>

definition waiting :: "nat \<Rightarrow> nat \<Rightarrow> ('h, 'r, 'x) sched \<Rightarrow> nat \<Rightarrow> bool" where
  "waiting T p s r \<longleftrightarrow> dummy_inv L ok s \<and> unat (sysctl_age_threshold s) = T \<and>
     (\<exists>i\<in>queues. p \<in> set (queue L s i) \<and> unat (dummy_age_tick (task_of s p)) \<le> T + 1
        \<and> r = i * (T + 2) - unat (dummy_age_tick (task_of s p)))"

lemma waiting_keep:
  assumes "waiting T p s r" and "dummy_inv L ok t" and "sysctl_age_threshold t = sysctl_age_threshold s"
    and "\<And>i. i \<in> queues \<Longrightarrow> p \<in> set (queue L s i) \<Longrightarrow> p \<in> set (queue L t i)"
    and "dummy_age_tick (task_of t p) = dummy_age_tick (task_of s p)"
  shows "waiting T p t r"
  using assms unfolding waiting_def by metis

lemma aged_waiting:
  assumes "waiting T p s r" and "dummy_inv L ok t" and "sysctl_age_threshold t = sysctl_age_threshold s"
    and "T + 1 < 2 ^ 32"
    and "\<forall>i\<in>queues. p \<in> set (queue L s i) \<longrightarrow> (if 0 < i then aged i s t p else untouched s t p)"
  shows "waiting T p t (r - 1)"
proof -
  let ?a = "dummy_age_tick (task_of s p)"
  from assms(1) obtain i where i: "i \<in> queues" "p \<in> set (queue L s i)" "unat ?a \<le> T + 1"
      "r = i * (T + 2) - unat ?a" and T: "unat (sysctl_age_threshold s) = T"
    unfolding waiting_def by blast
  show ?thesis
  proof (cases "0 < i")
    case False
    with assms(5) i have "untouched s t p" "r = 0" by auto
    with i T False assms(2,3) show ?thesis by (auto simp: waiting_def untouched_def)
  next
    case True
    with assms(5) i have ag: "aged i s t p" by auto
    have i1: "i - 1 \<in> queues" using i(1) by (auto simp: queues_def)
    show ?thesis
    proof (cases "?a > sysctl_age_threshold s")
      case True
      then have "unat ?a = T + 1" using T i(3) by (simp add: word_less_nat_alt)
      with i(4) \<open>0 < i\<close> have "r - 1 = (i - 1) * (T + 2) - 0" by (cases i) auto
      with True ag i1 T assms(2,3) show ?thesis by (auto simp: waiting_def aged_def)
    next
      case False
      then have "unat ?a \<le> T" using T by (simp add: word_le_nat_alt not_less)
      then have "unat (?a + 1) = unat ?a + 1" using assms(4)
        by (simp add: unat_word_ariths)
      with False ag i T \<open>unat ?a \<le> T\<close> assms(2,3) show ?thesis by (auto simp: waiting_def aged_def)
    qed
  qed
qed

lemma dummy_wait_waiting:
  assumes "dummy_wait L p n s t" and "waiting T p s r" and "T + 1 < 2 ^ 32"
  shows "waiting T p t (r - n)"
  using assms(1,2)
proof (induction rule: dummy_wait.induct)
  case (wait_tick n s t f u)
  then have w: "waiting T p t (r - n)" and inv: "dummy_inv L ok t" by (auto simp: waiting_def)
  from task_tick_inv [OF inv wait_tick.hyps(3), of f] wait_tick.hyps(2,4)
  have "dummy_inv L ok u" "same_tasks t u"
    "\<forall>i\<in>queues. p \<in> set (queue L t i) \<longrightarrow> (if 0 < i then aged i t u p else untouched t u p)" by auto
  from aged_waiting [OF w this(1) _ assms(3) this(3)] this(2) show ?case by (simp add: same_tasks_def)
next
  case (wait_yield n s t u)
  then have w: "waiting T p t (r - n)" and inv: "dummy_inv L ok t" by (auto simp: waiting_def)
  obtain b where "queue_index (task_of t (rq_curr t)) = Some b" using queued_index [OF inv wait_yield.hyps(3)] by blast
  from requeue_inv [OF inv wait_yield.hyps(3) this, of 0] wait_yield.hyps(2,4)
  have "dummy_inv L ok u" "same_tasks t u" "untouched t u p" by (auto simp: yield_task_dummy_def)
  then show ?case using w by (intro waiting_keep [OF w]) (auto simp: same_tasks_def untouched_def)
next
  case (wait_enqueue n s t q b f u)
  then have w: "waiting T p t (r - n)" and inv: "dummy_inv L ok t" by (auto simp: waiting_def)
  have "p \<in> set (queued L t)" using w by (auto simp: waiting_def set_queued)
  with wait_enqueue.hyps have "p \<noteq> q" by auto
  from enqueue_inv [OF inv wait_enqueue.hyps(2,3), of f] wait_enqueue.hyps(4)
  have "dummy_inv L ok u" "same_tasks t u" "\<forall>i\<in>queues. queue L u i = queue L t i @ (if i = b then [q] else [])" by auto
  moreover have "task_of u p = task_of t p"
    using enqueue_task_dummy_eq [OF inv_ok [OF inv] wait_enqueue.hyps(2,3), of f] wait_enqueue.hyps(4) \<open>p \<noteq> q\<close> by auto
  ultimately show ?case by (intro waiting_keep [OF w]) (auto simp: same_tasks_def)
next
  case (wait_dequeue n s t q f u)
  then have w: "waiting T p t (r - n)" and inv: "dummy_inv L ok t" by (auto simp: waiting_def)
  from dequeue_inv [OF inv, of q f] wait_dequeue.hyps(3)
  have "dummy_inv L ok u" "same_tasks t u" "\<forall>i\<in>queues. queue L u i = removeAll q (queue L t i)" by auto
  moreover have "task_of u p = task_of t p"
    using dequeue_task_dummy_eq [OF inv_ok [OF inv], of q f] wait_dequeue.hyps(3) by auto
  ultimately show ?case using wait_dequeue.hyps(2) by (intro waiting_keep [OF w]) (auto simp: same_tasks_def)
next
  case (wait_pick n s t q u)
  then have w: "waiting T p t (r - n)" and inv: "dummy_inv L ok t" by (auto simp: waiting_def)
  have u: "u = set_age q 0 t"
    using wait_pick.hyps(3) by (auto simp: pick_next_task_dummy_def split: option.splits)
  have "dummy_step L t (u\<lparr>rq_curr := q\<rparr>)" using wait_pick.hyps(3) by (rule dummy_step.step_pick)
  from dummy_step_keeps [OF this inv] show ?case
    using wait_pick.hyps(2) u by (intro waiting_keep [OF w]) (auto simp: queue_def)
qed simp

lemma pick_next_eq:
  assumes "ok queues (links s)"
  shows "pick_next_task_dummy L s =
     Some (if \<exists>i\<in>queues. queue L s i \<noteq> []
           then let p = hd (queue L s (LEAST i. queue L s i \<noteq> [])) in (Some p, set_age p 0 s)
           else (None, s))"
proof -
  have "set [0..<DUMMY_QUEUE_SIZE] \<subseteq> queues" by (auto simp: queues_def)
  from pick_queue_eq [OF assms this] show ?thesis
    unfolding pick_next_task_dummy_def find_upt_least queue_def
    by (simp add: queues_def Let_def Bex_def lessThan_iff)
qed

end

section \<open>Round robin\<close>

text \<open>The current task yields and the next one is picked and made current.\<close>

fun yield_pick :: "'h list_ops \<Rightarrow> nat \<Rightarrow> ('h, 'r, 'x) sched \<Rightarrow> ('h, 'r, 'x) sched option" where
  "yield_pick L 0 s = Some s"
| "yield_pick L (Suc n) s =
     do { t \<leftarrow> yield_task_dummy L s;
          (p, u) \<leftarrow> pick_next_task_dummy L t;
          yield_pick L n (u\<lparr>rq_curr := (case p of Some q \<Rightarrow> q | None \<Rightarrow> rq_curr u)\<rparr>) }"

context klist
begin

text \<open>All queues above queue \<open>b\<close> are empty, and queue \<open>b\<close> holds \<open>xs\<close>, tasks of that priority, the
  current one in front.\<close>

definition rotation :: "nat \<Rightarrow> nat list \<Rightarrow> ('h, 'r, 'x) sched \<Rightarrow> bool" where
  "rotation b xs s \<longleftrightarrow> dummy_inv L ok s \<and> b \<in> queues \<and> (\<forall>i<b. queue L s i = []) \<and> queue L s b = xs
     \<and> xs \<noteq> [] \<and> rq_curr s = hd xs \<and> (\<forall>p\<in>set xs. queue_index (task_of s p) = Some b)"

lemma rotation_step:
  assumes "rotation b xs s"
  shows "\<exists>t u. yield_task_dummy L s = Some t \<and> pick_next_task_dummy L t = Some (Some (hd (rotate1 xs)), u)
     \<and> rotation b (rotate1 xs) (u\<lparr>rq_curr := hd (rotate1 xs)\<rparr>)"
proof -
  from assms obtain x ys where xs: "xs = x # ys" and r: "dummy_inv L ok s" "b \<in> queues"
      "\<forall>i<b. queue L s i = []" "queue L s b = x # ys" "rq_curr s = x"
      "\<forall>p\<in>set xs. queue_index (task_of s p) = Some b"
    by (cases xs) (auto simp: rotation_def)
  have "x \<in> set (queue L s b)" using r(4) by simp
  then have x: "x \<in> set (queued L s)" "queue_index (task_of s x) = Some b"
    using r(2,6) xs by (auto simp: set_queued)
  have "distinct (x # ys)" using wf_distinct [OF inv_ok [OF r(1)] r(2)] r(4) by (simp add: queue_def)
  then have rm: "removeAll x (x # ys) = ys" by simp
  from requeue_inv [OF r(1) x, of 0] obtain t where t: "yield_task_dummy L s = Some t" "dummy_inv L ok t"
      "same_tasks s t" "\<forall>i\<in>queues. queue L t i = removeAll x (queue L s i) @ (if i = b then [x] else [])"
    using r(5) by (auto simp: yield_task_dummy_def)
  have qb: "queue L t b = rotate1 xs" using t(4) r(2,4) rm xs by simp
  have low: "\<forall>i<b. queue L t i = []" using t(4) r(2,3) by (auto simp: queues_def)
  have "(LEAST i. queue L t i \<noteq> []) = b"
    using qb low xs by (intro Least_equality) (auto simp: not_less [symmetric])
  moreover have "\<exists>i\<in>queues. queue L t i \<noteq> []" using qb r(2) xs by (intro bexI [of _ b]) auto
  ultimately have p: "pick_next_task_dummy L t
      = Some (Some (hd (rotate1 xs)), set_age (hd (rotate1 xs)) 0 t)"
    using pick_next_eq [OF inv_ok [OF t(2)]] qb by (simp add: Let_def)
  let ?u = "(set_age (hd (rotate1 xs)) 0 t)\<lparr>rq_curr := hd (rotate1 xs)\<rparr>"
  have "dummy_step L t ?u" using p by (rule dummy_step.step_pick)
  then have "dummy_inv L ok ?u" using dummy_step_keeps t(2) by blast
  moreover have "queue L ?u = queue L t" by (simp add: queue_def [abs_def])
  moreover have "queue_index (task_of ?u q) = queue_index (task_of s q)" for q
    using same_tasks_index [OF t(3), of q] by (auto simp: queue_index_def)
  ultimately have "rotation b (rotate1 xs) ?u"
    using qb low r(2,6) xs by (simp add: rotation_def)
  with t(1) p show ?thesis by blast
qed

lemma yield_pick_rotation:
  assumes "rotation b xs s"
  shows "\<exists>t. yield_pick L n s = Some t \<and> rotation b (rotate n xs) t"
  using assms
proof (induction n arbitrary: xs s)
  case (Suc n)
  from rotation_step [OF Suc.prems] obtain t u where
    "yield_task_dummy L s = Some t" "pick_next_task_dummy L t = Some (Some (hd (rotate1 xs)), u)"
    "rotation b (rotate1 xs) (u\<lparr>rq_curr := hd (rotate1 xs)\<rparr>)" by blast
  with Suc.IH show ?case by (simp add: rotate1_rotate_swap [symmetric] rotate_def funpow_swap1)
qed simp

lemma ticks_wait:
  assumes "dummy_inv L ok s" and "rq_curr s \<in> set (queued L s)" and "rq_curr s \<noteq> p"
  shows "\<exists>t. dummy_wait L p n s t \<and> dummy_inv L ok t \<and> same_tasks s t \<and> set (queued L t) = set (queued L s)"
proof (induction n)
  case 0
  then show ?case using assms dummy_wait.wait_refl same_tasks_refl by blast
next
  case (Suc n)
  then obtain t where t: "dummy_wait L p n s t" "dummy_inv L ok t" "same_tasks s t" "set (queued L t) = set (queued L s)"
    by blast
  then have c: "rq_curr t = rq_curr s" "rq_curr t \<in> set (queued L t)" using assms by (auto simp: same_tasks_def)
  from task_tick_inv [OF t(2) c(2), of 0] obtain u where u: "task_tick_dummy L (rq_curr t) 0 t = Some u"
    "dummy_inv L ok u" "same_tasks t u" "set (queued L u) = set (queued L t)" by blast
  have "dummy_wait L p (Suc n) s u" using dummy_wait.wait_tick [OF t(1) _ c(2) u(1)] c(1) assms(3) by simp
  then show ?case using u t same_tasks_trans by blast
qed

lemma reach_init_keeps:
  assumes "(dummy_step L)\<^sup>*\<^sup>* (init_dummy_rq L s0) s"
  shows "dummy_inv L ok s \<and> nr_running s = nr_running s0 + of_nat (length (queued L s))"
  using dummy_reach_keeps [OF assms] init_dummy_inv [of s0]
  by (auto simp: balance_def init_dummy_rq_def algebra_simps)

end

section \<open>The sample state\<close>

lemma queues_set: "queues = {0, 1, 2, 3, 4}"
  by (auto simp: queues_def DUMMY_QUEUE_SIZE_def)

lemma sample_queue: "queue seq_ops sample_sched = sample_links"
  by (simp add: queue_def [abs_def] seq_ops_def sample_sched_def)

lemma sample_inv: "dummy_inv seq_ops seq_wf sample_sched"
  unfolding dummy_inv_def sample_queue queues_set
  by (simp add: seq_wf_def sample_defs queue_index_def DUMMY_PRIORITY_MIN_def DUMMY_QUEUE_SIZE_def)

lemma sample_queued: "queued seq_ops sample_sched = [1, 2, 3]"
  by (simp add: queued_def sample_queue sample_links_def DUMMY_QUEUE_SIZE_def upt_rec)

lemma sample_step: "dummy_step seq_ops (init_dummy_rq seq_ops sample_sched)
    (the (enqueue_task_dummy seq_ops 3 0 (init_dummy_rq seq_ops sample_sched)))"
proof (rule dummy_step.step_enqueue [of 3 _ _ 2 0])
  show "3 \<notin> set (queued seq_ops (init_dummy_rq seq_ops sample_sched))"
    using seq_list.init_dummy_inv [of sample_sched] by simp
  show *: "queue_index (task_of (init_dummy_rq seq_ops sample_sched) 3) = Some 2"
    by (simp add: queue_index_def init_dummy_rq_def sample_prio_def DUMMY_PRIORITY_MIN_def DUMMY_QUEUE_SIZE_def)
  from * show "enqueue_task_dummy seq_ops 3 0 (init_dummy_rq seq_ops sample_sched)
      = Some (the (enqueue_task_dummy seq_ops 3 0 (init_dummy_rq seq_ops sample_sched)))"
    by (simp add: enqueue_task_dummy_def enqueue_dummy_entity_def queue_index_def)
qed

lemma sample_wait: "\<exists>t. dummy_wait seq_ops 3 64 sample_sched t"
  using seq_list.ticks_wait [OF sample_inv, of 3 64] by (auto simp: sample_queued)

section \<open>Properties\<close>

text \<open>C1: However the class is used after \<open>init_dummy_rq\<close>, its lists stay well formed, each queued
  task is in the queue of its priority or one that aging can have moved it to, no task is queued
  twice, and \<open>nr_running\<close> counts the queued tasks.\<close>

theorem dummy_runs_invariant:
  assumes "klist L ok" and "(dummy_step L)\<^sup>*\<^sup>* (init_dummy_rq L s0) s"
  shows "dummy_inv L ok s \<and> distinct (queued L s)
     \<and> nr_running s = nr_running s0 + of_nat (length (queued L s))"
  using klist.reach_init_keeps [OF assms] klist.distinct_queued [OF assms(1) klist.inv_ok [OF assms(1)]]
  by blast

theorem dummy_runs_invariant_witness:
  "\<exists>s. (dummy_step seq_ops)\<^sup>*\<^sup>* (init_dummy_rq seq_ops sample_sched) s \<and> dummy_inv seq_ops seq_wf s
     \<and> distinct (queued seq_ops s) \<and> nr_running s = 3 + of_nat (length (queued seq_ops s))"
  using dummy_runs_invariant [OF seq_list.klist_axioms r_into_rtranclp [of "dummy_step seq_ops", OF sample_step]]
    r_into_rtranclp [of "dummy_step seq_ops", OF sample_step]
  by auto

text \<open>C35: \<open>pick_next_task_dummy\<close> takes the task that has been longest in the queue of the lowest
  index that is not empty, and reports no task exactly when all five are empty; the picked task's
  age starts again from 0.\<close>

theorem pick_next_task_dummy_first:
  assumes "klist L ok" and "ok queues (links s)"
  shows "pick_next_task_dummy L s =
     Some (if \<exists>i\<in>queues. queue L s i \<noteq> []
           then let p = hd (queue L s (LEAST i. queue L s i \<noteq> [])) in (Some p, set_age p 0 s)
           else (None, s))"
  using klist.pick_next_eq [OF assms] .

theorem pick_next_task_dummy_first_witness:
  "pick_next_task_dummy seq_ops sample_sched = Some (Some 1, set_age 1 0 sample_sched)"
proof -
  have "(LEAST i. queue seq_ops sample_sched i \<noteq> []) = 0"
    by (rule Least_equality) (simp_all add: sample_queue sample_links_def)
  then show ?thesis
    using pick_next_task_dummy_first [of seq_ops seq_wf sample_sched] seq_list.klist_axioms
      seq_list.inv_ok [OF sample_inv]
    by (simp add: Let_def sample_queue sample_links_def queues_set)
qed





text \<open>The preemption test of the class never preempts: whichever task wakes up, the flags of the
  running task stay as they are, since the test looks for a larger priority number, that is a less
  urgent task, and marks the waking task instead of the running one.\<close>

theorem check_preempt_curr_dummy_never:
  "\<exists>t. check_preempt_curr_dummy p flags s = Some t \<and> task_of t (rq_curr s) = task_of s (rq_curr s)"
  by (auto simp: check_preempt_curr_dummy_def)

end
