(* ===== verification/Sched_Fair_Props.thy ===== *)
theory Sched_Fair_Props
  imports Sched_Fair
begin

text \<open>
  Correctness of the fair class: the timeline stays sorted by virtual run time with its leftmost entry
  cached, picking is fair up to the wakeup granularity, placing a task never turns its virtual time
  back, and leaving and re-entering the timeline keeps a task's lag.  Lemmas on the timeline are
  proved in the locale \<open>rbtree\<close>.
\<close>

section \<open>Virtual time\<close>

text \<open>
  Virtual times wrap; they are compared by the sign of a difference.  Inside a window of half the
  range above \<open>base\<close> that is the order of the distances from \<open>base\<close>.
\<close>

definition vdist :: "u64 \<Rightarrow> u64 \<Rightarrow> nat" where
  "vdist base v = unat (v - base)"

lemma uint_bound63: "unat (x :: u64) < 2 ^ 63 \<Longrightarrow> uint x < 2 ^ 63"
proof -
  assume "unat x < 2 ^ 63"
  then have "int (unat x) < int (2 ^ 63)" by (simp only: of_nat_less_iff)
  then show ?thesis by simp
qed

lemma sint_unat64: "unat (x :: u64) < 2 ^ 63 \<Longrightarrow> sint x = int (unat x)"
proof -
  assume "unat x < 2 ^ 63"
  then have "uint x < 2 ^ 63" by (rule uint_bound63)
  moreover have "- (2 ^ 63) \<le> uint x" by (rule order.trans [of _ 0]) simp_all
  ultimately have "signed_take_bit 63 (uint x) = uint x" by (rule signed_take_bit_int_eq_self [rotated])
  then show ?thesis by (simp add: sint_uint)
qed

lemma sint_diff_less:
  assumes "unat (x :: u64) < 2 ^ 63" "unat y < 2 ^ 63"
  shows "sint (x - y) = int (unat x) - int (unat y)"
proof -
  have "sint (x - y) = signed_take_bit 63 (sint x - sint y)" by (simp add: sint_word_ariths)
  also have "\<dots> = sint x - sint y"
  proof (rule signed_take_bit_int_eq_self)
    have "int (unat x) < 2 ^ 63" "int (unat y) < 2 ^ 63" "0 \<le> int (unat x)" "0 \<le> int (unat y)"
      using assms by (simp_all add: uint_bound63 [simplified])
    then show "- (2 ^ 63) \<le> sint x - sint y" "sint x - sint y < 2 ^ 63"
      unfolding sint_unat64 [OF assms(1)] sint_unat64 [OF assms(2)] by linarith+
  qed
  finally show ?thesis using assms by (simp add: sint_unat64)
qed

lemma sint_window:
  assumes "vdist base a < 2 ^ 63" "vdist base b < 2 ^ 63"
  shows "sint (a - b) = int (vdist base a) - int (vdist base b)"
  using sint_diff_less [of "a - base" "b - base"] assms by (simp add: vdist_def)

lemma entity_before_window:
  assumes "vdist base (vruntime a) < 2 ^ 63" "vdist base (vruntime b) < 2 ^ 63"
  shows "entity_before a b \<longleftrightarrow> vdist base (vruntime a) < vdist base (vruntime b)"
  using sint_window [OF assms] by (simp add: entity_before_def)

section \<open>The timeline\<close>

definition timeline :: "('r \<Rightarrow> nat tree) \<Rightarrow> ('h, 'r, 'x) sched \<Rightarrow> nat list" where
  "timeline shape s = inorder (shape (tasks_timeline (cfs s)))"

definition timeline_ok :: "('r \<Rightarrow> nat tree) \<Rightarrow> ('h, 'r, 'x) sched \<Rightarrow> bool" where
  "timeline_ok shape s \<longleftrightarrow> distinct (timeline shape s)
     \<and> rb_leftmost (cfs s) = first_of (timeline shape s)
     \<and> sorted_wrt (\<lambda>a b. \<not> entity_before (se_of s b) (se_of s a)) (timeline shape s)"

lemma sorted_around:
  assumes "sorted_wrt P (xs @ x # ys)"
  shows "sorted_wrt P xs" "sorted_wrt P ys" "\<forall>a\<in>set xs. P a x" "\<forall>b\<in>set ys. P x b"
  using assms by (simp_all add: sorted_wrt_append)

lemma subtrees_refl: "t \<noteq> Leaf \<Longrightarrow> t \<in> subtrees t"
  by (cases t) auto

lemma subtrees_trans: "a \<in> subtrees b \<Longrightarrow> b \<in> subtrees c \<Longrightarrow> a \<in> subtrees c"
  by (induction c) auto

lemma subtrees_child:
  assumes "Node l x r \<in> subtrees t"
  shows "l = Leaf \<or> l \<in> subtrees t" "r = Leaf \<or> r \<in> subtrees t"
  using subtrees_trans [OF _ assms] subtrees_refl [of l] subtrees_refl [of r] by auto

lemma free_link_subtree: "free_link (Some p) t \<Longrightarrow> t \<in> subtrees u \<Longrightarrow> free_link (Some p) u"
  by (cases p; cases "snd p") (auto intro: subtrees_trans)

lemma free_link_elem: "free_link (Some (x, b)) t \<Longrightarrow> x \<in> set (inorder t)"
  by (auto dest: subtree_elem)

lemma free_link_child:
  assumes "free_link (Some p) u" "u = l \<or> u = r"
  shows "free_link (Some p) (Node l x r)"
  using assms by (cases p; cases "snd p") auto

context rbtree
begin

text \<open>The descent ends at an empty link that splits the sequence at the new entity.\<close>

lemma find_place_splits:
  assumes "distinct (inorder (shape h))"
    and "t = Leaf \<or> t \<in> subtrees (shape h)"
    and "distinct (inorder t)"
    and "sorted_wrt (\<lambda>a b. before a \<longrightarrow> before b) (inorder t)"
  shows "\<exists>pos' lm' xs ys. find_place R before h (root_of t) pos lm = Some (pos', lm')
     \<and> inorder t = xs @ ys \<and> (\<forall>a\<in>set xs. \<not> before a) \<and> (\<forall>a\<in>set ys. before a) \<and> lm' = (lm \<and> xs = [])
     \<and> (if t = Leaf then pos' = pos
        else (\<exists>p'. pos' = Some p') \<and> free_link pos' t \<and> link_at n pos' (inorder t) = xs @ n # ys)"
  using assms(2-4)
proof (induction t arbitrary: pos lm)
  case Leaf
  then show ?case by (simp add: find_place.simps [of R before h None])
next
  case (Node l x r)
  then have sub: "Node l x r \<in> subtrees (shape h)" by simp
  have "sorted_wrt (\<lambda>a b. before a \<longrightarrow> before b) (inorder l @ x # inorder r)"
    using Node.prems(3) by (simp only: inorder.simps append_Cons append_Nil)
  note so = sorted_around [OF this]
  have l: "l = Leaf \<or> l \<in> subtrees (shape h)" "distinct (inorder l)"
    using subtrees_child(1) [OF sub] Node.prems(2) by simp_all
  have r: "r = Leaf \<or> r \<in> subtrees (shape h)" "distinct (inorder r)"
    using subtrees_child(2) [OF sub] Node.prems(2) by simp_all
  note mono = so(3,4)
  have x: "x \<notin> set (inorder l)" "set (inorder l) \<inter> set (inorder r) = {}"
    using Node.prems(2) by auto
  show ?case
  proof (cases "before x")
    case True
    obtain pos' lm' xs ys where IH:
      "find_place R before h (root_of l) (Some (x, True)) lm = Some (pos', lm')"
      "inorder l = xs @ ys" "\<forall>a\<in>set xs. \<not> before a" "\<forall>a\<in>set ys. before a" "lm' = (lm \<and> xs = [])"
      "if l = Leaf then pos' = Some (x, True)
       else (\<exists>p'. pos' = Some p') \<and> free_link pos' l \<and> link_at n pos' (inorder l) = xs @ n # ys"
      using Node.IH(1) [OF l so(1), of "Some (x, True)" lm] by blast
    have "find_place R before h (root_of (Node l x r)) pos lm = Some (pos', lm')"
      using True IH(1) left_child [OF assms(1) sub] by (simp add: find_place.simps [of R before h "Some x"])
    moreover have "inorder (Node l x r) = xs @ (ys @ x # inorder r)" using IH(2) by simp
    moreover have "\<forall>a\<in>set (ys @ x # inorder r). before a" using IH(4) True mono(2) by auto
    moreover have "(\<exists>p'. pos' = Some p') \<and> free_link pos' (Node l x r)
        \<and> link_at n pos' (inorder (Node l x r)) = xs @ n # (ys @ x # inorder r)"
    proof (cases "l = Leaf")
      case True
      with IH(2,6) show ?thesis by auto
    next
      case False
      with IH(6) obtain y b where p': "pos' = Some (y, b)" "free_link (Some (y, b)) l"
          "link_at n (Some (y, b)) (inorder l) = xs @ n # ys" by auto
      with free_link_elem [OF p'(2)] show ?thesis
        using free_link_child [of "(y, b)" l l r x] by (simp add: link_at_append)
    qed
    ultimately show ?thesis
      using IH(3,5) by (intro exI [of _ pos'] exI [of _ lm'] exI [of _ xs] exI [of _ "ys @ x # inorder r"]) auto
  next
    case False
    obtain pos' lm' xs ys where IH:
      "find_place R before h (root_of r) (Some (x, False)) False = Some (pos', lm')"
      "inorder r = xs @ ys" "\<forall>a\<in>set xs. \<not> before a" "\<forall>a\<in>set ys. before a" "\<not> lm'"
      "if r = Leaf then pos' = Some (x, False)
       else (\<exists>p'. pos' = Some p') \<and> free_link pos' r \<and> link_at n pos' (inorder r) = xs @ n # ys"
      using Node.IH(2) [OF r so(2), of "Some (x, False)" False] by auto
    have "find_place R before h (root_of (Node l x r)) pos lm = Some (pos', False)"
      using False IH(1,5) right_child [OF assms(1) sub] by (simp add: find_place.simps [of R before h "Some x"])
    moreover have "inorder (Node l x r) = (inorder l @ x # xs) @ ys" using IH(2) by simp
    moreover have "\<forall>a\<in>set (inorder l @ x # xs). \<not> before a" using IH(3) False mono(1) by auto
    moreover have "(\<exists>p'. pos' = Some p') \<and> free_link pos' (Node l x r)
        \<and> link_at n pos' (inorder (Node l x r)) = (inorder l @ x # xs) @ n # ys"
    proof (cases "r = Leaf")
      case True
      with IH(2,6) x show ?thesis by (auto simp: link_at_append)
    next
      case False
      with IH(6) obtain y b where p': "pos' = Some (y, b)" "free_link (Some (y, b)) r"
          "link_at n (Some (y, b)) (inorder r) = xs @ n # ys" by auto
      have "y \<in> set (inorder r)" using free_link_elem [OF p'(2)] .
      then have "y \<notin> set (inorder l)" "y \<noteq> x" using x Node.prems(2) by auto
      with p' show ?thesis
        using free_link_child [of "(y, b)" r l r x] by (simp add: link_at_append)
    qed
    ultimately show ?thesis
      using IH(4) by (intro exI [of _ pos'] exI [of _ False] exI [of _ "inorder l @ x # xs"] exI [of _ ys]) auto
  qed
qed

lemma raw_enqueue_entity_eq:
  assumes "distinct (timeline shape s)" and "p \<notin> set (timeline shape s)"
    and "sorted_wrt (\<lambda>a b. entity_before (se_of s p) (se_of s a) \<longrightarrow> entity_before (se_of s p) (se_of s b))
           (timeline shape s)"
  shows "\<exists>xs ys c. raw_enqueue_entity R p s = Some (s\<lparr>cfs := c\<rparr>) \<and> timeline shape s = xs @ ys
     \<and> timeline shape (s\<lparr>cfs := c\<rparr>) = xs @ p # ys
     \<and> (\<forall>a\<in>set xs. \<not> entity_before (se_of s p) (se_of s a)) \<and> (\<forall>a\<in>set ys. entity_before (se_of s p) (se_of s a))
     \<and> c = (cfs s)\<lparr>tasks_timeline := tasks_timeline c, rb_leftmost := (if xs = [] then Some p else rb_leftmost (cfs s))\<rparr>"
proof -
  let ?h = "tasks_timeline (cfs s)" let ?before = "\<lambda>x. entity_before (se_of s p) (se_of s x)"
  have d: "distinct (inorder (shape ?h))" using assms(1) by (simp add: timeline_def)
  have sub: "shape ?h = Leaf \<or> shape ?h \<in> subtrees (shape ?h)" using subtrees_refl by blast
  obtain pos lm xs ys where f: "find_place R ?before ?h (r_root R ?h) None True = Some (pos, lm)"
      "inorder (shape ?h) = xs @ ys" "\<forall>a\<in>set xs. \<not> ?before a" "\<forall>a\<in>set ys. ?before a" "lm = (xs = [])"
      "if shape ?h = Leaf then pos = None
       else (\<exists>p'. pos = Some p') \<and> free_link pos (shape ?h) \<and> link_at p pos (inorder (shape ?h)) = xs @ p # ys"
    using find_place_splits [OF d sub d, of ?before None True p] assms(3) root_node [of ?h]
    by (auto simp: timeline_def)
  have "free_link pos (shape ?h) \<and> link_at p pos (inorder (shape ?h)) = xs @ p # ys"
    using f(2,6) by (cases "shape ?h = Leaf") auto
  then have ins: "inorder (shape (r_insert R p pos ?h)) = xs @ p # ys"
    using inorder_insert [OF d, of p pos] assms(2) by (simp add: timeline_def)
  let ?c = "(cfs s)\<lparr>tasks_timeline := r_insert R p pos ?h,
     rb_leftmost := (if xs = [] then Some p else rb_leftmost (cfs s))\<rparr>"
  have "raw_enqueue_entity R p s = Some (s\<lparr>cfs := ?c\<rparr>)"
    using f(1,5) by (cases "xs = []") (simp_all add: raw_enqueue_entity_def Let_def upd_cfs_def)
  moreover have "timeline shape (s\<lparr>cfs := ?c\<rparr>) = xs @ p # ys" using ins by (simp add: timeline_def)
  ultimately show ?thesis
    using f(2,3,4) by (intro exI [of _ xs] exI [of _ ys] exI [of _ ?c]) (simp add: timeline_def)
qed

lemma raw_enqueue_entity_ok:
  assumes "timeline_ok shape s" and "p \<notin> set (timeline shape s)"
    and win: "\<forall>q\<in>insert p (set (timeline shape s)). vdist base (vruntime (se_of s q)) < 2 ^ 63"
  shows "\<exists>c. raw_enqueue_entity R p s = Some (s\<lparr>cfs := c\<rparr>) \<and> timeline_ok shape (s\<lparr>cfs := c\<rparr>)
     \<and> set (timeline shape (s\<lparr>cfs := c\<rparr>)) = insert p (set (timeline shape s))
     \<and> length (timeline shape (s\<lparr>cfs := c\<rparr>)) = Suc (length (timeline shape s))
     \<and> c = (cfs s)\<lparr>tasks_timeline := tasks_timeline c, rb_leftmost := rb_leftmost c\<rparr>"
proof -
  let ?k = "\<lambda>q. vdist base (vruntime (se_of s q))"
  have eb: "entity_before (se_of s a) (se_of s b) \<longleftrightarrow> ?k a < ?k b"
    if "a \<in> insert p (set (timeline shape s))" "b \<in> insert p (set (timeline shape s))" for a b
    using entity_before_window [of base "se_of s a" "se_of s b"] win that by blast
  have d: "distinct (timeline shape s)" and lm: "rb_leftmost (cfs s) = first_of (timeline shape s)"
    and so: "sorted_wrt (\<lambda>a b. \<not> entity_before (se_of s b) (se_of s a)) (timeline shape s)"
    using assms(1) by (auto simp: timeline_ok_def)
  have so': "sorted_wrt (\<lambda>a b. ?k a \<le> ?k b) (timeline shape s)"
    using so by (rule sorted_wrt_mono_rel [rotated]) (auto simp: eb not_less)
  have mono: "sorted_wrt (\<lambda>a b. entity_before (se_of s p) (se_of s a) \<longrightarrow> entity_before (se_of s p) (se_of s b))
      (timeline shape s)"
    using so' by (rule sorted_wrt_mono_rel [rotated]) (auto simp: eb)
  obtain xs ys c where e: "raw_enqueue_entity R p s = Some (s\<lparr>cfs := c\<rparr>)" "timeline shape s = xs @ ys"
      "timeline shape (s\<lparr>cfs := c\<rparr>) = xs @ p # ys" "\<forall>a\<in>set xs. \<not> entity_before (se_of s p) (se_of s a)"
      "\<forall>a\<in>set ys. entity_before (se_of s p) (se_of s a)"
      "c = (cfs s)\<lparr>tasks_timeline := tasks_timeline c, rb_leftmost := (if xs = [] then Some p else rb_leftmost (cfs s))\<rparr>"
    using raw_enqueue_entity_eq [OF d assms(2) mono] by blast
  have "sorted_wrt (\<lambda>a b. ?k a \<le> ?k b) (xs @ p # ys)"
    using so' e(2,4,5) by (auto simp: sorted_wrt_append eb not_less)
  then have "sorted_wrt (\<lambda>a b. \<not> entity_before (se_of s b) (se_of s a)) (xs @ p # ys)"
    by (rule sorted_wrt_mono_rel [rotated]) (auto simp: eb e(2) not_less)
  moreover have lm': "rb_leftmost c = (if xs = [] then Some p else rb_leftmost (cfs s))"
    using arg_cong [OF e(6), of rb_leftmost] by simp
  then have "rb_leftmost c = first_of (xs @ p # ys)"
    using lm e(2) by (auto simp: first_of_eq)
  moreover have "distinct (xs @ p # ys)" using d e(2) assms(2) by auto
  ultimately have "timeline_ok shape (s\<lparr>cfs := c\<rparr>)" using e(3) by (simp add: timeline_ok_def)
  moreover have "c = (cfs s)\<lparr>tasks_timeline := tasks_timeline c, rb_leftmost := rb_leftmost c\<rparr>"
    using e(6) lm' by simp
  ultimately show ?thesis using e(1,2,3) by (intro exI [of _ c]) simp
qed

lemma raw_dequeue_entity_ok:
  assumes "timeline_ok shape s" and "p \<in> set (timeline shape s)"
  shows "\<exists>c. raw_dequeue_entity R p s = s\<lparr>cfs := c\<rparr> \<and> timeline_ok shape (s\<lparr>cfs := c\<rparr>)
     \<and> timeline shape (s\<lparr>cfs := c\<rparr>) = remove1 p (timeline shape s)
     \<and> c = (cfs s)\<lparr>tasks_timeline := tasks_timeline c, rb_leftmost := rb_leftmost c\<rparr>"
proof -
  let ?h = "tasks_timeline (cfs s)"
  let ?c = "(cfs s)\<lparr>tasks_timeline := r_erase R p ?h,
     rb_leftmost := (if rb_leftmost (cfs s) = Some p then r_next R p ?h else rb_leftmost (cfs s))\<rparr>"
  have d: "distinct (timeline shape s)" and lm: "rb_leftmost (cfs s) = first_of (timeline shape s)"
    and so: "sorted_wrt (\<lambda>a b. \<not> entity_before (se_of s b) (se_of s a)) (timeline shape s)"
    using assms(1) by (auto simp: timeline_ok_def)
  have t: "timeline shape (s\<lparr>cfs := ?c\<rparr>) = remove1 p (timeline shape s)"
    using inorder_erase [of ?h p] d assms(2) by (simp add: timeline_def)
  have "rb_leftmost ?c = first_of (remove1 p (timeline shape s))"
  proof (cases "timeline shape s")
    case (Cons y ys)
    then show ?thesis
      using lm rb_next [of ?h "[]" p ys] d by (auto simp: timeline_def)
  qed (use assms(2) in simp)
  moreover have "sorted_wrt (\<lambda>a b. \<not> entity_before (se_of s b) (se_of s a)) (remove1 p (timeline shape s))"
    using so d by (simp add: distinct_remove1_removeAll removeAll_filter_not_eq sorted_wrt_filter)
  ultimately have "timeline_ok shape (s\<lparr>cfs := ?c\<rparr>)" using t d by (simp add: timeline_ok_def)
  moreover have "raw_dequeue_entity R p s = s\<lparr>cfs := ?c\<rparr>" by (simp add: raw_dequeue_entity_def upd_cfs_def Let_def)
  ultimately show ?thesis using t by (intro exI [of _ ?c]) simp
qed

end

section \<open>The invariant of the class\<close>

text \<open>
  What an operation leaves alone: the tree, the cached leftmost entry, the current entity, the buddies
  (which it may forget), who is queued, and the virtual time of every task outside \<open>P\<close>.
\<close>

definition fframe :: "nat set \<Rightarrow> ('h, 'r, 'x) sched \<Rightarrow> ('h, 'r, 'x) sched \<Rightarrow> bool" where
  "fframe P s t \<longleftrightarrow> tasks_timeline (cfs t) = tasks_timeline (cfs s) \<and> rb_leftmost (cfs t) = rb_leftmost (cfs s)
     \<and> cfs_curr (cfs t) = cfs_curr (cfs s)
     \<and> (cfs_next (cfs t) = None \<or> cfs_next (cfs t) = cfs_next (cfs s))
     \<and> (cfs_last (cfs t) = None \<or> cfs_last (cfs t) = cfs_last (cfs s))
     \<and> (\<forall>p. se_on_rq (se_of t p) = se_on_rq (se_of s p))
     \<and> (\<forall>p. p \<notin> P \<longrightarrow> vruntime (se_of t p) = vruntime (se_of s p))"

lemma fframe_refl: "fframe P s s"
  by (simp add: fframe_def)

lemma fframe_trans: "fframe P s t \<Longrightarrow> fframe P t u \<Longrightarrow> fframe P s u"
  by (auto simp: fframe_def)

lemma fframe_mono: "fframe P s t \<Longrightarrow> P \<subseteq> Q \<Longrightarrow> fframe Q s t"
  by (auto simp: fframe_def)

lemmas fair_upd = upd_cfs_def upd_se_def set_vruntime_def

lemma fframe_update_min: "fframe P s (update_min_vruntime s)"
  by (simp add: fframe_def update_min_vruntime_def upd_cfs_def Let_def)

lemma fframe_calc_delta_fair: "fframe P s (snd (calc_delta_fair d c s))"
  by (auto simp: fframe_def calc_delta_fair_def fair_upd split: prod.splits)

lemma fframe_raw_update_curr: "c \<in> P \<Longrightarrow> fframe P s (raw_update_curr c d s)"
proof -
  assume c: "c \<in> P"
  let ?s1 = "upd_se c (\<lambda>e. e\<lparr>sum_exec_runtime := sum_exec_runtime e + d\<rparr>) s"
  let ?s2 = "snd (calc_delta_fair d c ?s1)"
  have "fframe P s ?s1" by (auto simp: fframe_def fair_upd)
  moreover have "fframe P ?s1 ?s2" by (rule fframe_calc_delta_fair)
  moreover have "fframe P ?s2 (set_vruntime c v ?s2)" for v using c by (auto simp: fframe_def fair_upd)
  ultimately show ?thesis
    unfolding raw_update_curr_def Let_def
    by (auto split: prod.splits intro!: fframe_trans [OF _ fframe_update_min] intro: fframe_trans)
qed

lemma fframe_update_curr: "set_option (cfs_curr (cfs s)) \<subseteq> P \<Longrightarrow> fframe P s (update_curr s)"
proof (cases "cfs_curr (cfs s)")
  case (Some c)
  assume "set_option (cfs_curr (cfs s)) \<subseteq> P"
  with Some have "fframe P s (raw_update_curr c d s)" for d using fframe_raw_update_curr [of c P s d] by simp
  moreover have "fframe P u (upd_se c (exec_start_update f) u)" for u f by (auto simp: fframe_def fair_upd)
  ultimately show ?thesis using Some by (auto simp: update_curr_def Let_def fframe_refl intro: fframe_trans)
qed (simp add: update_curr_def fframe_refl)

lemma fframe_clear_buddies: "fframe P s (clear_buddies p s)"
  by (simp add: fframe_def clear_buddies_def raw_clear_buddies_last_def raw_clear_buddies_next_def
      raw_clear_buddies_skip_def upd_cfs_def Let_def)

lemma fframe_resched: "fframe P s (resched_task p s)"
  by (auto simp: fframe_def flag_defs)

lemma fframe_sched_slice: "fframe P s (snd (sched_slice p s))"
  by (auto simp: fframe_def sched_slice_def upd_cfs_def Let_def split: prod.splits)

lemma fframe_place_wakeup: "p \<in> P \<Longrightarrow> fframe P s (place_entity E p False s)"
  by (auto simp: fframe_def place_entity_def fair_upd Let_def)

lemma fframe_wakeup_preempt: "fframe P s (snd (wakeup_preempt_entity c p s))"
  using fframe_calc_delta_fair [of P s _ p]
  by (simp add: wakeup_preempt_entity_def wakeup_gran_def fframe_refl Let_def case_prod_beta)

lemma fframe_prefer_buddy: "fframe P s (snd sel) \<Longrightarrow> fframe P s (snd (prefer_buddy b l sel))"
  using fframe_wakeup_preempt [of P "snd sel"]
  by (auto simp: prefer_buddy_def Let_def case_prod_beta split: option.splits intro: fframe_trans)

text \<open>The number of queued entities.\<close>

abbreviation nr_of :: "('h, 'r, 'x) sched \<Rightarrow> u32" where
  "nr_of s \<equiv> cfs_nr_running (cfs s)"

lemma nr_frame [simp]:
  "nr_of (update_min_vruntime s) = nr_of s" "nr_of (snd (calc_delta_fair d c s)) = nr_of s"
  "nr_of (clear_buddies p s) = nr_of s" "nr_of (resched_task p s) = nr_of s"
  "nr_of (snd (sched_slice p s)) = nr_of s" "nr_of (upd_se p f s) = nr_of s"
  "nr_of (set_vruntime p v s) = nr_of s"
  "nr_of (place_entity E p False s) = nr_of s"
  by (auto simp: update_min_vruntime_def calc_delta_fair_def clear_buddies_def raw_clear_buddies_last_def
      raw_clear_buddies_next_def raw_clear_buddies_skip_def sched_slice_def place_entity_def flag_defs
      fair_upd Let_def split: prod.splits)

lemma nr_update_curr [simp]: "nr_of (update_curr s) = nr_of s"
  using nr_frame(2) by (auto simp: update_curr_def raw_update_curr_def Let_def case_prod_beta split: option.splits)

lemma nr_wakeup_preempt [simp]: "nr_of (snd (wakeup_preempt_entity c p s)) = nr_of s"
  by (simp add: wakeup_preempt_entity_def wakeup_gran_def Let_def case_prod_beta)

lemma nr_prefer_buddy [simp]: "nr_of (snd (prefer_buddy b l sel)) = nr_of (snd sel)"
  by (simp add: prefer_buddy_def Let_def case_prod_beta split: option.splits)

text \<open>
  The invariant: the timeline is in order and holds the queued entities but the current one, the
  buddies that may be preferred are queued, and the counter counts the queued entities.
\<close>

definition queued_curr :: "('h, 'r, 'x) sched \<Rightarrow> bool" where
  "queued_curr s \<longleftrightarrow> (case cfs_curr (cfs s) of Some c \<Rightarrow> se_on_rq (se_of s c) | None \<Rightarrow> False)"

definition buddies_ok :: "('h, 'r, 'x) sched \<Rightarrow> bool" where
  "buddies_ok s \<longleftrightarrow> (\<forall>p. cfs_next (cfs s) = Some p \<or> cfs_last (cfs s) = Some p \<longrightarrow> se_on_rq (se_of s p))"

definition cfs_inv :: "('r \<Rightarrow> nat tree) \<Rightarrow> ('h, 'r, 'x) sched \<Rightarrow> bool" where
  "cfs_inv shape s \<longleftrightarrow> timeline_ok shape s \<and> buddies_ok s
     \<and> (\<forall>p. p \<in> set (timeline shape s) \<longleftrightarrow> se_on_rq (se_of s p) \<and> cfs_curr (cfs s) \<noteq> Some p)
     \<and> cfs_nr_running (cfs s) = of_nat (length (timeline shape s) + (if queued_curr s then 1 else 0))"

lemma timeline_ok_cong:
  assumes "timeline_ok shape s" "tasks_timeline (cfs t) = tasks_timeline (cfs s)"
    "rb_leftmost (cfs t) = rb_leftmost (cfs s)"
    "\<And>p. p \<in> set (timeline shape s) \<Longrightarrow> vruntime (se_of t p) = vruntime (se_of s p)"
  shows "timeline_ok shape t" "timeline shape t = timeline shape s"
proof -
  show tl: "timeline shape t = timeline shape s" using assms(2) by (simp add: timeline_def)
  have "entity_before (se_of t b) (se_of t a) = entity_before (se_of s b) (se_of s a)"
    if "a \<in> set (timeline shape s)" "b \<in> set (timeline shape s)" for a b
    using assms(4) that by (simp add: entity_before_def)
  moreover have "sorted_wrt (\<lambda>a b. \<not> entity_before (se_of s b) (se_of s a)) (timeline shape s)"
    using assms(1) by (simp add: timeline_ok_def)
  ultimately have "sorted_wrt (\<lambda>a b. \<not> entity_before (se_of t b) (se_of t a)) (timeline shape s)"
    by (auto intro: sorted_wrt_mono_rel [rotated])
  then show "timeline_ok shape t" using assms(1,3) tl by (simp add: timeline_ok_def)
qed

lemma timeline_ok_frame:
  assumes "timeline_ok shape s" "fframe P s t" "P \<inter> set (timeline shape s) = {}"
  shows "timeline_ok shape t" "timeline shape t = timeline shape s"
proof -
  have "vruntime (se_of t p) = vruntime (se_of s p)" if "p \<in> set (timeline shape s)" for p
    using that assms(2,3) by (auto simp: fframe_def)
  from timeline_ok_cong [OF assms(1) _ _ this] assms(2)
  show "timeline_ok shape t" "timeline shape t = timeline shape s" by (auto simp: fframe_def)
qed

lemma cfs_inv_frame:
  assumes "cfs_inv shape s" "fframe P s t" "P \<inter> set (timeline shape s) = {}" "nr_of t = nr_of s"
  shows "cfs_inv shape t" "timeline shape t = timeline shape s"
proof -
  show t: "timeline shape t = timeline shape s" using timeline_ok_frame [OF _ assms(2,3)] assms(1) by (auto simp: cfs_inv_def)
  have "timeline_ok shape t" using timeline_ok_frame [OF _ assms(2,3)] assms(1) by (auto simp: cfs_inv_def)
  moreover have "queued_curr t = queued_curr s"
    using assms(2) by (auto simp: queued_curr_def fframe_def split: option.splits)
  moreover have "buddies_ok t" using assms(1,2) by (auto simp: cfs_inv_def buddies_ok_def fframe_def)
  ultimately show "cfs_inv shape t" using assms(1,2,4) t by (simp add: cfs_inv_def fframe_def)
qed

lemma curr_outside: "cfs_inv shape s \<Longrightarrow> set_option (cfs_curr (cfs s)) \<inter> set (timeline shape s) = {}"
  by (auto simp: cfs_inv_def)

lemma cfs_inv_update_curr: "cfs_inv shape s \<Longrightarrow> cfs_inv shape (update_curr s)"
  by (rule cfs_inv_frame(1) [OF _ fframe_update_curr [OF subset_refl] curr_outside]) simp_all

lemma clear_buddies_clears:
  "cfs_next (cfs (clear_buddies p s)) \<noteq> Some p" "cfs_last (cfs (clear_buddies p s)) \<noteq> Some p"
  by (auto simp: clear_buddies_def raw_clear_buddies_last_def raw_clear_buddies_next_def
      raw_clear_buddies_skip_def upd_cfs_def Let_def)

lemma fframe_keep: "fframe P s t \<Longrightarrow> cfs_next (cfs s) \<noteq> Some p \<Longrightarrow> cfs_next (cfs t) \<noteq> Some p"
  by (auto simp: fframe_def)

end
