(* ===== verification/Sched_Fair_Inv.thy ===== *)
theory Sched_Fair_Inv
  imports Sched_Fair_Props
begin

text \<open>
  The operations of the fair class keep its invariant, as long as the virtual times of the queued
  entities stay within half the range of the counter.
\<close>

definition vwindow :: "('h, 'r, 'x) sched \<Rightarrow> bool" where
  "vwindow s \<longleftrightarrow> (\<exists>base. \<forall>q. se_on_rq (se_of s q) \<longrightarrow> vdist base (vruntime (se_of s q)) < 2 ^ 63)"

lemma raw_enqueue_tasks: "raw_enqueue_entity R p s = Some t \<Longrightarrow> task_of t = task_of s"
  by (auto simp: raw_enqueue_entity_def upd_cfs_def Let_def split: bind_splits prod.splits if_splits)

lemma tree_only:
  assumes "c = d\<lparr>tasks_timeline := a, rb_leftmost := b\<rparr>"
  shows "cfs_curr c = cfs_curr d \<and> cfs_nr_running c = cfs_nr_running d \<and> cfs_next c = cfs_next d
     \<and> cfs_last c = cfs_last d"
  unfolding assms by simp

lemma fframe_account:
  "fframe P s (account_entity_enqueue p s)" "nr_of (account_entity_enqueue p s) = nr_of s + 1"
  "fframe P s (account_entity_dequeue p s)" "nr_of (account_entity_dequeue p s) = nr_of s - 1"
  by (simp_all add: fframe_def account_entity_enqueue_def account_entity_dequeue_def upd_cfs_def Let_def)

lemma fframe_set_vruntime: "p \<in> P \<Longrightarrow> fframe P s (set_vruntime p v s)"
  by (auto simp: fframe_def fair_upd)

text \<open>The state in which \<open>enqueue_entity\<close> inserts.\<close>

definition ready_state :: "('h, 'r, 'x, 'e) sched_env_scheme \<Rightarrow> nat \<Rightarrow> int \<Rightarrow> ('h, 'r, 'x) sched \<Rightarrow> ('h, 'r, 'x) sched" where
  "ready_state E p flags s =
     (let s1 = (if \<not> has_flag flags ENQUEUE_WAKEUP \<or> has_flag flags ENQUEUE_WAKING
                then set_vruntime p (vruntime (se_of s p) + min_vruntime (cfs s)) s else s);
          s2 = account_entity_enqueue p (update_curr s1)
      in if has_flag flags ENQUEUE_WAKEUP then place_entity E p False s2 else s2)"

lemma enqueue_entity_ready:
  "enqueue_entity E p flags s =
     do { s4 \<leftarrow> (let u = ready_state E p flags s in
                 if Some p \<noteq> cfs_curr (cfs u) then raw_enqueue_entity (e_rb E) p u else Some u);
          Some (upd_se p (se_on_rq_update (\<lambda>_. True)) s4) }"
  by (simp add: enqueue_entity_def ready_state_def Let_def)

lemma ready_state_frame:
  assumes "{p} \<union> set_option (cfs_curr (cfs s)) \<subseteq> P"
  shows "fframe P s (ready_state E p flags s)" "nr_of (ready_state E p flags s) = nr_of s + 1"
proof -
  let ?s1 = "if \<not> has_flag flags ENQUEUE_WAKEUP \<or> has_flag flags ENQUEUE_WAKING
      then set_vruntime p (vruntime (se_of s p) + min_vruntime (cfs s)) s else s"
  let ?s2 = "account_entity_enqueue p (update_curr ?s1)"
  have p: "p \<in> P" using assms by simp
  have 1: "fframe P s ?s1" using fframe_set_vruntime [OF p] fframe_refl by auto
  then have "set_option (cfs_curr (cfs ?s1)) \<subseteq> P" using assms by (auto simp: fframe_def)
  from fframe_update_curr [OF this] 1 have "fframe P s (update_curr ?s1)" by (rule fframe_trans [rotated])
  then have 2: "fframe P s ?s2" by (rule fframe_trans [OF _ fframe_account(1)])
  then have "fframe P s (place_entity E p False ?s2)" by (rule fframe_trans [OF _ fframe_place_wakeup [OF p]])
  with 2 show "fframe P s (ready_state E p flags s)"
    by (cases "has_flag flags ENQUEUE_WAKEUP") (simp_all add: ready_state_def Let_def)
  show "nr_of (ready_state E p flags s) = nr_of s + 1"
    by (simp add: ready_state_def Let_def fframe_account(2))
qed

context rbtree
begin

lemma enqueue_entity_inv:
  assumes inv: "cfs_inv shape s" and off: "\<not> se_on_rq (se_of s p)" and E: "e_rb E = R"
    and t: "enqueue_entity E p flags s = Some t" and win: "vwindow t"
  shows "cfs_inv shape t"
proof -
  let ?u = "ready_state E p flags s" let ?P = "{p} \<union> set_option (cfs_curr (cfs s))"
  note fr = ready_state_frame(1) [OF subset_refl, where p = p and s = s and E = E and flags = flags]
    and nr = ready_state_frame(2) [OF subset_refl, where p = p and s = s and E = E and flags = flags]
  have disj: "?P \<inter> set (timeline shape s) = {}" using inv off by (auto simp: cfs_inv_def)
  have u: "timeline_ok shape ?u" "timeline shape ?u = timeline shape s"
    using timeline_ok_frame [OF _ fr disj] inv by (auto simp: cfs_inv_def)
  have mem: "q \<in> set (timeline shape s) \<longleftrightarrow> se_on_rq (se_of s q) \<and> cfs_curr (cfs s) \<noteq> Some q" for q
    using inv by (simp add: cfs_inv_def)
  have f: "cfs_curr (cfs ?u) = cfs_curr (cfs s)" "\<And>q. se_on_rq (se_of ?u q) = se_on_rq (se_of s q)"
    using fr by (auto simp: fframe_def)
  have bud: "buddies_ok ?u" using inv fr by (auto simp: cfs_inv_def buddies_ok_def fframe_def)
  have nrs: "nr_of s = of_nat (length (timeline shape s) + (if queued_curr s then 1 else 0))"
    using inv by (simp add: cfs_inv_def)
  let ?on = "upd_se p (se_on_rq_update (\<lambda>_. True))"
  show ?thesis
  proof (cases "cfs_curr (cfs s) = Some p")
    case True
    then have tt: "t = ?on ?u" using t f(1) by (simp add: enqueue_entity_ready Let_def)
    have tl: "timeline_ok shape t" "timeline shape t = timeline shape ?u"
      using timeline_ok_cong [OF u(1), of t] tt by (auto simp: fair_upd)
    have "buddies_ok t" using bud tt by (auto simp: buddies_ok_def fair_upd)
    moreover have "queued_curr t" "\<not> queued_curr s" "nr_of t = nr_of s + 1"
      using True tt f off nr by (auto simp: queued_curr_def fair_upd)
    moreover have "(q \<in> set (timeline shape t)) = (se_on_rq (se_of t q) \<and> cfs_curr (cfs t) \<noteq> Some q)" for q
      using mem [of q] tl(2) u(2) tt f True by (auto simp: fair_upd)
    ultimately show ?thesis using tl u nrs by (simp add: cfs_inv_def)
  next
    case False
    then obtain v where v: "raw_enqueue_entity R p ?u = Some v" "t = ?on v"
      using t f(1) E by (auto simp: enqueue_entity_ready Let_def split: bind_splits)
    have tasks: "task_of v = task_of ?u" using raw_enqueue_tasks [OF v(1)] .
    have pn: "p \<notin> set (timeline shape ?u)" using u(2) mem off by simp
    obtain base where "\<forall>q. se_on_rq (se_of t q) \<longrightarrow> vdist base (vruntime (se_of t q)) < 2 ^ 63"
      using win by (auto simp: vwindow_def)
    then have "\<forall>q\<in>insert p (set (timeline shape ?u)). vdist base (vruntime (se_of ?u q)) < 2 ^ 63"
      using tasks v(2) u(2) mem f(2) by (auto simp: fair_upd split: if_splits)
    from raw_enqueue_entity_ok [OF u(1) pn this] obtain c where c: "v = ?u\<lparr>cfs := c\<rparr>" "timeline_ok shape v"
        "set (timeline shape v) = insert p (set (timeline shape ?u))"
        "length (timeline shape v) = Suc (length (timeline shape ?u))"
        "c = (cfs ?u)\<lparr>tasks_timeline := tasks_timeline c, rb_leftmost := rb_leftmost c\<rparr>"
      using v(1) by auto
    have cf: "cfs_curr c = cfs_curr (cfs s)" "cfs_nr_running c = nr_of ?u" "cfs_next c = cfs_next (cfs ?u)"
        "cfs_last c = cfs_last (cfs ?u)"
      using tree_only [OF c(5)] f(1) by simp_all
    have cv: "cfs v = c" "cfs t = c" using c(1) v(2) by (simp_all add: fair_upd)
    have tl: "timeline_ok shape t" "timeline shape t = timeline shape v"
      using timeline_ok_cong [OF c(2), of t] v(2) cv by (auto simp: fair_upd)
    have on: "se_on_rq (se_of t q) = (q = p \<or> se_on_rq (se_of s q))" for q
      using v(2) tasks f(2) by (auto simp: fair_upd)
    have "buddies_ok t" using bud cf cv(2) on f(2) by (auto simp: buddies_ok_def)
    moreover have "queued_curr t = queued_curr s"
      using cf(1) cv(2) on False by (auto simp: queued_curr_def split: option.splits)
    moreover have "(q \<in> set (timeline shape t)) = (se_on_rq (se_of t q) \<and> cfs_curr (cfs t) \<noteq> Some q)" for q
      using tl(2) c(3) u(2) mem [of q] on cf(1) cv(2) False by auto
    ultimately show ?thesis
      using tl c(4) u(2) nrs cf(2) cv(2) nr by (simp add: cfs_inv_def)
  qed
qed

text \<open>Taking an entity out of the tree.\<close>

lemma raw_dequeue_fields:
  assumes "cfs_inv shape s" and "se_on_rq (se_of s p)" and "cfs_curr (cfs s) \<noteq> Some p"
  shows "\<exists>c. raw_dequeue_entity R p s = s\<lparr>cfs := c\<rparr> \<and> timeline_ok shape (s\<lparr>cfs := c\<rparr>)
     \<and> set (timeline shape (s\<lparr>cfs := c\<rparr>)) = set (timeline shape s) - {p}
     \<and> Suc (length (timeline shape (s\<lparr>cfs := c\<rparr>))) = length (timeline shape s)
     \<and> cfs_curr c = cfs_curr (cfs s) \<and> cfs_nr_running c = nr_of s \<and> cfs_next c = cfs_next (cfs s)
     \<and> cfs_last c = cfs_last (cfs s)"
proof -
  have p: "p \<in> set (timeline shape s)" "timeline_ok shape s" using assms by (auto simp: cfs_inv_def)
  obtain c where c: "raw_dequeue_entity R p s = s\<lparr>cfs := c\<rparr>" "timeline_ok shape (s\<lparr>cfs := c\<rparr>)"
      "timeline shape (s\<lparr>cfs := c\<rparr>) = remove1 p (timeline shape s)"
      "c = (cfs s)\<lparr>tasks_timeline := tasks_timeline c, rb_leftmost := rb_leftmost c\<rparr>"
    using raw_dequeue_entity_ok [OF p(2,1)] by blast
  have "distinct (timeline shape s)" using p(2) by (simp add: timeline_ok_def)
  then have "set (timeline shape (s\<lparr>cfs := c\<rparr>)) = set (timeline shape s) - {p}" using c(3) by simp
  moreover have "Suc (length (timeline shape (s\<lparr>cfs := c\<rparr>))) = length (timeline shape s)"
    using c(3) p(1) length_pos_if_in_set [OF p(1)] by (simp add: length_remove1)
  ultimately show ?thesis using c(1,2) tree_only [OF c(4)] by blast
qed

lemma dequeue_entity_inv:
  assumes inv: "cfs_inv shape s" and on: "se_on_rq (se_of s p)" and E: "e_rb E = R"
  shows "cfs_inv shape (dequeue_entity E p flags s)"
proof -
  let ?s1 = "clear_buddies p (update_curr s)"
  let ?s2 = "if Some p \<noteq> cfs_curr (cfs ?s1) then raw_dequeue_entity R p ?s1 else ?s1"
  let ?s3 = "account_entity_dequeue p (upd_se p (se_on_rq_update (\<lambda>_. False)) ?s2)"
  have inv1: "cfs_inv shape ?s1"
    using cfs_inv_frame(1) [OF cfs_inv_update_curr [OF inv] fframe_clear_buddies [of "{}"]] by simp
  have fr: "fframe (set_option (cfs_curr (cfs s))) s ?s1"
    using fframe_trans [OF fframe_update_curr [OF subset_refl] fframe_clear_buddies] .
  then have on1: "se_on_rq (se_of ?s1 p)" using on by (simp add: fframe_def)
  have "cfs_inv shape ?s3 \<and> p \<notin> set (timeline shape ?s3)"
  proof (cases "cfs_curr (cfs ?s1) = Some p")
    case True
    let ?t = "upd_se p (se_on_rq_update (\<lambda>_. False)) ?s1"
    have tl: "timeline_ok shape ?t" "timeline shape ?t = timeline shape ?s1"
      using timeline_ok_cong [of shape ?s1 ?t] inv1 by (auto simp: cfs_inv_def fair_upd)
    have t3: "timeline_ok shape ?s3" "timeline shape ?s3 = timeline shape ?s1"
      using timeline_ok_frame [OF tl(1) fframe_account(3) [of "{}"]] tl(2) True by auto
    have fa: "fframe {} ?t ?s3" using fframe_account(3) True by simp
    have "nr_of ?s3 = nr_of ?s1 - 1" using True by (simp add: fframe_account(4))
    moreover have "queued_curr ?s1" "\<not> queued_curr ?s3"
      using True on1 fa by (auto simp: queued_curr_def fframe_def fair_upd)
    moreover have "buddies_ok ?s3"
      using inv1 fa clear_buddies_clears [of p "update_curr s"]
      by (auto simp: cfs_inv_def buddies_ok_def fframe_def fair_upd split: if_splits)
    moreover have "(q \<in> set (timeline shape ?s3)) = (se_on_rq (se_of ?s3 q) \<and> cfs_curr (cfs ?s3) \<noteq> Some q)" for q
      using inv1 t3(2) fa True by (auto simp: cfs_inv_def fframe_def fair_upd)
    ultimately have "cfs_inv shape ?s3" using t3 inv1 by (simp add: cfs_inv_def)
    moreover have "p \<notin> set (timeline shape ?s1)" using inv1 True by (simp add: cfs_inv_def)
    ultimately show ?thesis using t3(2) by simp
  next
    case False
    from raw_dequeue_fields [OF inv1 on1 False] obtain c where c: "raw_dequeue_entity R p ?s1 = ?s1\<lparr>cfs := c\<rparr>"
        "timeline_ok shape (?s1\<lparr>cfs := c\<rparr>)"
        "set (timeline shape (?s1\<lparr>cfs := c\<rparr>)) = set (timeline shape ?s1) - {p}"
        "Suc (length (timeline shape (?s1\<lparr>cfs := c\<rparr>))) = length (timeline shape ?s1)"
        "cfs_curr c = cfs_curr (cfs ?s1)" "cfs_nr_running c = nr_of ?s1" "cfs_next c = cfs_next (cfs ?s1)"
        "cfs_last c = cfs_last (cfs ?s1)"
      by blast
    let ?v = "?s1\<lparr>cfs := c\<rparr>" let ?t = "upd_se p (se_on_rq_update (\<lambda>_. False)) ?v"
    have s3: "?s3 = account_entity_dequeue p ?t" using False c(1) by simp
    have tl: "timeline_ok shape ?t" "timeline shape ?t = timeline shape ?v"
      using timeline_ok_cong [OF c(2), of ?t] by (auto simp: fair_upd)
    have t3: "timeline_ok shape ?s3" "timeline shape ?s3 = timeline shape ?v"
      using timeline_ok_frame [OF tl(1) fframe_account(3) [of "{}"]] tl(2) s3 by auto
    have fa: "fframe {} ?t ?s3" unfolding s3 by (rule fframe_account(3))
    have nr: "nr_of ?s3 = nr_of ?s1 - 1" unfolding s3 fframe_account(4) using c(6) by simp
    have qc: "queued_curr ?s3 = queued_curr ?s1"
      using fa c(5) False by (auto simp: queued_curr_def fframe_def fair_upd split: option.splits)
    have "buddies_ok ?s3"
      using inv1 fa c(7,8) clear_buddies_clears [of p "update_curr s"]
      by (auto simp: cfs_inv_def buddies_ok_def fframe_def fair_upd split: if_splits)
    moreover have "(q \<in> set (timeline shape ?s3)) = (se_on_rq (se_of ?s3 q) \<and> cfs_curr (cfs ?s3) \<noteq> Some q)" for q
      using inv1 t3(2) c(3,5) fa by (auto simp: cfs_inv_def fframe_def fair_upd)
    moreover have "nr_of ?s3 = of_nat (length (timeline shape ?s3) + (if queued_curr ?s3 then 1 else 0))"
      using nr qc c(4) t3(2) inv1 by (auto simp: cfs_inv_def simp flip: c(4))
    ultimately show ?thesis using t3(1) c(3) t3(2) by (simp add: cfs_inv_def)
  qed
  then have 3: "cfs_inv shape ?s3" "{p} \<inter> set (timeline shape ?s3) = {}" by auto
  let ?s4 = "if \<not> has_flag flags DEQUEUE_SLEEP
      then set_vruntime p (vruntime (se_of ?s3 p) - min_vruntime (cfs ?s3)) ?s3 else ?s3"
  have "fframe {p} ?s3 ?s4" using fframe_set_vruntime [of p "{p}"] fframe_refl by auto
  then have "fframe {p} ?s3 (update_min_vruntime ?s4)" by (rule fframe_trans [OF _ fframe_update_min])
  moreover have "nr_of (update_min_vruntime ?s4) = nr_of ?s3" by simp
  ultimately have "cfs_inv shape (update_min_vruntime ?s4)" using cfs_inv_frame(1) [OF 3(1) _ 3(2)] by blast
  then show ?thesis unfolding dequeue_entity_def Let_def E .
qed

lemma put_prev_entity_inv:
  assumes inv: "cfs_inv shape s" and cu: "cfs_curr (cfs s) = Some c" and E: "e_rb E = R"
    and t: "put_prev_entity E c s = Some t" and win: "vwindow t"
  shows "cfs_inv shape t"
proof -
  let ?s1 = "if se_on_rq (se_of s c) then update_curr s else s"
  have inv1: "cfs_inv shape ?s1" using inv cfs_inv_update_curr by auto
  have fr: "fframe {c} s ?s1" using fframe_update_curr [of s "{c}"] cu fframe_refl by auto
  have f: "cfs_curr (cfs ?s1) = Some c" "\<And>q. se_on_rq (se_of ?s1 q) = se_on_rq (se_of s q)"
    using fr cu by (auto simp: fframe_def)
  let ?none = "upd_cfs (cfs_curr_update (\<lambda>_. None))"
  show ?thesis
  proof (cases "se_on_rq (se_of s c)")
    case False
    then have "t = ?none s" using t by (simp add: put_prev_entity_def)
    then show ?thesis
      using inv cu False timeline_ok_cong [of shape s t]
      by (auto simp: cfs_inv_def upd_cfs_def queued_curr_def buddies_ok_def)
  next
    case True
    then obtain v where v: "raw_enqueue_entity R c ?s1 = Some v" "t = ?none v"
      using t f(2) E by (auto simp: put_prev_entity_def Let_def split: bind_splits)
    have tasks: "task_of v = task_of ?s1" "task_of t = task_of ?s1"
      using raw_enqueue_tasks [OF v(1)] v(2) by (simp_all add: upd_cfs_def)
    have mem: "q \<in> set (timeline shape ?s1) \<longleftrightarrow> se_on_rq (se_of ?s1 q) \<and> c \<noteq> q" for q
      using inv1 f(1) by (simp add: cfs_inv_def)
    obtain base where "\<forall>q. se_on_rq (se_of t q) \<longrightarrow> vdist base (vruntime (se_of t q)) < 2 ^ 63"
      using win by (auto simp: vwindow_def)
    then have w: "\<forall>q\<in>insert c (set (timeline shape ?s1)). vdist base (vruntime (se_of ?s1 q)) < 2 ^ 63"
      using tasks(2) mem f(2) True by auto
    have "timeline_ok shape ?s1" using inv1 by (simp only: cfs_inv_def)
    moreover have "c \<notin> set (timeline shape ?s1)" using mem [of c] by blast
    ultimately have "timeline_ok shape ?s1" "c \<notin> set (timeline shape ?s1)" by blast+
    from raw_enqueue_entity_ok [OF this w] obtain d where d: "v = ?s1\<lparr>cfs := d\<rparr>" "timeline_ok shape v"
        "set (timeline shape v) = insert c (set (timeline shape ?s1))"
        "length (timeline shape v) = Suc (length (timeline shape ?s1))"
        "d = (cfs ?s1)\<lparr>tasks_timeline := tasks_timeline d, rb_leftmost := rb_leftmost d\<rparr>"
      using v(1) by auto
    have cv: "cfs v = d" "cfs t = d\<lparr>cfs_curr := None\<rparr>" using d(1) v(2) by (simp_all add: upd_cfs_def)
    have tl: "timeline_ok shape t" "timeline shape t = timeline shape v"
      using timeline_ok_cong [OF d(2), of t] cv tasks by auto
    have "buddies_ok t"
      using inv1 tree_only [OF d(5)] cv(2) tasks(2) by (auto simp: cfs_inv_def buddies_ok_def)
    moreover have "queued_curr ?s1" "\<not> queued_curr t" using f True cv(2) by (auto simp: queued_curr_def)
    moreover have "(q \<in> set (timeline shape t)) = (se_on_rq (se_of t q) \<and> cfs_curr (cfs t) \<noteq> Some q)" for q
      using tl(2) d(3) mem [of q] tasks(2) cv(2) True f(2) by auto
    moreover have "nr_of t = nr_of ?s1" using tree_only [OF d(5)] cv(2) by simp
    moreover have "nr_of ?s1 = of_nat (length (timeline shape ?s1) + 1)"
      using inv1 \<open>queued_curr ?s1\<close> by (simp only: cfs_inv_def if_True)
    ultimately show ?thesis using tl d(4) by (simp add: cfs_inv_def)
  qed
qed

lemma set_next_entity_inv:
  assumes inv: "cfs_inv shape s" and cu: "cfs_curr (cfs s) = None" and E: "e_rb E = R"
  shows "cfs_inv shape (set_next_entity E p s)"
proof -
  let ?s1 = "if se_on_rq (se_of s p) then raw_dequeue_entity R p s else s"
  let ?t = "set_next_entity E p s"
  have qc: "\<not> queued_curr s" using cu by (simp add: queued_curr_def)
  have "\<exists>c. ?s1 = s\<lparr>cfs := c\<rparr> \<and> timeline_ok shape (s\<lparr>cfs := c\<rparr>)
      \<and> set (timeline shape (s\<lparr>cfs := c\<rparr>)) = set (timeline shape s) - {p}
      \<and> length (timeline shape (s\<lparr>cfs := c\<rparr>)) + (if se_on_rq (se_of s p) then 1 else 0) = length (timeline shape s)
      \<and> cfs_nr_running c = nr_of s \<and> cfs_next c = cfs_next (cfs s) \<and> cfs_last c = cfs_last (cfs s)"
  proof (cases "se_on_rq (se_of s p)")
    case True
    from raw_dequeue_fields [OF inv this] cu True show ?thesis by auto
  next
    case False
    then have "p \<notin> set (timeline shape s)" using inv by (simp add: cfs_inv_def)
    then show ?thesis using False inv by (intro exI [of _ "cfs s"]) (auto simp: cfs_inv_def)
  qed
  then obtain c where c: "?s1 = s\<lparr>cfs := c\<rparr>" "timeline_ok shape (s\<lparr>cfs := c\<rparr>)"
      "set (timeline shape (s\<lparr>cfs := c\<rparr>)) = set (timeline shape s) - {p}"
      "length (timeline shape (s\<lparr>cfs := c\<rparr>)) + (if se_on_rq (se_of s p) then 1 else 0) = length (timeline shape s)"
      "cfs_nr_running c = nr_of s" "cfs_next c = cfs_next (cfs s)" "cfs_last c = cfs_last (cfs s)" by blast
  have t: "?t = upd_se p (\<lambda>e. e\<lparr>prev_sum_exec_runtime := sum_exec_runtime e\<rparr>)
      (upd_cfs (cfs_curr_update (\<lambda>_. Some p)) (update_stats_curr_start p (s\<lparr>cfs := c\<rparr>)))"
    unfolding set_next_entity_def Let_def E c(1) ..
  have f: "cfs ?t = c\<lparr>cfs_curr := Some p\<rparr>" "\<And>q. se_on_rq (se_of ?t q) = se_on_rq (se_of s q)"
      "\<And>q. vruntime (se_of ?t q) = vruntime (se_of s q)"
    unfolding t by (auto simp: update_stats_curr_start_def fair_upd)
  have tl: "timeline_ok shape ?t" "timeline shape ?t = timeline shape (s\<lparr>cfs := c\<rparr>)"
    using timeline_ok_cong [OF c(2), of ?t] f by auto
  have "buddies_ok ?t" using inv f c(6,7) by (auto simp: cfs_inv_def buddies_ok_def)
  moreover have "queued_curr ?t = se_on_rq (se_of s p)" using f by (simp add: queued_curr_def)
  moreover have "(q \<in> set (timeline shape ?t)) = (se_on_rq (se_of ?t q) \<and> cfs_curr (cfs ?t) \<noteq> Some q)" for q
    using tl(2) c(3) f inv cu by (auto simp: cfs_inv_def)
  moreover have "nr_of s = of_nat (length (timeline shape s))" using inv qc by (simp add: cfs_inv_def)
  ultimately show ?thesis using tl c(4,5) f(1) by (auto simp: cfs_inv_def)
qed

lemma pick_next_entity_frame:
  "pick_next_entity E s = Some (p, t) \<Longrightarrow> fframe P s t \<and> nr_of t = nr_of s"
  unfolding pick_next_entity_def Let_def
  by (auto split: bind_splits intro!: fframe_trans [OF _ fframe_clear_buddies] fframe_prefer_buddy fframe_refl)

lemma pick_next_task_fair_inv:
  assumes "cfs_inv shape s" and "cfs_curr (cfs s) = None" and "e_rb E = R"
    and "pick_next_task_fair E s = Some (r, t)"
  shows "cfs_inv shape t"
proof (cases "nr_of s = 0")
  case False
  then obtain p u where u: "pick_next_entity E s = Some (p, u)" "t = set_next_entity E p u"
    using assms(4) by (auto simp: pick_next_task_fair_def split: bind_splits)
  have fr: "fframe {} s u" "nr_of u = nr_of s" using pick_next_entity_frame [OF u(1)] by auto
  have "cfs_inv shape u" using cfs_inv_frame(1) [OF assms(1) fr(1) _ fr(2)] by simp
  moreover have "cfs_curr (cfs u) = None" using fr(1) assms(2) by (simp add: fframe_def)
  ultimately show ?thesis using set_next_entity_inv assms(3) u(2) by blast
qed (use assms in \<open>simp add: pick_next_task_fair_def\<close>)

lemma cfs_inv_frame0: "cfs_inv shape s \<Longrightarrow> fframe {} s t \<Longrightarrow> nr_of t = nr_of s \<Longrightarrow> cfs_inv shape t"
  using cfs_inv_frame(1) [of shape s "{}" t] by simp

lemma task_tick_fair_inv:
  assumes "cfs_inv shape s" and "task_tick_fair c q s = Some t"
  shows "cfs_inv shape t"
proof -
  let ?u = "update_curr s"
  have inv: "cfs_inv shape ?u" using cfs_inv_update_curr [OF assms(1)] .
  have "cfs_inv shape v" if "check_preempt_tick c ?u = Some v" for v
  proof -
    let ?w = "snd (sched_slice c ?u)"
    have w: "cfs_inv shape ?w" using cfs_inv_frame0 [OF inv fframe_sched_slice] by simp
    have "cfs_inv shape (resched_task x ?w)" for x using cfs_inv_frame0 [OF w fframe_resched] by simp
    moreover from this have "cfs_inv shape (clear_buddies y (resched_task x ?w))" for x y
      by (rule cfs_inv_frame0 [OF _ fframe_clear_buddies]) simp
    ultimately show ?thesis using that w
      by (auto simp: check_preempt_tick_def Let_def case_prod_beta split: if_splits bind_splits)
  qed
  with assms(2) inv show ?thesis
    by (auto simp: task_tick_fair_def entity_tick_def Let_def split: if_splits)
qed

lemma cfs_inv_if: "cfs_inv shape s \<Longrightarrow> cfs_inv shape t \<Longrightarrow> cfs_inv shape (if b then s else t)"
  by simp

lemma set_buddy_inv:
  assumes "cfs_inv shape s" and "se_on_rq (se_of s p)"
  shows "cfs_inv shape (set_next_buddy p s)" "cfs_inv shape (set_last_buddy p s)"
  using assms timeline_ok_cong [of shape s "set_next_buddy p s"] timeline_ok_cong [of shape s "set_last_buddy p s"]
  by (auto simp: cfs_inv_def set_next_buddy_def set_last_buddy_def upd_cfs_def buddies_ok_def queued_curr_def
      split: option.splits)

lemma preempt_wakeup_inv: "cfs_inv shape s \<Longrightarrow> cfs_inv shape (preempt_wakeup E c b s)"
  using cfs_inv_frame0 [OF _ fframe_resched [of "{}" s c]] set_buddy_inv(2) [of "resched_task c s" c]
  by (simp add: preempt_wakeup_def Let_def)

lemma check_preempt_wakeup_inv:
  assumes inv: "cfs_inv shape s" and on: "se_on_rq (se_of s p)" and t: "check_preempt_wakeup E p f s = Some t"
  shows "cfs_inv shape t"
proof -
  let ?cur = "rq_curr s" and ?scale = "cfs_nr_running (cfs s) \<ge> sched_nr_latency (tun s)"
  let ?marked = "sched_feat E NEXT_BUDDY \<and> ?scale \<and> \<not> has_flag f WF_FORK"
  let ?s1 = "if ?marked then set_next_buddy p s else s"
  let ?s3 = "snd (wakeup_preempt_entity ?cur p (update_curr ?s1))"
  have inv1: "cfs_inv shape ?s1" using set_buddy_inv(1) [OF inv on] inv by simp
  have on1: "se_on_rq (se_of ?s1 p)" using on by (simp add: set_next_buddy_def upd_cfs_def)
  have "fframe UNIV ?s1 (update_curr ?s1)" by (rule fframe_update_curr) simp
  then have on2: "se_on_rq (se_of (update_curr ?s1) p)" using on1 by (simp add: fframe_def)
  have fr: "fframe {} (update_curr ?s1) ?s3" by (rule fframe_wakeup_preempt)
  have inv3: "cfs_inv shape ?s3"
    by (rule cfs_inv_frame0 [OF cfs_inv_update_curr [OF inv1] fr]) simp
  have on3: "se_on_rq (se_of ?s3 p)" using fr on2 by (simp add: fframe_def)
  note leaves = inv3 set_buddy_inv(1) [OF inv3 on3] inv1 inv set_buddy_inv(1) [OF inv on]
  show ?thesis
    using t unfolding check_preempt_wakeup_def Let_def case_prod_beta option.inject
    by (rule subst [where P = "cfs_inv shape"]) (intro leaves cfs_inv_if preempt_wakeup_inv)
qed

end

end
