(* ===== verification/Sched_Fair_Runs.thy ===== *)
theory Sched_Fair_Runs
  imports Sched_Fair_Inv Sched_Sample
begin

text \<open>
  Properties of the fair class: its invariant over every run, the fairness of its choice, and what
  happens to the virtual time of tasks that wake up or leave and re-enter the timeline.
\<close>

section \<open>Runs\<close>

inductive fair_step :: "('h, 'r, 'x) sched_env \<Rightarrow> ('h, 'r, 'x) sched \<Rightarrow> ('h, 'r, 'x) sched \<Rightarrow> bool" for E where
  fs_enqueue: "\<not> se_on_rq (se_of s p) \<Longrightarrow> enqueue_task_fair E p f s = Some t \<Longrightarrow> vwindow t \<Longrightarrow> fair_step E s t"
| fs_dequeue: "se_on_rq (se_of s p) \<Longrightarrow> dequeue_task_fair E p f s = Some t \<Longrightarrow> fair_step E s t"
| fs_tick: "cfs_curr (cfs s) = Some c \<Longrightarrow> task_tick_fair c q s = Some t \<Longrightarrow> fair_step E s t"
| fs_put_prev: "cfs_curr (cfs s) = Some c \<Longrightarrow> put_prev_task_fair E c s = Some t \<Longrightarrow> vwindow t \<Longrightarrow> fair_step E s t"
| fs_pick: "cfs_curr (cfs s) = None \<Longrightarrow> pick_next_task_fair E s = Some (r, t) \<Longrightarrow> fair_step E s t"
| fs_set_curr: "cfs_curr (cfs s) = None \<Longrightarrow> set_curr_task_fair E s = Some t \<Longrightarrow> fair_step E s t"
| fs_preempt: "se_on_rq (se_of s p) \<Longrightarrow> check_preempt_wakeup E p f s = Some t \<Longrightarrow> fair_step E s t"
| fs_yield: "yield_task_fair E s = Some t \<Longrightarrow> fair_step E s t"

text \<open>The run queue before \<open>init_cfs_rq\<close>: in static storage, hence zero, and nothing is queued.\<close>

definition cfs_zero :: "('h, 'r, 'x) sched \<Rightarrow> bool" where
  "cfs_zero s \<longleftrightarrow> cfs_nr_running (cfs s) = 0 \<and> rb_leftmost (cfs s) = None \<and> cfs_curr (cfs s) = None
     \<and> cfs_next (cfs s) = None \<and> cfs_last (cfs s) = None \<and> (\<forall>p. \<not> se_on_rq (se_of s p))"

lemma fframe_other_fields:
  "cfs t = cfs s \<Longrightarrow> task_of t = task_of s \<Longrightarrow> fframe P s t"
  by (simp add: fframe_def)

lemma update_rq_clock_fields [simp]:
  "cfs (update_rq_clock E s) = cfs s" "task_of (update_rq_clock E s) = task_of s"
  "links (update_rq_clock E s) = links s" "rq_curr (update_rq_clock E s) = rq_curr s"
  "tun (update_rq_clock E s) = tun s" "nr_running (update_rq_clock E s) = nr_running s"
  "rq_idle (update_rq_clock E s) = rq_idle s" "rq_stop (update_rq_clock E s) = rq_stop s"
  by (simp_all add: update_rq_clock_def update_rq_clock_task_def Let_def case_prod_beta)

context rbtree
begin

lemma init_cfs_inv: "e_rb E = R \<Longrightarrow> cfs_zero s \<Longrightarrow> cfs_inv shape (init_cfs_rq E s)"
  using seq_empty
  by (simp add: cfs_inv_def cfs_zero_def init_cfs_rq_def upd_cfs_def timeline_ok_def timeline_def seq_def
      queued_curr_def buddies_ok_def)

lemma cfs_inv_counters:
  assumes "cfs_inv shape s"
  shows "cfs_inv shape (inc_nr_running (upd_cfs (h_nr_running_update g) s))"
    "cfs_inv shape (dec_nr_running (upd_cfs (h_nr_running_update g) s))"
  by (rule cfs_inv_frame0 [OF assms]; simp add: fframe_def flag_defs upd_cfs_def)+

lemma yield_task_fair_inv:
  assumes "cfs_inv shape s" and "yield_task_fair E s = Some t"
  shows "cfs_inv shape t"
proof -
  let ?s1 = "clear_buddies (rq_curr s) s"
  let ?s2 = "(update_curr (update_rq_clock E ?s1))\<lparr>skip_clock_update := 1\<rparr>"
  have 1: "cfs_inv shape ?s1" by (rule cfs_inv_frame0 [OF assms(1) fframe_clear_buddies]) simp
  have "cfs_inv shape (update_rq_clock E ?s1)"
    by (rule cfs_inv_frame0 [OF 1 fframe_other_fields]) simp_all
  from cfs_inv_update_curr [OF this] have 2: "cfs_inv shape ?s2"
    by (rule cfs_inv_frame0 [OF _ fframe_other_fields]) simp_all
  have skip: "cfs_inv shape (set_skip_buddy p u)" if "cfs_inv shape u" for p and u :: "('a, 'r, 'b) sched"
    by (rule cfs_inv_frame0 [OF that]) (simp_all add: set_skip_buddy_def upd_cfs_def fframe_def)
  have "cfs_inv shape (if policy (task_of ?s1 (rq_curr s)) \<noteq> SCHED_BATCH then ?s2 else ?s1)"
    using 1 2 by (rule cfs_inv_if [rotated])
  from skip [OF this] assms show ?thesis by (auto simp: yield_task_fair_def Let_def split: if_splits)
qed

lemma fair_step_inv:
  assumes "fair_step E s t" and "e_rb E = R" and "cfs_inv shape s"
  shows "cfs_inv shape t"
  using assms(1)
proof (cases rule: fair_step.cases)
  case (fs_enqueue p f)
  then obtain u where u: "enqueue_entity E p f s = Some u"
      "t = inc_nr_running (upd_cfs (h_nr_running_update (\<lambda>n. n + 1)) u)"
    by (auto simp: enqueue_task_fair_def split: bind_splits)
  then have "task_of t = task_of u" by (simp add: flag_defs upd_cfs_def)
  with fs_enqueue(3) have "vwindow u" by (simp add: vwindow_def)
  with u(1) show ?thesis using enqueue_entity_inv [OF assms(3) fs_enqueue(1) assms(2)] cfs_inv_counters u(2) by blast
next
  case (fs_dequeue p f)
  then show ?thesis
    using cfs_inv_counters(2) [OF dequeue_entity_inv [OF assms(3) fs_dequeue(1) assms(2), of f]]
    by (auto simp: dequeue_task_fair_def)
next
  case (fs_put_prev c)
  then show ?thesis using put_prev_entity_inv [OF assms(3) _ assms(2)] by (simp add: put_prev_task_fair_def)
next
  case fs_set_curr
  then show ?thesis using set_next_entity_inv [OF assms(3) _ assms(2)] by (auto simp: set_curr_task_fair_def)
qed (use assms(2,3) task_tick_fair_inv pick_next_task_fair_inv check_preempt_wakeup_inv yield_task_fair_inv in blast)+

lemma fair_runs:
  assumes "(fair_step E)\<^sup>*\<^sup>* (init_cfs_rq E s0) s" and "e_rb E = R" and "cfs_zero s0"
  shows "cfs_inv shape s"
  using assms by (induction rule: rtranclp_induct) (auto intro: init_cfs_inv fair_step_inv)

end

section \<open>Fair choice\<close>

lemma inv_cached_idem: "inv_cached (inv_cached lw) = inv_cached lw"
proof -
  have "WMULT_CONST div w \<noteq> 0" if "w < WMULT_CONST" "w \<noteq> 0" for w
  proof -
    have "unat w \<le> unat WMULT_CONST" "0 < unat w"
      using that by (auto simp: word_less_nat_alt unat_gt_0)
    then have "0 < unat (WMULT_CONST div w)" by (simp add: unat_div div_greater_zero_iff)
    then show ?thesis by auto
  qed
  then show ?thesis by (auto simp: inv_cached_def Let_def scale_load_down_def not_le WMULT_CONST_def)
qed

lemma inv_cached_weight [simp]: "weight (inv_cached lw) = weight lw"
  by (simp add: inv_cached_def Let_def)

lemma calc_delta_mine_cached: "fst (calc_delta_mine d w (inv_cached lw)) = fst (calc_delta_mine d w lw)"
  by (simp add: calc_delta_mine_def Let_def inv_cached_idem)

lemma calc_delta_fair_repeat: "fst (calc_delta_fair d p (snd (calc_delta_fair e p s))) = fst (calc_delta_fair d p s)"
  using calc_delta_mine_cached [of d NICE_0_LOAD "se_load (se_of s p)"]
  by (simp add: calc_delta_fair_def calc_delta_mine_def Let_def upd_se_def)

text \<open>What trying a buddy leaves alone.\<close>

definition same_view :: "nat \<Rightarrow> ('h, 'r, 'x) sched \<Rightarrow> ('h, 'r, 'x) sched \<Rightarrow> bool" where
  "same_view l s t \<longleftrightarrow> (\<forall>p. vruntime (se_of t p) = vruntime (se_of s p))
     \<and> fst (wakeup_gran l t) = fst (wakeup_gran l s) \<and> cfs t = cfs s"

lemma same_view_wakeup: "same_view l s (snd (wakeup_preempt_entity c l s))"
proof -
  have "tun (snd (calc_delta_fair d l s)) = tun s" for d
    by (simp add: calc_delta_fair_def calc_delta_mine_def Let_def upd_se_def)
  moreover have "vruntime (se_of (snd (calc_delta_fair d l s)) p) = vruntime (se_of s p)" for d p
    by (simp add: calc_delta_fair_def calc_delta_mine_def Let_def upd_se_def)
  moreover have "cfs (snd (calc_delta_fair d l s)) = cfs s" for d
    by (simp add: calc_delta_fair_def calc_delta_mine_def Let_def upd_se_def)
  ultimately show ?thesis
    by (simp add: same_view_def wakeup_preempt_entity_def wakeup_gran_def Let_def case_prod_beta calc_delta_fair_repeat)
qed

text \<open>A choice that is not too far ahead of \<open>l\<close>.\<close>

definition close_to :: "nat \<Rightarrow> ('h, 'r, 'x) sched \<Rightarrow> nat \<Rightarrow> bool" where
  "close_to l s p \<longleftrightarrow> sint (vruntime (se_of s p) - vruntime (se_of s l)) \<le> max 0 (sint (fst (wakeup_gran l s)))"

lemma wakeup_preempt_close: "fst (wakeup_preempt_entity p l s) < 1 \<Longrightarrow> close_to l s p"
  by (auto simp: wakeup_preempt_entity_def close_to_def Let_def case_prod_beta split: if_splits)

lemma close_to_view: "same_view l s t \<Longrightarrow> close_to l t p = close_to l s p"
  by (simp add: same_view_def close_to_def)

lemma prefer_buddy_close:
  assumes "same_view l s (snd sel)" "close_to l s (fst sel)"
  shows "same_view l s (snd (prefer_buddy b l sel))" "close_to l s (fst (prefer_buddy b l sel))"
    "fst (prefer_buddy b l sel) = fst sel \<or> b = Some (fst (prefer_buddy b l sel))"
proof -
  have v: "same_view l s (snd (wakeup_preempt_entity x l (snd sel)))" for x
    using same_view_wakeup [of l "snd sel" x] assms(1) by (simp add: same_view_def)
  have c: "close_to l s x" if "fst (wakeup_preempt_entity x l (snd sel)) < 1" for x
    using wakeup_preempt_close [OF that] close_to_view [OF assms(1)] by simp
  show "same_view l s (snd (prefer_buddy b l sel))" "close_to l s (fst (prefer_buddy b l sel))"
    "fst (prefer_buddy b l sel) = fst sel \<or> b = Some (fst (prefer_buddy b l sel))"
    using v c assms by (auto simp: prefer_buddy_def Let_def case_prod_beta split: option.splits)
qed

lemma pick_next_entity_close:
  assumes "rb_leftmost (cfs s) = Some l"
  shows "\<exists>p t. pick_next_entity E s = Some (p, t) \<and> close_to l s p
     \<and> (p = l \<or> r_next (e_rb E) l (tasks_timeline (cfs s)) = Some p \<or> cfs_last (cfs s) = Some p \<or> cfs_next (cfs s) = Some p)"
proof -
  let ?sel1 = "if cfs_skip (cfs s) = Some l then prefer_buddy (raw_pick_next_entity (e_rb E) l s) l (l, s) else (l, s)"
  have 0: "same_view l s (snd (l, s))" "close_to l s (fst (l, s))" by (simp_all add: same_view_def close_to_def)
  have 1: "same_view l s (snd ?sel1)" "close_to l s (fst ?sel1)"
      "fst ?sel1 = l \<or> r_next (e_rb E) l (tasks_timeline (cfs s)) = Some (fst ?sel1)"
    using prefer_buddy_close [OF 0, of "raw_pick_next_entity (e_rb E) l s"] 0 by (auto simp: raw_pick_next_entity_def)
  let ?sel2 = "prefer_buddy (cfs_last (cfs (snd ?sel1))) l ?sel1"
  note 2 = prefer_buddy_close [OF 1(1,2), of "cfs_last (cfs (snd ?sel1))"]
  let ?sel3 = "prefer_buddy (cfs_next (cfs (snd ?sel2))) l ?sel2"
  note 3 = prefer_buddy_close [OF 2(1,2), of "cfs_next (cfs (snd ?sel2))"]
  have "cfs (snd ?sel1) = cfs s" "cfs (snd ?sel2) = cfs s" using 1(1) 2(1) by (simp_all only: same_view_def)
  with 1(3) 2(3) 3(3) have "fst ?sel3 = l \<or> r_next (e_rb E) l (tasks_timeline (cfs s)) = Some (fst ?sel3)
      \<or> cfs_last (cfs s) = Some (fst ?sel3) \<or> cfs_next (cfs s) = Some (fst ?sel3)" by metis
  moreover have "pick_next_entity E s = Some (fst ?sel3, clear_buddies (fst ?sel3) (snd ?sel3))"
    using assms unfolding pick_next_entity_def Let_def raw_pick_first_entity_def by simp
  ultimately show ?thesis using 3(2) by blast
qed

context rbtree
begin

lemma pick_fair:
  assumes inv: "cfs_inv shape s" and cu: "cfs_curr (cfs s) = None" and E: "e_rb E = R" and nr: "nr_of s \<noteq> 0"
    and win: "\<forall>q. se_on_rq (se_of s q) \<longrightarrow> vdist base (vruntime (se_of s q)) < 2 ^ 63"
  shows "\<exists>l p t. rb_leftmost (cfs s) = Some l \<and> pick_next_task_fair E s = Some (Some p, t)
     \<and> se_on_rq (se_of s p) \<and> (\<forall>q. se_on_rq (se_of s q) \<longrightarrow>
          int (vdist base (vruntime (se_of s p)))
            \<le> int (vdist base (vruntime (se_of s q))) + max 0 (sint (fst (wakeup_gran l s))))"
proof -
  let ?xs = "timeline shape s" let ?k = "\<lambda>q. vdist base (vruntime (se_of s q))"
  have mem: "q \<in> set ?xs \<longleftrightarrow> se_on_rq (se_of s q)" for q using inv cu by (simp add: cfs_inv_def)
  have "nr_of s = of_nat (length ?xs)" using inv cu by (simp add: cfs_inv_def queued_curr_def)
  with nr obtain l ys where xs: "?xs = l # ys" by (cases ?xs) auto
  have ok: "distinct ?xs" "rb_leftmost (cfs s) = Some l"
      "sorted_wrt (\<lambda>a b. \<not> entity_before (se_of s b) (se_of s a)) (l # ys)"
    using inv xs by (auto simp: cfs_inv_def timeline_ok_def)
  have least: "?k l \<le> ?k q" if "se_on_rq (se_of s q)" for q
  proof -
    have "se_on_rq (se_of s l)" "q = l \<or> q \<in> set ys" using mem [of l] mem [of q] that xs by auto
    then show ?thesis using ok(3) entity_before_window [of base "se_of s q" "se_of s l"] win that by auto
  qed
  from pick_next_entity_close [OF ok(2), of E] obtain p t where p: "pick_next_entity E s = Some (p, t)"
      "close_to l s p" "p = l \<or> r_next R l (tasks_timeline (cfs s)) = Some p
         \<or> cfs_last (cfs s) = Some p \<or> cfs_next (cfs s) = Some p"
    unfolding E by blast
  have nx: "r_next R l (tasks_timeline (cfs s)) = first_of ys"
    using next_of_first [of "tasks_timeline (cfs s)" l ys] ok(1) xs by (simp add: seq_def timeline_def)
  have "first_of ys = Some q \<Longrightarrow> q \<in> set ys" for q by (cases ys) auto
  then have on: "se_on_rq (se_of s p)"
    using p(3) nx mem [of p] mem [of l] xs inv by (auto simp: cfs_inv_def buddies_ok_def)
  have "sint (vruntime (se_of s p) - vruntime (se_of s l)) = int (?k p) - int (?k l)"
    using sint_window win on mem [of l] xs by simp
  with p(2) least have "int (?k p) \<le> int (?k q) + max 0 (sint (fst (wakeup_gran l s)))" if "se_on_rq (se_of s q)" for q
    using least [OF that] by (simp add: close_to_def)
  moreover have "pick_next_task_fair E s = Some (Some p, set_next_entity E p t)"
    using nr p(1) by (simp add: pick_next_task_fair_def)
  ultimately show ?thesis using ok(2) on by blast
qed

end

section \<open>Placing and re-queueing\<close>

lemma max_vruntime_window:
  assumes "vdist base a < 2 ^ 63" "vdist base b < 2 ^ 63"
  shows "vdist base (max_vruntime a b) = max (vdist base a) (vdist base b)"
  using sint_window [OF assms(2,1)] by (simp add: max_vruntime_def)

lemma clear_buddies_fields [simp]:
  "min_vruntime (cfs (clear_buddies p s)) = min_vruntime (cfs s)" "task_of (clear_buddies p s) = task_of s"
  by (simp_all add: clear_buddies_def raw_clear_buddies_last_def raw_clear_buddies_next_def
      raw_clear_buddies_skip_def upd_cfs_def Let_def)

lemma raw_dequeue_fields' [simp]:
  "min_vruntime (cfs (raw_dequeue_entity R p s)) = min_vruntime (cfs s)" "task_of (raw_dequeue_entity R p s) = task_of s"
  by (simp_all add: raw_dequeue_entity_def upd_cfs_def Let_def)

lemma account_fields [simp]:
  "min_vruntime (cfs (account_entity_dequeue p s)) = min_vruntime (cfs s)"
  "task_of (account_entity_dequeue p s) = task_of s" "task_of (account_entity_enqueue p s) = task_of s"
  by (simp_all add: account_entity_dequeue_def account_entity_enqueue_def upd_cfs_def Let_def)

lemma update_min_tasks [simp]: "task_of (update_min_vruntime s) = task_of s"
  by (simp add: update_min_vruntime_def upd_cfs_def Let_def)

lemma vruntime_update_curr: "cfs_curr (cfs s) \<noteq> Some p \<Longrightarrow> vruntime (se_of (update_curr s) p) = vruntime (se_of s p)"
  using fframe_update_curr [OF subset_refl, of s] by (auto simp: fframe_def)

lemma dequeue_entity_vruntime:
  assumes "cfs_curr (cfs s) \<noteq> Some p"
  shows "vruntime (se_of (dequeue_entity E p 0 s) p) = vruntime (se_of s p) - min_vruntime (cfs (update_curr s))"
proof -
  have "cfs_curr (cfs (clear_buddies p (update_curr s))) \<noteq> Some p"
    using assms fframe_trans [OF fframe_update_curr [OF subset_refl, of s] fframe_clear_buddies [of _ _ p]]
    by (auto simp: fframe_def)
  then show ?thesis
    using vruntime_update_curr [OF assms]
    by (simp add: dequeue_entity_def Let_def has_flag_def upd_se_def set_vruntime_def)
qed

lemma dequeue_entity_curr: "cfs_curr (cfs (dequeue_entity E p f s)) = cfs_curr (cfs s)"
proof -
  have 1: "cfs_curr (cfs (clear_buddies p (update_curr s))) = cfs_curr (cfs s)"
    using fframe_trans [OF fframe_update_curr [OF subset_refl, of s] fframe_clear_buddies [of _ _ p]]
    by (simp add: fframe_def)
  have 2: "cfs_curr (cfs (raw_dequeue_entity R p u)) = cfs_curr (cfs u)" for R u
    by (simp add: raw_dequeue_entity_def upd_cfs_def Let_def)
  show ?thesis
    by (simp add: dequeue_entity_def Let_def update_min_vruntime_def account_entity_dequeue_def fair_upd 1 2
        split: option.splits)
qed

lemma enqueue_entity_vruntime:
  assumes "cfs_curr (cfs s) \<noteq> Some p" and "enqueue_entity E p 0 s = Some t"
  shows "vruntime (se_of t p) = vruntime (se_of s p) + min_vruntime (cfs s)"
proof -
  let ?s1 = "set_vruntime p (vruntime (se_of s p) + min_vruntime (cfs s)) s"
  have u: "ready_state E p 0 s = account_entity_enqueue p (update_curr ?s1)"
    by (simp add: ready_state_def has_flag_def Let_def)
  have "cfs_curr (cfs ?s1) \<noteq> Some p" using assms(1) by (simp add: fair_upd)
  from vruntime_update_curr [OF this] have r: "vruntime (se_of (ready_state E p 0 s) p) = vruntime (se_of s p) + min_vruntime (cfs s)"
    by (simp add: u fair_upd)
  from assms(2) obtain v where "task_of v = task_of (ready_state E p 0 s)" "t = upd_se p (se_on_rq_update (\<lambda>_. True)) v"
    by (auto simp: enqueue_entity_ready Let_def split: bind_splits if_splits dest: raw_enqueue_tasks)
  with r show ?thesis by (simp add: upd_se_def)
qed

section \<open>Sample states of the fair class\<close>

definition sample_env :: "(nat \<Rightarrow> nat list, nat tree, unit) sched_env" where
  "sample_env = \<lparr>e_list = seq_ops, e_rb = tree_ops, sched_clock_cpu = (\<lambda>x. (0, x)), sched_feat = (\<lambda>_. True)\<rparr>"

text \<open>Tasks 1 and 2 are queued, task 2 one unit of virtual time behind.\<close>

definition sample_fair :: "(nat \<Rightarrow> nat list, nat tree, unit) sched" where
  "sample_fair =
     upd_cfs (\<lambda>c. c\<lparr>tasks_timeline := Node Leaf 1 (Node Leaf 2 Leaf), rb_leftmost := Some 1, cfs_nr_running := 2\<rparr>)
       (upd_se 2 (\<lambda>e. e\<lparr>se_on_rq := True, vruntime := 1\<rparr>)
         (upd_se 1 (\<lambda>e. e\<lparr>se_on_rq := True\<rparr>) sample_sched))"

lemma sample_fair_inv: "cfs_inv (\<lambda>t. t) sample_fair"
  by (auto simp: cfs_inv_def timeline_ok_def timeline_def sample_fair_def fair_upd sample_sched_def sample_task_def
      queued_curr_def buddies_ok_def entity_before_def)

lemma sample_fair_window: "\<forall>q. se_on_rq (se_of sample_fair q) \<longrightarrow> vdist 0 (vruntime (se_of sample_fair q)) < 2 ^ 63"
  by (auto simp: sample_fair_def fair_upd sample_sched_def sample_task_def vdist_def)

lemma sample_env_rb [simp]: "e_rb sample_env = tree_ops"
  by (simp add: sample_env_def)

section \<open>Properties\<close>



text \<open>C36: Fair choice.  When tasks are queued, \<open>pick_next_task_fair\<close> returns one of them, and no queued
  task is behind it in virtual time by more than the wakeup granularity, whatever buddies say.\<close>

theorem pick_next_task_fair_choice:
  assumes "rbtree (e_rb E) shape" and "cfs_inv shape s" and "cfs_curr (cfs s) = None"
    and "cfs_nr_running (cfs s) \<noteq> 0"
    and "\<forall>q. se_on_rq (se_of s q) \<longrightarrow> vdist base (vruntime (se_of s q)) < 2 ^ 63"
  shows "\<exists>l p t. rb_leftmost (cfs s) = Some l \<and> pick_next_task_fair E s = Some (Some p, t)
     \<and> se_on_rq (se_of s p) \<and> (\<forall>q. se_on_rq (se_of s q) \<longrightarrow>
          int (vdist base (vruntime (se_of s p)))
            \<le> int (vdist base (vruntime (se_of s q))) + max 0 (sint (fst (wakeup_gran l s))))"
  using rbtree.pick_fair [OF assms(1-3) refl assms(4,5)] .

theorem pick_next_task_fair_choice_witness:
  "\<exists>l p t. rb_leftmost (cfs sample_fair) = Some l \<and> pick_next_task_fair sample_env sample_fair = Some (Some p, t)
     \<and> se_on_rq (se_of sample_fair p) \<and> (\<forall>q. se_on_rq (se_of sample_fair q) \<longrightarrow>
          int (vdist 0 (vruntime (se_of sample_fair p)))
            \<le> int (vdist 0 (vruntime (se_of sample_fair q))) + max 0 (sint (fst (wakeup_gran l sample_fair))))"
proof (rule pick_next_task_fair_choice)
  show "rbtree (e_rb sample_env) (\<lambda>t. t)" using tree_store.rbtree_axioms by simp
qed (use sample_fair_inv sample_fair_window in \<open>simp_all add: sample_fair_def fair_upd sample_sched_def\<close>)

text \<open>Sleepers.  A task that wakes up is placed at its own virtual time or at half a latency before
  the queue's minimum, whichever is later: it neither goes back in time nor keeps the credit of a
  long sleep.\<close>

theorem place_entity_wakeup:
  assumes "sched_feat E GENTLE_FAIR_SLEEPERS"
    and "m = min_vruntime (cfs s) - drop_bit 1 (ucast (sched_latency (tun s)))"
    and "vdist base (vruntime (se_of s p)) < 2 ^ 63" and "vdist base m < 2 ^ 63"
  shows "vdist base (vruntime (se_of (place_entity E p False s) p))
     = max (vdist base (vruntime (se_of s p))) (vdist base m)"
  using max_vruntime_window [OF assms(3,4)] assms(1,2)
  by (simp add: place_entity_def Let_def set_vruntime_def upd_se_def)

theorem place_entity_wakeup_witness:
  "vdist (- 5000000) (vruntime (se_of (place_entity sample_env 2 False sample_fair) 2)) = 5000001"
  using place_entity_wakeup [of sample_env "- 3000000" sample_fair "- 5000000" 2]
  by (simp add: sample_env_def sample_fair_def fair_upd sample_sched_def sample_task_def vdist_def)

text \<open>C37: Re-queueing.  A task that is taken off the timeline and put back without having slept (to
  change its priority or class) keeps its distance from the queue's minimum.\<close>

theorem requeue_keeps_lag:
  assumes "cfs_curr (cfs s) \<noteq> Some p" and "enqueue_entity E p 0 (dequeue_entity E p 0 s) = Some t"
  shows "vruntime (se_of t p) - min_vruntime (cfs (dequeue_entity E p 0 s))
     = vruntime (se_of s p) - min_vruntime (cfs (update_curr s))"
  using enqueue_entity_vruntime [OF _ assms(2)] assms(1) dequeue_entity_vruntime [OF assms(1), of E]
  by (simp add: dequeue_entity_curr)

theorem requeue_keeps_lag_witness:
  "\<exists>t. enqueue_entity sample_env 2 0 (dequeue_entity sample_env 2 0 sample_fair) = Some t
     \<and> vruntime (se_of t 2) - min_vruntime (cfs (dequeue_entity sample_env 2 0 sample_fair)) = 1"
proof -
  have c: "cfs_curr (cfs sample_fair) = None" by (simp add: sample_fair_def fair_upd sample_sched_def)
  let ?d = "dequeue_entity sample_env 2 0 sample_fair"
  have "\<exists>t. enqueue_entity sample_env 2 0 ?d = Some t"
    by (simp add: enqueue_entity_def raw_enqueue_entity_def find_place.simps tree_ops_def dequeue_entity_def
        sample_env_def sample_fair_def fair_upd sample_sched_def sample_task_def has_flag_def Let_def
        update_curr_def account_entity_enqueue_def account_entity_dequeue_def clear_buddies_def
        raw_dequeue_entity_def update_min_vruntime_def max_vruntime_def entity_before_def)
  then obtain t where t: "enqueue_entity sample_env 2 0 ?d = Some t" by blast
  have "vruntime (se_of sample_fair 2) = 1" "min_vruntime (cfs (update_curr sample_fair)) = 0"
    using c by (simp_all add: update_curr_def sample_fair_def fair_upd sample_sched_def)
  with requeue_keeps_lag [OF _ t] c t show ?thesis by auto
qed

end
