(* ===== verification/Sched_Core_Props.thy ===== *)
theory Sched_Core_Props
  imports Sched_Run Sched_Policy Sched_Dummy_Props Sched_Fair_Runs
begin

text \<open>
  Properties of the core scheduler: the order of the classes when a task is picked, the class of a
  forked task, the permissions of \<open>sched_setscheduler\<close>, and what \<open>set_user_nice\<close> does to a task of the
  dummy class.
\<close>

section \<open>What the fair class leaves alone in tasks\<close>

definition sched_part :: "task \<Rightarrow> class_id \<times> int \<times> int \<times> int \<times> bool \<times> u64" where
  "sched_part t = (sched_class t, prio t, static_prio t, policy t, on_rq t, tstate t)"

lemma sched_part_flag [simp]: "sched_part (t\<lparr>need_resched := b\<rparr>) = sched_part t"
  by (simp add: sched_part_def)

lemma sched_part_se [simp]: "sched_part (task_of (upd_se p f s) q) = sched_part (task_of s q)"
  by (simp add: sched_part_def upd_se_def)

lemma sched_part_vruntime [simp]: "sched_part (task_of (set_vruntime p v s) q) = sched_part (task_of s q)"
  by (simp add: set_vruntime_def)

lemma sched_part_resched [simp]: "sched_part (task_of (resched_task p s) q) = sched_part (task_of s q)"
  by (simp add: sched_part_def)

lemma sched_part_delta [simp]: "sched_part (task_of (snd (calc_delta_fair d p s)) q) = sched_part (task_of s q)"
  by (simp add: calc_delta_fair_def Let_def case_prod_beta)

lemma sched_part_update_curr [simp]: "sched_part (task_of (update_curr s) q) = sched_part (task_of s q)"
  by (simp add: update_curr_def raw_update_curr_def Let_def case_prod_beta split: option.splits)

lemma sched_part_slice [simp]: "task_of (snd (sched_slice p s)) = task_of s"
  by (simp add: sched_slice_def upd_cfs_def Let_def case_prod_beta)

lemma sched_part_place [simp]: "sched_part (task_of (place_entity E p b s) q) = sched_part (task_of s q)"
  by (simp add: place_entity_def sched_vslice_def Let_def case_prod_beta)

lemma task_fork_fair_part:
  "\<exists>t. task_fork_fair E p s = Some t \<and> (\<forall>q. sched_part (task_of t q) = sched_part (task_of s q))"
  by (simp add: task_fork_fair_def Let_def split: option.splits)

section \<open>Fork\<close>

lemma set_load_weight_some:
  assumes "MAX_RT_PRIO \<le> static_prio (task_of s p)" "static_prio (task_of s p) < MAX_PRIO"
  shows "\<exists>t. set_load_weight p s = Some t \<and> (\<forall>q. sched_part (task_of t q) = sched_part (task_of s q))"
  using assms by (auto simp: set_load_weight_def load_weight_of_def Let_def prio_consts)

text \<open>The priority that a child starts with.\<close>

definition child_prio :: "task \<Rightarrow> task \<Rightarrow> int" where
  "child_prio parent child =
     (if sched_reset_on_fork child then
        if task_has_rt_policy child \<or> static_prio child < NICE_TO_PRIO 0 then NICE_TO_PRIO 0 else static_prio child
      else normal_prio parent)"

lemma reset_on_fork_prio:
  "prio (reset_on_fork_task t) = static_prio (reset_on_fork_task t)"
  "static_prio (reset_on_fork_task t) =
     (if task_has_rt_policy t \<or> static_prio t < NICE_TO_PRIO 0 then NICE_TO_PRIO 0 else static_prio t)"
  "on_rq (reset_on_fork_task t) = on_rq t" "tstate (reset_on_fork_task t) = tstate t"
  "sched_class (reset_on_fork_task t) = sched_class t"
  by (auto simp: reset_on_fork_task_def raw_normal_prio_def PRIO_TO_NICE_def NICE_TO_PRIO_def Let_def)

lemma sched_fork_class:
  assumes "p \<noteq> rq_curr s" and "MAX_RT_PRIO \<le> static_prio (task_of s p)" "static_prio (task_of s p) < MAX_PRIO"
    and "rt_prio (child_prio (task_of s (rq_curr s)) (task_of s p)) \<Longrightarrow>
           class_of s p = Rt_class \<and> c_task_fork (ext_class E Rt_class) = None"
  shows "\<exists>t. sched_fork E p s = Some t
     \<and> sched_class (task_of t p) = class_for_prio (prio (task_of t p))
     \<and> prio (task_of t p) = child_prio (task_of s (rq_curr s)) (task_of s p)
     \<and> \<not> on_rq (task_of t p) \<and> tstate (task_of t p) = TASK_RUNNING"
proof -
  let ?pr = "child_prio (task_of s (rq_curr s)) (task_of s p)"
  let ?s2 = "upd_task p (\<lambda>t. t\<lparr>tstate := TASK_RUNNING,
      prio := normal_prio (task_of (raw_sched_fork p s) (rq_curr (raw_sched_fork p s)))\<rparr>) (raw_sched_fork p s)"
  let ?r = "sched_reset_on_fork (task_of ?s2 p)"
  have 2: "?r = sched_reset_on_fork (task_of s p)" "class_of ?s2 p = class_of s p" "\<not> on_rq (task_of ?s2 p)"
      "tstate (task_of ?s2 p) = TASK_RUNNING" "static_prio (task_of ?s2 p) = static_prio (task_of s p)"
      "policy (task_of ?s2 p) = policy (task_of s p)" "prio (task_of ?s2 p) = normal_prio (task_of s (rq_curr s))"
    using assms(1) by (simp_all add: raw_sched_fork_def)
  let ?step = "if ?r then do { t \<leftarrow> set_load_weight p (upd_task p reset_on_fork_task ?s2);
       Some (upd_task p (sched_reset_on_fork_update (\<lambda>_. False)) t) } else Some ?s2"
  have "\<exists>s3. ?step = Some s3 \<and> class_of s3 p = class_of s p \<and> prio (task_of s3 p) = ?pr
      \<and> \<not> on_rq (task_of s3 p) \<and> tstate (task_of s3 p) = TASK_RUNNING"
  proof (cases ?r)
    case True
    let ?u = "upd_task p reset_on_fork_task ?s2"
    have pol: "task_has_rt_policy (task_of ?s2 p) = task_has_rt_policy (task_of s p)"
      using 2(6) by (simp add: task_has_rt_policy_def)
    have u: "static_prio (task_of ?u p) = ?pr" "prio (task_of ?u p) = ?pr" "class_of ?u p = class_of s p"
        "\<not> on_rq (task_of ?u p)" "tstate (task_of ?u p) = TASK_RUNNING"
      using True 2 pol unfolding child_prio_def by (simp_all add: reset_on_fork_prio)
    have "MAX_RT_PRIO \<le> ?pr" "?pr < MAX_PRIO"
      using True 2(1) assms(2,3) by (auto simp: child_prio_def NICE_TO_PRIO_def prio_consts)
    with u(1) set_load_weight_some [of ?u p] obtain t where
      "set_load_weight p ?u = Some t" "sched_part (task_of t p) = sched_part (task_of ?u p)" by auto
    with u True show ?thesis by (auto simp: sched_part_def)
  next
    case False
    with 2 show ?thesis by (auto simp: child_prio_def)
  qed
  then obtain s3 where s3: "?step = Some s3" "class_of s3 p = class_of s p" "prio (task_of s3 p) = ?pr"
      "\<not> on_rq (task_of s3 p)" "tstate (task_of s3 p) = TASK_RUNNING" by blast
  let ?s4 = "if \<not> rt_prio (prio (task_of s3 p)) then
       if dummy_prio (prio (task_of s3 p)) then upd_task p (sched_class_update (\<lambda>_. Dummy_class)) s3
       else upd_task p (sched_class_update (\<lambda>_. Fair_class)) s3 else s3"
  have 4: "class_of ?s4 p = class_for_prio ?pr" "prio (task_of ?s4 p) = ?pr" "\<not> on_rq (task_of ?s4 p)"
      "tstate (task_of ?s4 p) = TASK_RUNNING"
    using s3 assms(4) by (auto simp: class_for_prio_def)
  have eq: "sched_fork E p s = (case c_task_fork (class_table E (class_of ?s4 p)) of Some f \<Rightarrow> f p ?s4 | None \<Rightarrow> Some ?s4)"
    using s3(1) unfolding sched_fork_def Let_def by simp
  have "\<exists>t. sched_fork E p s = Some t \<and> sched_part (task_of t p) = sched_part (task_of ?s4 p)"
  proof (cases "class_of ?s4 p")
    case Fair_class
    then show ?thesis using eq task_fork_fair_part [of E p ?s4]
      by (auto simp: class_table_def fair_sched_class_def)
  next
    case Dummy_class
    then show ?thesis using eq by (simp add: class_table_def dummy_sched_class_def)
  next
    case Rt_class
    then have "rt_prio ?pr" using 4(1) by (auto simp: class_for_prio_def split: if_splits)
    with Rt_class assms(4) show ?thesis using eq by (simp add: class_table_def)
  qed (use 4(1) in \<open>auto simp: class_for_prio_def split: if_splits\<close>)
  with 4 show ?thesis by (auto simp: sched_part_def)
qed

section \<open>Nice values of dummy tasks\<close>

lemma set_load_weight_part:
  "set_load_weight p s = Some t \<Longrightarrow> sched_part (task_of t q) = sched_part (task_of s q)"
  by (auto simp: set_load_weight_def Let_def split: bind_splits)

lemma enqueue_dummy_out_of_range:
  assumes "class_of s p = Dummy_class" and "prio (task_of s p) < MIN_DUMMY_PRIO"
  shows "enqueue_task E p flags s = None"
  using assms by (simp add: enqueue_task_def class_table_def dummy_sched_class_def enqueue_task_dummy_def
      enqueue_dummy_entity_def queue_index_def DUMMY_PRIORITY_MIN_def prio_consts)

lemma dequeue_dummy_some:
  assumes "class_of s p = Dummy_class"
  shows "\<exists>t. dequeue_task E p flags s = Some t \<and> task_of t = task_of s"
  using assms by (simp add: dequeue_task_def class_table_def dummy_sched_class_def dequeue_task_dummy_def
      dequeue_dummy_entity_def dec_nr_running_def)

section \<open>A concrete environment\<close>

text \<open>
  An environment in which the classes that are not modelled have no tasks but the idle task 0, nobody
  has \<open>CAP_SYS_NICE\<close>, and the resource limits allow real-time priorities up to 10.
\<close>

definition sample_class :: "nat option \<Rightarrow> (nat \<Rightarrow> nat list, nat tree, unit) class_ops" where
  "sample_class i = \<lparr>c_enqueue_task = (\<lambda>_ _. Some), c_dequeue_task = (\<lambda>_ _. Some), c_yield_task = Some,
     c_yield_to_task = None, c_check_preempt_curr = (\<lambda>_ _. Some), c_pick_next_task = (\<lambda>s. Some (i, s)),
     c_put_prev_task = (\<lambda>_. Some), c_set_curr_task = Some, c_task_tick = (\<lambda>_ _. Some), c_task_fork = None,
     c_switched_from = None, c_switched_to = (\<lambda>_. Some), c_prio_changed = (\<lambda>_ _. Some),
     c_get_rr_interval = (\<lambda>_ s. (0, s))\<rparr>"

definition sample_core :: "(nat \<Rightarrow> nat list, nat tree, unit) core_env" where
  "sample_core = \<lparr>e_list = seq_ops, e_rb = tree_ops, sched_clock_cpu = (\<lambda>x. (0, x)), sched_feat = (\<lambda>_. True),
     ext_class = (\<lambda>c. sample_class (if c = Idle_class then Some 0 else None)),
     wq_worker_waking_up = (\<lambda>_ x. x), wq_worker_sleeping = (\<lambda>_ x. (None, x)),
     rt_mutex_getprio = (\<lambda>_ t _. normal_prio t), rt_mutex_adjust_pi = (\<lambda>_. Some),
     capable_sys_nice = (\<lambda>_. False), rlimit_nice = (\<lambda>_ _. 0), rlimit_rtprio = (\<lambda>_ _. 10),
     cred_euid = (\<lambda>_ _. 1000), cred_uid = (\<lambda>_ _. 1000), security_task_setscheduler = (\<lambda>_ _. 0),
     security_task_setnice = (\<lambda>_ _ _. 0), security_task_getscheduler = (\<lambda>_ _. 0),
     find_task_by_vpid = (\<lambda>n _. if 0 < n then Some (nat n) else None), preempt_active = (\<lambda>_ _. False)\<rparr>"

lemma sample_core_fields [simp]:
  "e_list sample_core = seq_ops" "capable_sys_nice sample_core x = False"
  "rlimit_rtprio sample_core p x = 10" "check_same_owner sample_core p s"
  "security_task_setscheduler sample_core p x = 0" "rt_mutex_adjust_pi sample_core p s = Some s"
  "rt_mutex_getprio sample_core p t x = normal_prio t"
  "ext_class sample_core c = sample_class (if c = Idle_class then Some 0 else None)"
  by (simp_all add: sample_core_def check_same_owner_def)

lemma sample_class_fields [simp]:
  "c_pick_next_task (sample_class i) s = Some (i, s)" "c_enqueue_task (sample_class i) p f s = Some s"
  "c_switched_to (sample_class i) p s = Some s"
  by (simp_all add: sample_class_def)

section \<open>Properties\<close>

text \<open>C5: Fork.  The child of the running task starts in the class of its priority (fair, dummy, or its
  parent's real-time class), which is the parent's normal priority or, with the reset flag, a nice
  value that is not negative; it is marked running and not queued.\<close>

theorem sched_fork_child:
  assumes "p \<noteq> rq_curr s" and "MAX_RT_PRIO \<le> static_prio (task_of s p)" "static_prio (task_of s p) < MAX_PRIO"
    and "rt_prio (child_prio (task_of s (rq_curr s)) (task_of s p)) \<Longrightarrow>
           class_of s p = Rt_class \<and> c_task_fork (ext_class E Rt_class) = None"
  shows "\<exists>t. sched_fork E p s = Some t
     \<and> sched_class (task_of t p) = class_for_prio (prio (task_of t p))
     \<and> prio (task_of t p) = child_prio (task_of s (rq_curr s)) (task_of s p)
     \<and> \<not> on_rq (task_of t p) \<and> tstate (task_of t p) = TASK_RUNNING"
  using sched_fork_class [OF assms] .

theorem sched_fork_child_witness:
  "\<exists>t. sched_fork sample_core 7 sample_sched = Some t \<and> sched_class (task_of t 7) = Dummy_class
     \<and> prio (task_of t 7) = 135 \<and> \<not> on_rq (task_of t 7) \<and> tstate (task_of t 7) = TASK_RUNNING"
  using sched_fork_child [of 7 sample_sched sample_core]
  by (auto simp: sample_task_def sample_prio_def child_prio_def class_for_prio_def rt_prio_def dummy_prio_def prio_consts)

text \<open>C38: Order of the classes.  When no stop or real-time task is runnable, \<open>pick_next_task\<close> takes a fair
  task if there is one, otherwise the head of the first non-empty queue of the dummy class, whose age
  it resets, and the idle task only when there is neither.\<close>

theorem pick_next_task_order:
  assumes "klist (e_list E) ok" and "ok queues (links s)"
    and "c_pick_next_task (ext_class E Stop_class) s = Some (None, s)"
    and "c_pick_next_task (ext_class E Rt_class) s = Some (None, s)"
    and "c_pick_next_task (ext_class E Idle_class) s = Some (Some i, s')"
  shows "pick_next_task E s =
     (if cfs_nr_running (cfs s) \<noteq> 0
      then do { (p, s1) \<leftarrow> pick_next_entity E s; Some (p, set_next_entity E p s1) }
      else if \<exists>b\<in>queues. queue (e_list E) s b \<noteq> []
      then let p = hd (queue (e_list E) s (LEAST b. queue (e_list E) s b \<noteq> [])) in Some (p, set_age p 0 s)
      else Some (i, s'))"
  using assms(3-5) klist.pick_next_eq [OF assms(1,2)]
  by (auto simp: pick_next_task_def classes_def class_table_def fair_sched_class_def dummy_sched_class_def
      pick_next_task_fair_def Let_def split: bind_splits)

theorem pick_next_task_order_witness:
  "pick_next_task sample_core sample_sched = Some (1, set_age 1 0 sample_sched)"
proof -
  have "(LEAST b. queue seq_ops sample_sched b \<noteq> []) = 0"
    by (rule Least_equality) (simp_all add: sample_queue sample_links_def)
  moreover have "cfs_nr_running (cfs sample_sched) = 0" by (simp add: sample_sched_def)
  ultimately show ?thesis
    using pick_next_task_order [of sample_core seq_wf sample_sched 0 sample_sched] seq_list.klist_axioms
      seq_list.inv_ok [OF sample_inv]
    by (simp add: Let_def sample_queue sample_links_def queues_set)
qed

text \<open>Leaving the dummy class.  \<open>set_user_nice\<close> on a queued task of the dummy class with a nice value
  below 15 leaves the task in the class although its priority has no queue there: the insertion
  indexes the array of queues out of its bounds.\<close>

theorem set_user_nice_dummy_out_of_range:
  assumes "class_of s p = Dummy_class" and "on_rq (task_of s p)" and "\<not> task_has_rt_policy (task_of s p)"
    and "\<not> rt_prio (prio (task_of s p))" and "-20 \<le> nice" "nice < 15" and "TASK_NICE (task_of s p) \<noteq> nice"
  shows "set_user_nice E p nice s = None"
proof -
  obtain s1 where 1: "dequeue_task E p 0 s = Some s1" "task_of s1 = task_of s"
    using dequeue_dummy_some [OF assms(1)] by blast
  let ?u = "upd_task p (static_prio_update (\<lambda>_. NICE_TO_PRIO nice)) s1"
  show ?thesis
  proof (cases "set_load_weight p ?u")
    case None
    then show ?thesis using assms 1 by (simp add: set_user_nice_def if_do_def)
  next
    case (Some s2)
    let ?t = "task_of s2 p" let ?e = "effective_prio ?t"
    have t: "sched_class ?t = Dummy_class" "prio ?t = prio (task_of s p)" "static_prio ?t = NICE_TO_PRIO nice"
        "policy ?t = policy (task_of s p)"
      using set_load_weight_part [OF Some, of p] assms(1) 1(2) by (auto simp: sched_part_def)
    then have e: "fst ?e = NICE_TO_PRIO nice" "sched_class (snd ?e) = Dummy_class"
      using assms(3,4) by (simp_all add: effective_prio_def normal_prio_of_def raw_normal_prio_def
          task_has_rt_policy_def Let_def)
    let ?s3 = "upd_task p (\<lambda>_. (snd ?e)\<lparr>prio := fst ?e\<rparr>) s2"
    have "\<not> dummy_prio (prio (task_of ?s3 p))"
      using e(1) assms(6) by (simp add: dummy_prio_def NICE_TO_PRIO_def prio_consts)
    moreover have "enqueue_task E p 0 ?s3 = None"
      using e assms(6) by (intro enqueue_dummy_out_of_range) (simp_all add: NICE_TO_PRIO_def prio_consts)
    ultimately show ?thesis
      using assms 1 Some by (simp add: set_user_nice_def if_do_def case_prod_beta)
  qed
qed

theorem set_user_nice_dummy_out_of_range_witness:
  "set_user_nice sample_core 3 0 sample_sched = None"
  by (rule set_user_nice_dummy_out_of_range)
    (simp_all add: sample_task_def sample_prio_def task_has_rt_policy_def rt_policy_def policy_consts
      rt_prio_def prio_consts TASK_NICE_def PRIO_TO_NICE_def)

text \<open>C39: Privileges.  A user without \<open>CAP_SYS_NICE\<close> who gives a task a real-time policy owns the task,
  does not raise its real-time priority beyond the resource limit, does not enter a real-time policy
  with a limit of 0, and does not clear the flag that resets the policy on fork.\<close>

theorem sched_setscheduler_privilege:
  assumes "sched_setscheduler E p pol pr s = Some (0, t)" and "\<not> capable_sys_nice E (others s)"
    and "requested_policy (task_of s p) pol = Some (pol', reset)" and "rt_policy pol'"
  shows "check_same_owner E p s
     \<and> pr \<le> max (int (unat (rt_priority (task_of s p)))) (int (unat (rlimit_rtprio E p (others s))))
     \<and> (rlimit_rtprio E p (others s) = 0 \<longrightarrow> pol' = policy (task_of s p))
     \<and> (sched_reset_on_fork (task_of s p) \<longrightarrow> reset)"
proof -
  have "setscheduler_permitted E p pol' pr reset s"
    using assms by (auto simp: sched_setscheduler_def raw_sched_setscheduler_def errno_defs split: if_splits)
  then show ?thesis
    using assms(4) by (auto simp: setscheduler_permitted_def Let_def split: if_splits)
qed

theorem sched_setscheduler_privilege_witness:
  "\<exists>t. sched_setscheduler sample_core 3 SCHED_FIFO 5 sample_sched = Some (0, t)
     \<and> check_same_owner sample_core 3 sample_sched \<and> (5 :: int) \<le> 10"
proof -
  have a: "requested_policy (task_of sample_sched 3) SCHED_FIFO = Some (SCHED_FIFO, False)"
    by (simp add: requested_policy_def valid_policy_def policy_consts)
  let ?c = "\<lambda>u. upd_task 3 (sched_reset_on_fork_update (\<lambda>_. False)) u"
  obtain s1 where 1: "dequeue_task sample_core 3 0 sample_sched = Some s1" "task_of s1 = task_of sample_sched"
    using dequeue_dummy_some [of sample_sched 3] by (auto simp: sample_task_def)
  have "\<exists>s4. raw_setscheduler sample_core 3 SCHED_FIFO 5 (?c s1) = Some s4 \<and> class_of s4 3 = Rt_class"
    using 1(2) by (simp add: raw_setscheduler_def set_load_weight_def load_weight_of_def sample_task_def sample_prio_def
        normal_prio_of_def task_has_rt_policy_def rt_policy_def policy_consts prio_consts class_for_prio_def rt_prio_def
        upd_se_def Let_def)
  then obtain s4 where "raw_setscheduler sample_core 3 SCHED_FIFO 5 (?c s1) = Some s4" "class_of s4 3 = Rt_class" by blast
  then have "\<exists>t. change_policy sample_core 3 SCHED_FIFO 5 False sample_sched = Some t"
    using 1 by (simp add: change_policy_def if_do_def enqueue_task_def class_table_def check_class_changed_def
        dummy_sched_class_def switched_from_dummy_def sample_task_def)
  moreover have "valid_param (task_of sample_sched 3) SCHED_FIFO 5" "policy (task_of sample_sched 3) \<noteq> SCHED_FIFO"
    by (simp_all add: valid_param_def sample_task_def MAX_USER_RT_PRIO_def rt_policy_def policy_consts)
  moreover have "setscheduler_permitted sample_core 3 SCHED_FIFO 5 False sample_sched"
    by (simp add: setscheduler_permitted_def sample_task_def policy_consts Let_def)
  moreover have "rq_stop sample_sched = None" by (simp add: sample_sched_def)
  ultimately obtain t where "sched_setscheduler sample_core 3 SCHED_FIFO 5 sample_sched = Some (0, t)"
    using a by (auto simp: sched_setscheduler_def raw_sched_setscheduler_def simp del: sample_fields)
  with sched_setscheduler_privilege [OF this _ a] show ?thesis
    by (auto simp: rt_policy_def policy_consts sample_task_def)
qed

end
