(* ===== verification/Sched_Load_Props.thy ===== *)
theory Sched_Load_Props
  imports Sched_Load Sched_Sample
begin

text \<open>
  The load averages stay between the old average and the current load, also when many periods are
  caught up at once, and no entry of \<open>cpu_load\<close> grows beyond the loads it averages.
\<close>

section \<open>Fixed-point arithmetic\<close>

lemma FIXED_1_eq: "FIXED_1 = 2048"
  by (simp add: FIXED_1_def FSHIFT_def push_bit_eq_mult)

lemma unat_mult_add:
  assumes "unat (a :: u64) * unat b + unat c < 2 ^ 64"
  shows "unat (a * b + c) = unat a * unat b + unat c"
  using assms by (simp add: unat_word_ariths mod_add_left_eq)

lemma unat_drop_bit_div: "unat (drop_bit n (w :: u64)) = unat w div 2 ^ n"
  by (simp only: unat_drop_bit_eq drop_bit_eq_div [where 'a = nat])

lemma fixed_mult_le:
  assumes "unat x \<le> 2048" "unat y \<le> 2048"
  shows "unat (fixed_mult FSHIFT x y) \<le> 2048"
proof -
  have p: "unat x * unat y \<le> 2048 * 2048" using mult_le_mono [OF assms] .
  then have "unat (x * y + 1024) = unat x * unat y + 1024" using unat_mult_add [of x y 1024] by simp
  with p show ?thesis
    by (simp add: fixed_mult_def FSHIFT_def unat_drop_bit_div push_bit_eq_mult)
qed

lemma fixed_power_loop_le:
  "unat result \<le> 2048 \<Longrightarrow> unat x \<le> 2048 \<Longrightarrow> unat (fixed_power_loop FSHIFT result x n) \<le> 2048"
proof (induction FSHIFT result x n rule: fixed_power_loop.induct)
  case (1 result x n)
  let ?r = "if n AND 1 \<noteq> 0 then fixed_mult FSHIFT result x else result"
  have "unat ?r \<le> 2048" using 1(2,3) fixed_mult_le by simp
  with 1 fixed_mult_le show ?case by (subst fixed_power_loop.simps) (simp add: Let_def del: fixed_power_loop.simps)
qed

lemma fixed_power_int_le: "unat x \<le> 2048 \<Longrightarrow> unat (fixed_power_int x FSHIFT n) \<le> 2048"
  using fixed_power_loop_le [of 2048 x n]
  by (simp add: fixed_power_int_def Let_def FSHIFT_def push_bit_eq_mult del: fixed_power_loop.simps)

text \<open>A weighted average with weights \<open>e\<close> and \<open>2048 - e\<close>, rounded.\<close>

lemma average_between:
  fixes l a e :: nat
  assumes "e \<le> 2048"
  shows "min l a \<le> (l * e + a * (2048 - e) + 1024) div 2048" "(l * e + a * (2048 - e) + 1024) div 2048 \<le> max l a"
proof -
  let ?m = "min l a" and ?M = "max l a"
  have "?m * 2048 = ?m * e + ?m * (2048 - e)" using assms by (simp flip: add_mult_distrib2)
  also have "\<dots> \<le> l * e + a * (2048 - e)" by (intro add_mono mult_le_mono1) auto
  finally show "?m \<le> (l * e + a * (2048 - e) + 1024) div 2048" by (simp add: less_eq_div_iff_mult_less_eq)
  have "l * e + a * (2048 - e) \<le> ?M * e + ?M * (2048 - e)" by (intro add_mono mult_le_mono1) auto
  also have "\<dots> = ?M * 2048" using assms by (simp flip: add_mult_distrib2)
  finally show "(l * e + a * (2048 - e) + 1024) div 2048 \<le> ?M" by linarith
qed

lemma calc_load_between:
  assumes "unat ex \<le> 2048" "unat load < 2 ^ 53" "unat active < 2 ^ 53"
  shows "min load active \<le> calc_load load ex active \<and> calc_load load ex active \<le> max load active"
proof -
  let ?l = "unat load" and ?a = "unat active" and ?e = "unat ex"
  have f: "unat (FIXED_1 - ex) = 2048 - ?e"
    using assms(1) by (simp add: FIXED_1_eq unat_sub word_le_nat_alt)
  have "?l * ?e + ?a * (2048 - ?e) \<le> max ?l ?a * ?e + max ?l ?a * (2048 - ?e)" by (intro add_mono mult_le_mono1) auto
  also have "\<dots> = max ?l ?a * 2048" using assms(1) by (simp flip: add_mult_distrib2)
  also have "\<dots> \<le> (2 ^ 53 - 1) * 2048" using assms(2,3) by (intro mult_le_mono1) auto
  finally have b: "?l * ?e + ?a * (2048 - ?e) + 1024 < 2 ^ 64" by simp
  have "unat (active * (FIXED_1 - ex) + 1024) = ?a * (2048 - ?e) + 1024"
    using unat_mult_add [of active "FIXED_1 - ex" 1024] b f by simp
  moreover from this have "unat (load * ex + (active * (FIXED_1 - ex) + 1024)) = ?l * ?e + (?a * (2048 - ?e) + 1024)"
    using unat_mult_add [of load ex "active * (FIXED_1 - ex) + 1024"] b by simp
  ultimately have "unat (calc_load load ex active) = (?l * ?e + ?a * (2048 - ?e) + 1024) div 2048"
    by (simp add: calc_load_def FSHIFT_def unat_drop_bit_div push_bit_eq_mult add.assoc)
  with average_between [OF assms(1), of ?l ?a] show ?thesis
    by (auto simp: word_le_nat_alt min_def max_def split: if_splits)
qed

section \<open>Decay\<close>

lemma decay_step_le:
  assumes "unat (load :: u64) < 2 ^ 57" "f \<le> 128"
  shows "unat (drop_bit DEGRADE_SHIFT (load * of_nat f)) \<le> unat load"
proof -
  have f: "unat (of_nat f :: u64) = f" using assms(2) by (simp add: unat_of_nat)
  have p: "unat load * f \<le> unat load * 128" using assms(2) by (intro mult_le_mono2)
  have "unat load * 128 < 2 ^ 64" using assms(1) by simp
  with p have "unat load * f < 2 ^ 64" by (rule le_less_trans)
  then have "unat (load * of_nat f) = unat load * f"
    using unat_mult_add [of load "of_nat f" 0] f by simp
  moreover have "unat load * f div 128 \<le> unat load" using div_le_mono [OF p, of 128] by simp
  ultimately show ?thesis by (simp add: DEGRADE_SHIFT_def unat_drop_bit_div)
qed

lemma decay_loop_le:
  "unat load < 2 ^ 57 \<Longrightarrow> length row = 8 \<Longrightarrow> \<forall>f\<in>set row. f \<le> 128 \<Longrightarrow> j \<le> 8 \<Longrightarrow> missed < 2 ^ (8 - j)
     \<Longrightarrow> unat (decay_loop row load missed j) \<le> unat load"
proof (induction row load missed j rule: decay_loop.induct)
  case (1 row load missed j)
  show ?case
  proof (cases "missed = 0")
    case False
    then have j: "j < 8" using 1(5,6) by (cases "j = 8") auto
    let ?l = "if missed mod 2 \<noteq> 0 then drop_bit DEGRADE_SHIFT (load * of_nat (row ! j)) else load"
    have "row ! j \<le> 128" using 1(3,4) j by simp
    then have l: "unat ?l \<le> unat load" using decay_step_le [OF 1(2)] by simp
    have "8 - j = Suc (8 - (j + 1))" using j by simp
    then have "missed div 2 < 2 ^ (8 - (j + 1))" using 1(6) by (simp add: less_mult_imp_div_less)
    with 1(1) [OF False] 1(2-4) l j False have "unat (decay_loop row ?l (missed div 2) (j + 1)) \<le> unat ?l" by simp
    with l False show ?thesis by (subst decay_loop.simps) (simp del: decay_loop.simps)
  qed simp
qed

lemma degrade_rows:
  assumes "i < 5"
  shows "length (degrade_factor ! i) = 8" "\<forall>f\<in>set (degrade_factor ! i). f \<le> 128"
    "degrade_zero_ticks ! i \<le> 128"
proof -
  have "i = 0 \<or> i = 1 \<or> i = 2 \<or> i = 3 \<or> i = 4" using assms by arith
  then show "length (degrade_factor ! i) = 8" "\<forall>f\<in>set (degrade_factor ! i). f \<le> 128" "degrade_zero_ticks ! i \<le> 128"
    by (auto simp: degrade_factor_def degrade_zero_ticks_def numeral_eq_Suc)
qed

lemma decay_load_missed_le:
  assumes "unat load < 2 ^ 57" "i < 5"
  shows "unat (decay_load_missed load m i) \<le> unat load"
proof -
  have "unat (decay_loop (degrade_factor ! i) load (unat m) 0) \<le> unat load" if "unat m < degrade_zero_ticks ! i"
    using that degrade_rows [OF assms(2)] by (intro decay_loop_le [OF assms(1)]) auto
  moreover have "unat (drop_bit k load) \<le> unat load" for k by (simp add: unat_drop_bit_div)
  ultimately show ?thesis by (simp add: decay_load_missed_def Let_def del: decay_loop.simps)
qed

lemma new_cpu_load_le:
  assumes "unat this_load \<le> M" "unat cur \<le> M" "M < 2 ^ 57" "i < 5"
  shows "unat (new_cpu_load this_load pending i cur) \<le> M"
proof -
  let ?o = "decay_load_missed cur (pending - 1) i" and ?t = this_load and ?sc = "2 ^ i :: nat"
  have o: "unat ?o \<le> M" using decay_load_missed_le [of cur i "pending - 1"] assms by simp
  have "?sc \<le> 2 ^ 4" using assms(4) by (intro power_increasing) auto
  then have sc: "1 \<le> ?sc" "?sc \<le> 16" by auto
  have "i = 0 \<or> i = 1 \<or> i = 2 \<or> i = 3 \<or> i = 4" using assms(4) by arith
  then have sw: "unat (2 ^ i - 1 :: u64) = ?sc - 1" by auto
  let ?n = "if ?t > ?o then ?t + (2 ^ i - 1) else ?t"
  have n: "unat ?n = unat ?t + (if ?t > ?o then ?sc - 1 else 0)"
    using unat_mult_add [of ?t 1 "2 ^ i - 1"] sw assms(1,3) sc by simp
  have small: "unat ?o * (?sc - 1) \<le> M * 15" using o sc by (intro mult_le_mono) auto
  then have "unat ?o * (?sc - 1) + unat ?n < 2 ^ 64" using n assms(1,3) sc by (auto split: if_splits)
  then have "unat (?o * (2 ^ i - 1) + ?n) = unat ?o * (?sc - 1) + unat ?n"
    using unat_mult_add [of ?o "2 ^ i - 1" ?n] sw by simp
  moreover have "unat ?o * (?sc - 1) + unat ?n \<le> M * ?sc"
  proof (cases "?t > ?o")
    case True
    then have "unat ?o \<le> unat ?t - 1" "1 \<le> unat ?t" by (auto simp: word_less_nat_alt)
    then have "unat ?o * (?sc - 1) \<le> (unat ?t - 1) * (?sc - 1)" by (intro mult_le_mono1)
    moreover have "unat ?n = unat ?t + (?sc - 1)" using n True by (simp only: if_True)
    ultimately have "unat ?o * (?sc - 1) + unat ?n \<le> (unat ?t - 1) * (?sc - 1) + unat ?t + (?sc - 1)" by linarith
    also have "\<dots> = unat ?t * ?sc" using \<open>1 \<le> unat ?t\<close> sc by (cases "unat ?t"; cases ?sc) (auto simp: algebra_simps)
    finally show ?thesis using assms(1) mult_le_mono1 order_trans by blast
  next
    case False
    then have "unat ?n \<le> unat ?o" using n by (simp add: word_less_nat_alt)
    then have "unat ?o * (?sc - 1) + unat ?n \<le> unat ?o * ?sc" using sc by (cases ?sc) auto
    then show ?thesis using o mult_le_mono1 order_trans by blast
  qed
  ultimately have "unat (?o * (2 ^ i - 1) + ?n) \<le> M * ?sc" by simp
  then have "unat (?o * (2 ^ i - 1) + ?n) div ?sc \<le> M" using sc by (simp add: div_le_mono [THEN order_trans])
  then show ?thesis by (simp add: new_cpu_load_def Let_def unat_drop_bit_div)
qed

section \<open>Properties\<close>

text \<open>A load average moves towards the load: the new value lies between the old one and the number
  of active tasks, for one period and for any number of periods caught up at once after an idle time,
  as long as the values leave room for the eleven fraction bits.\<close>

theorem calc_load_n_between:
  assumes "ex \<le> FIXED_1" and "load < 2 ^ 53" and "active < 2 ^ 53"
  shows "min load active \<le> calc_load_n load ex active n \<and> calc_load_n load ex active n \<le> max load active"
proof -
  have "unat ex \<le> 2048" using assms(1) by (simp add: FIXED_1_eq word_le_nat_alt)
  moreover have "unat load < 2 ^ 53" "unat active < 2 ^ 53" using assms(2,3) by (auto simp: word_less_nat_alt)
  ultimately show ?thesis unfolding calc_load_n_def by (intro calc_load_between fixed_power_int_le)
qed

theorem calc_load_n_between_witness:
  "2048 \<le> calc_load_n 4096 EXP_5 2048 7 \<and> calc_load_n 4096 EXP_5 2048 7 \<le> 4096"
  using calc_load_n_between [of EXP_5 4096 2048 7] by (simp add: EXP_5_def FIXED_1_eq)

text \<open>No entry of \<open>cpu_load\<close> exceeds a bound on the loads that went into it, however many ticks were
  missed, as long as the bound leaves room for the seven bits of the decay tables.\<close>

theorem update_cpu_load_bounded:
  assumes "M < 2 ^ 57" and "this_load \<le> M" and "length (cpu_load (rq_acct s)) = 5"
    and "\<forall>x\<in>set (cpu_load (rq_acct s)). x \<le> M"
  shows "\<forall>x\<in>set (cpu_load (rq_acct (raw_update_cpu_load this_load pending s))). x \<le> M"
proof -
  have M: "unat M < 2 ^ 57" using assms(1) by (simp add: word_less_nat_alt)
  have "new_cpu_load this_load pending i (cpu_load (rq_acct s) ! i) \<le> M" if "i < 5" for i
  proof -
    have "cpu_load (rq_acct s) ! i \<in> set (cpu_load (rq_acct s))" using that assms(3) by simp
    then show ?thesis using assms(2,4) new_cpu_load_le [OF _ _ M that] by (simp add: word_le_nat_alt)
  qed
  then show ?thesis
    using assms(2) by (auto simp: raw_update_cpu_load_def upd_acct_def CPU_LOAD_IDX_MAX_def)
qed

theorem update_cpu_load_bounded_witness:
  "list_all (\<lambda>x. x \<le> 1024) (cpu_load (rq_acct (raw_update_cpu_load 1024 3 sample_sched)))"
  using update_cpu_load_bounded [of 1024 1024 sample_sched 3] by (simp add: sample_sched_def list_all_iff)

end
