(* ===== verification/Sched_Wait.thy ===== *)
theory Sched_Wait
  imports Sched_Run
begin

text \<open>
  Wait queues, completions and sleeping in \<open>kernel/sched/core.c\<close>.

  A wait queue is the list of its entries.  The wakeup function of an entry is \<open>default_wake_function\<close>
  or one from outside the repository, which is an argument: it says whether it woke something up and
  whether it took its entry off the queue.  While a task sleeps others run and change the completion
  or the queue and the state of the scheduler; \<open>schedule_timeout\<close>, which is not in the repository
  either, is an argument that maps the state at the call to the state at its return.
\<close>

section \<open>Waking up\<close>

datatype wake_fn = Default_wake | Other_wake nat

record wait_entry =
  wq_flags :: u32
  wq_private :: nat
  wq_func :: wake_fn

definition WQ_FLAG_EXCLUSIVE :: u32 where "WQ_FLAG_EXCLUSIVE = 1"
definition WF_SYNC :: int where "WF_SYNC = 1"
definition TASK_KILLABLE :: u64 where "TASK_KILLABLE = TASK_WAKEKILL OR TASK_UNINTERRUPTIBLE"
definition MAX_SCHEDULE_TIMEOUT :: int where "MAX_SCHEDULE_TIMEOUT = 2 ^ 63 - 1"

text \<open>The other wakeup functions: entry, mode, wake flags and key; woken and removed.\<close>

type_synonym ('h, 'r, 'x, 'k) other_wake =
  "nat \<Rightarrow> wait_entry \<Rightarrow> u64 \<Rightarrow> int \<Rightarrow> 'k \<Rightarrow> ('h, 'r, 'x) sched \<Rightarrow> ((bool \<times> bool) \<times> ('h, 'r, 'x) sched) option"

definition default_wake_function ::
  "('h, 'r, 'x) core_env \<Rightarrow> wait_entry \<Rightarrow> u64 \<Rightarrow> int \<Rightarrow> ('h, 'r, 'x) sched \<Rightarrow> (bool \<times> ('h, 'r, 'x) sched) option" where
  "default_wake_function E w mode wake_flags s = try_to_wake_up E (wq_private w) mode wake_flags s"

definition call_func ::
  "('h, 'r, 'x) core_env \<Rightarrow> ('h, 'r, 'x, 'k) other_wake \<Rightarrow> wait_entry \<Rightarrow> u64 \<Rightarrow> int \<Rightarrow> 'k \<Rightarrow> ('h, 'r, 'x) sched
     \<Rightarrow> ((bool \<times> bool) \<times> ('h, 'r, 'x) sched) option" where
  "call_func E F w mode wake_flags key s =
     (case wq_func w of
        Default_wake \<Rightarrow> do { (b, s1) \<leftarrow> default_wake_function E w mode wake_flags s; Some ((b, False), s1) }
      | Other_wake n \<Rightarrow> F n w mode wake_flags key s)"

fun wake_up_common ::
  "('h, 'r, 'x) core_env \<Rightarrow> ('h, 'r, 'x, 'k) other_wake \<Rightarrow> wait_entry list \<Rightarrow> u64 \<Rightarrow> int \<Rightarrow> int \<Rightarrow> 'k \<Rightarrow> ('h, 'r, 'x) sched
     \<Rightarrow> (wait_entry list \<times> ('h, 'r, 'x) sched) option" where
  "wake_up_common E F [] mode nr_exclusive wake_flags key s = Some ([], s)"
| "wake_up_common E F (w # ws) mode nr_exclusive wake_flags key s =
     (case call_func E F w mode wake_flags key s of
        None \<Rightarrow> None
      | Some ((woken, removed), s1) \<Rightarrow>
          let kept = (if removed then [] else [w]);
              counted = (woken \<and> wq_flags w AND WQ_FLAG_EXCLUSIVE \<noteq> 0);
              nr = (if counted then nr_exclusive - 1 else nr_exclusive)
          in if counted \<and> nr = 0 then Some (kept @ ws, s1)
             else (case wake_up_common E F ws mode nr wake_flags key s1 of
                     None \<Rightarrow> None
                   | Some (q, s2) \<Rightarrow> Some (kept @ q, s2)))"

definition raw_wake_up ::
  "('h, 'r, 'x) core_env \<Rightarrow> ('h, 'r, 'x, 'k) other_wake \<Rightarrow> wait_entry list \<Rightarrow> u64 \<Rightarrow> int \<Rightarrow> 'k \<Rightarrow> ('h, 'r, 'x) sched
     \<Rightarrow> (wait_entry list \<times> ('h, 'r, 'x) sched) option" where
  "raw_wake_up E F q mode nr_exclusive key s = wake_up_common E F q mode nr_exclusive 0 key s"

text \<open>A null key is an argument.\<close>

definition wake_up_locked ::
  "('h, 'r, 'x) core_env \<Rightarrow> ('h, 'r, 'x, 'k) other_wake \<Rightarrow> 'k \<Rightarrow> wait_entry list \<Rightarrow> u64 \<Rightarrow> int \<Rightarrow> ('h, 'r, 'x) sched
     \<Rightarrow> (wait_entry list \<times> ('h, 'r, 'x) sched) option" where
  "wake_up_locked E F null q mode nr s = wake_up_common E F q mode nr 0 null s"

definition wake_up_locked_key ::
  "('h, 'r, 'x) core_env \<Rightarrow> ('h, 'r, 'x, 'k) other_wake \<Rightarrow> wait_entry list \<Rightarrow> u64 \<Rightarrow> 'k \<Rightarrow> ('h, 'r, 'x) sched
     \<Rightarrow> (wait_entry list \<times> ('h, 'r, 'x) sched) option" where
  "wake_up_locked_key E F q mode key s = wake_up_common E F q mode 1 0 key s"

text \<open>The queue may be null.\<close>

definition wake_up_sync_key ::
  "('h, 'r, 'x) core_env \<Rightarrow> ('h, 'r, 'x, 'k) other_wake \<Rightarrow> wait_entry list option \<Rightarrow> u64 \<Rightarrow> int \<Rightarrow> 'k \<Rightarrow> ('h, 'r, 'x) sched
     \<Rightarrow> (wait_entry list option \<times> ('h, 'r, 'x) sched) option" where
  "wake_up_sync_key E F q mode nr_exclusive key s =
     (case q of
        None \<Rightarrow> Some (None, s)
      | Some ws \<Rightarrow>
          (let wake_flags = (if nr_exclusive = 0 then 0 else WF_SYNC)
           in do { (q1, s1) \<leftarrow> wake_up_common E F ws mode nr_exclusive wake_flags key s;
                   Some (Some q1, s1) }))"

definition wake_up_sync ::
  "('h, 'r, 'x) core_env \<Rightarrow> ('h, 'r, 'x, 'k) other_wake \<Rightarrow> 'k \<Rightarrow> wait_entry list option \<Rightarrow> u64 \<Rightarrow> int \<Rightarrow> ('h, 'r, 'x) sched
     \<Rightarrow> (wait_entry list option \<times> ('h, 'r, 'x) sched) option" where
  "wake_up_sync E F null q mode nr_exclusive s = wake_up_sync_key E F q mode nr_exclusive null s"

section \<open>Completions\<close>

record completion =
  cdone :: u32
  cwait :: "wait_entry list"

definition UINT_MAX :: u32 where "UINT_MAX = - 1"

definition complete ::
  "('h, 'r, 'x) core_env \<Rightarrow> ('h, 'r, 'x, 'k) other_wake \<Rightarrow> 'k \<Rightarrow> completion \<times> ('h, 'r, 'x) sched
     \<Rightarrow> (completion \<times> ('h, 'r, 'x) sched) option" where
  "complete E F null = (\<lambda>(x, s).
     do { (q, s1) \<leftarrow> wake_up_common E F (cwait x) TASK_NORMAL 1 0 null s;
          Some (\<lparr>cdone = cdone x + 1, cwait = q\<rparr>, s1) })"

definition complete_all ::
  "('h, 'r, 'x) core_env \<Rightarrow> ('h, 'r, 'x, 'k) other_wake \<Rightarrow> 'k \<Rightarrow> completion \<times> ('h, 'r, 'x) sched
     \<Rightarrow> (completion \<times> ('h, 'r, 'x) sched) option" where
  "complete_all E F null = (\<lambda>(x, s).
     do { (q, s1) \<leftarrow> wake_up_common E F (cwait x) TASK_NORMAL 0 0 null s;
          Some (\<lparr>cdone = cdone x + UINT_MAX div 2, cwait = q\<rparr>, s1) })"

text \<open>
  The loop of \<open>do_wait_for_common\<close> in the task \<open>cur\<close>.  It may wait forever: then it has no result.
\<close>

type_synonym ('h, 'r, 'x) sleep =
  "int \<Rightarrow> completion \<times> ('h, 'r, 'x) sched \<Rightarrow> (int \<times> completion \<times> ('h, 'r, 'x) sched) option"

partial_function (option) wait_loop ::
  "('h, 'r, 'x) sleep \<Rightarrow> nat \<Rightarrow> u64 \<Rightarrow> int \<Rightarrow> completion \<Rightarrow> ('h, 'r, 'x) sched
     \<Rightarrow> (int \<times> completion \<times> ('h, 'r, 'x) sched) option" where
  "wait_loop schedule_timeout cur st timeout x s =
     (if signal_pending_state st (task_of s cur) then Some (- ERESTARTSYS, x, s)
      else
        do { (t1, x1, s1) \<leftarrow> schedule_timeout timeout (x, upd_task cur (tstate_update (\<lambda>_. st)) s);
             if cdone x1 = 0 \<and> t1 \<noteq> 0 then wait_loop schedule_timeout cur st t1 x1 s1
             else Some (t1, x1, s1) })"

definition do_wait_for_common ::
  "('h, 'r, 'x) sleep \<Rightarrow> int \<Rightarrow> u64 \<Rightarrow> completion \<Rightarrow> ('h, 'r, 'x) sched
     \<Rightarrow> (int \<times> completion \<times> ('h, 'r, 'x) sched) option" where
  "do_wait_for_common schedule_timeout timeout st x s =
     (let cur = rq_curr s;
          w = \<lparr>wq_flags = WQ_FLAG_EXCLUSIVE, wq_private = cur, wq_func = Default_wake\<rparr>;
          finish = (\<lambda>t (y :: completion) u. Some (if t = 0 then 1 else t, y\<lparr>cdone := cdone y - 1\<rparr>, u))
      in if cdone x = 0 then
           do { (t1, x1, s1) \<leftarrow> wait_loop schedule_timeout cur st timeout (x\<lparr>cwait := cwait x @ [w]\<rparr>) s;
                let x2 = x1\<lparr>cwait := remove1 w (cwait x1)\<rparr>;
                if cdone x2 = 0 then Some (t1, x2, s1) else finish t1 x2 s1 }
         else finish timeout x s)"

definition wait_for_common ::
  "('h, 'r, 'x) sleep \<Rightarrow> int \<Rightarrow> u64 \<Rightarrow> completion \<Rightarrow> ('h, 'r, 'x) sched
     \<Rightarrow> (int \<times> completion \<times> ('h, 'r, 'x) sched) option" where
  "wait_for_common schedule_timeout timeout st x s = do_wait_for_common schedule_timeout timeout st x s"

definition wait_for_completion ::
  "('h, 'r, 'x) sleep \<Rightarrow> completion \<Rightarrow> ('h, 'r, 'x) sched \<Rightarrow> (completion \<times> ('h, 'r, 'x) sched) option" where
  "wait_for_completion schedule_timeout x s =
     map_option snd (wait_for_common schedule_timeout MAX_SCHEDULE_TIMEOUT TASK_UNINTERRUPTIBLE x s)"

text \<open>An unsigned timeout is passed on as a \<open>long\<close>.\<close>

definition wait_for_completion_timeout ::
  "('h, 'r, 'x) sleep \<Rightarrow> u64 \<Rightarrow> completion \<Rightarrow> ('h, 'r, 'x) sched \<Rightarrow> (int \<times> completion \<times> ('h, 'r, 'x) sched) option" where
  "wait_for_completion_timeout schedule_timeout timeout x s =
     wait_for_common schedule_timeout (sint timeout) TASK_UNINTERRUPTIBLE x s"

definition restart_or_zero :: "int \<times> 'w \<Rightarrow> int \<times> 'w" where
  "restart_or_zero = (\<lambda>(t, w). (if t = - ERESTARTSYS then t else 0, w))"

definition wait_for_completion_interruptible ::
  "('h, 'r, 'x) sleep \<Rightarrow> completion \<Rightarrow> ('h, 'r, 'x) sched \<Rightarrow> (int \<times> completion \<times> ('h, 'r, 'x) sched) option" where
  "wait_for_completion_interruptible schedule_timeout x s =
     map_option restart_or_zero (wait_for_common schedule_timeout MAX_SCHEDULE_TIMEOUT TASK_INTERRUPTIBLE x s)"

definition wait_for_completion_interruptible_timeout ::
  "('h, 'r, 'x) sleep \<Rightarrow> u64 \<Rightarrow> completion \<Rightarrow> ('h, 'r, 'x) sched \<Rightarrow> (int \<times> completion \<times> ('h, 'r, 'x) sched) option" where
  "wait_for_completion_interruptible_timeout schedule_timeout timeout x s =
     wait_for_common schedule_timeout (sint timeout) TASK_INTERRUPTIBLE x s"

definition wait_for_completion_killable ::
  "('h, 'r, 'x) sleep \<Rightarrow> completion \<Rightarrow> ('h, 'r, 'x) sched \<Rightarrow> (int \<times> completion \<times> ('h, 'r, 'x) sched) option" where
  "wait_for_completion_killable schedule_timeout x s =
     map_option restart_or_zero (wait_for_common schedule_timeout MAX_SCHEDULE_TIMEOUT TASK_KILLABLE x s)"

definition wait_for_completion_killable_timeout ::
  "('h, 'r, 'x) sleep \<Rightarrow> u64 \<Rightarrow> completion \<Rightarrow> ('h, 'r, 'x) sched \<Rightarrow> (int \<times> completion \<times> ('h, 'r, 'x) sched) option" where
  "wait_for_completion_killable_timeout schedule_timeout timeout x s =
     wait_for_common schedule_timeout (sint timeout) TASK_KILLABLE x s"

definition try_wait_for_completion :: "completion \<Rightarrow> bool \<times> completion" where
  "try_wait_for_completion x = (if cdone x = 0 then (False, x) else (True, x\<lparr>cdone := cdone x - 1\<rparr>))"

definition completion_done :: "completion \<Rightarrow> bool" where
  "completion_done x \<longleftrightarrow> (if cdone x = 0 then False else True)"

section \<open>Sleeping on a queue\<close>

text \<open>Others may change the queue while the task sleeps.\<close>

type_synonym ('h, 'r, 'x) sleep_on =
  "int \<Rightarrow> wait_entry list \<times> ('h, 'r, 'x) sched \<Rightarrow> (int \<times> wait_entry list \<times> ('h, 'r, 'x) sched) option"

definition sleep_on_common ::
  "('h, 'r, 'x) sleep_on \<Rightarrow> u64 \<Rightarrow> int \<Rightarrow> wait_entry list \<Rightarrow> ('h, 'r, 'x) sched
     \<Rightarrow> (int \<times> wait_entry list \<times> ('h, 'r, 'x) sched) option" where
  "sleep_on_common schedule_timeout st timeout q s =
     (let cur = rq_curr s;
          w = \<lparr>wq_flags = 0, wq_private = cur, wq_func = Default_wake\<rparr>
      in do { (t1, q1, s1) \<leftarrow> schedule_timeout timeout (w # q, upd_task cur (tstate_update (\<lambda>_. st)) s);
              Some (t1, remove1 w q1, s1) })"

definition interruptible_sleep_on ::
  "('h, 'r, 'x) sleep_on \<Rightarrow> wait_entry list \<Rightarrow> ('h, 'r, 'x) sched \<Rightarrow> (wait_entry list \<times> ('h, 'r, 'x) sched) option" where
  "interruptible_sleep_on schedule_timeout q s =
     map_option snd (sleep_on_common schedule_timeout TASK_INTERRUPTIBLE MAX_SCHEDULE_TIMEOUT q s)"

definition interruptible_sleep_on_timeout ::
  "('h, 'r, 'x) sleep_on \<Rightarrow> int \<Rightarrow> wait_entry list \<Rightarrow> ('h, 'r, 'x) sched \<Rightarrow> (int \<times> wait_entry list \<times> ('h, 'r, 'x) sched) option" where
  "interruptible_sleep_on_timeout schedule_timeout timeout q s =
     sleep_on_common schedule_timeout TASK_INTERRUPTIBLE timeout q s"

definition sleep_on ::
  "('h, 'r, 'x) sleep_on \<Rightarrow> wait_entry list \<Rightarrow> ('h, 'r, 'x) sched \<Rightarrow> (wait_entry list \<times> ('h, 'r, 'x) sched) option" where
  "sleep_on schedule_timeout q s =
     map_option snd (sleep_on_common schedule_timeout TASK_UNINTERRUPTIBLE MAX_SCHEDULE_TIMEOUT q s)"

definition sleep_on_timeout ::
  "('h, 'r, 'x) sleep_on \<Rightarrow> int \<Rightarrow> wait_entry list \<Rightarrow> ('h, 'r, 'x) sched \<Rightarrow> (int \<times> wait_entry list \<times> ('h, 'r, 'x) sched) option" where
  "sleep_on_timeout schedule_timeout timeout q s =
     sleep_on_common schedule_timeout TASK_UNINTERRUPTIBLE timeout q s"

end
