(* ===== verification/Sched_Wait_Props.thy ===== *)
theory Sched_Wait_Props
  imports Sched_Wait Sched_Core_Props
begin

text \<open>
  Properties of completions: which waiter is woken, what a wait returns and takes, and that the
  counter can overflow.
\<close>

section \<open>Waking\<close>

lemma not_sleeping_is_skipped:
  assumes "wq_func w = Default_wake" and "tstate (task_of s (wq_private w)) AND mode = 0"
  shows "call_func E F w mode flags key s = Some ((False, False), s)"
  using assms by (simp add: call_func_def default_wake_function_def try_to_wake_up_def)

lemma wake_up_common_skips:
  assumes "\<forall>v\<in>set vs. wq_func v = Default_wake \<and> tstate (task_of s (wq_private v)) AND mode = 0"
  shows "wake_up_common E F (vs @ ws) mode nr flags key s =
     map_option (\<lambda>(q, t). (vs @ q, t)) (wake_up_common E F ws mode nr flags key s)"
  using assms
proof (induction vs)
  case (Cons v vs)
  then show ?case
    by (simp add: not_sleeping_is_skipped Let_def case_prod_beta split: option.splits)
qed (simp add: option.map_id)

section \<open>Waiting\<close>

text \<open>Induction over the rounds of the loop.\<close>

lemma wait_loop_induct:
  assumes "wait_loop slp cur st timeout x s = Some r"
    and step: "\<And>wl timeout x s r. (\<And>t1 x1 s1 r. wl t1 x1 s1 = Some r \<Longrightarrow> P t1 x1 s1 r) \<Longrightarrow>
      (if signal_pending_state st (task_of s cur) then Some (- ERESTARTSYS, x, s)
      else
        do { (t1, x1, s1) \<leftarrow> slp timeout (x, upd_task cur (tstate_update (\<lambda>_. st)) s);
             if cdone x1 = 0 \<and> t1 \<noteq> 0 then wl t1 x1 s1
             else Some (t1, x1, s1) }) = Some r \<Longrightarrow> P timeout x s r"
  shows "P timeout x s r"
proof -
  have "\<forall>timeout x s r. wait_loop slp cur st timeout x s = Some r \<longrightarrow> P timeout x s r"
  proof (induction rule: wait_loop.fixp_induct)
    case 1
    have "(\<lambda>wl. \<forall>timeout x s r. curry (curry (curry (curry (curry wl)))) slp cur st timeout x s = Some r \<longrightarrow> P timeout x s r)
      = (\<lambda>wl. \<forall>a r. wl a = Some r \<longrightarrow> (case a of (((((slp', cur'), st'), t), x), s) \<Rightarrow> slp' = slp \<and> cur' = cur \<and> st' = st \<longrightarrow> P t x s r))"
      by (rule ext) auto
    then show ?case by (simp only: option_admissible)
  next
    case 2
    show ?case by simp
  next
    case (3 wl)
    then show ?case using step [of "wl slp cur st"] by blast
  qed
  with assms(1) show ?thesis by blast
qed

text \<open>The loop ends in a state that a sleep returned, or where it started because of a signal.\<close>

lemma wait_loop_end:
  assumes "wait_loop slp cur st timeout x s = Some (t, y, u)" and "cdone x = 0"
  shows "(y = x \<and> t = - ERESTARTSYS) \<or> (\<exists>t0 w t1 v. slp t0 w = Some (t1, y, v) \<and> (t = t1 \<and> (cdone y \<noteq> 0 \<or> t = 0) \<or> cdone y = 0 \<and> t = - ERESTARTSYS))"
proof -
  let ?Q = "\<lambda>(x :: completion) r. cdone x = 0 \<longrightarrow> (case r of (t, y, u) \<Rightarrow> (y = x \<and> t = - ERESTARTSYS)
      \<or> (\<exists>t0 w t1 v. slp t0 w = Some (t1, y, v) \<and> (t = t1 \<and> (cdone y \<noteq> 0 \<or> t = 0) \<or> cdone y = 0 \<and> t = - ERESTARTSYS)))"
  have "?Q x (t, y, u)"
  proof (rule wait_loop_induct [OF assms(1), where P = "\<lambda>_ x _ r. ?Q x r"])
    fix wl timeout x s r
    assume IH: "\<And>t1 x1 s1 r. wl t1 x1 s1 = Some r \<Longrightarrow> ?Q x1 r"
      and b: "(if signal_pending_state st (task_of s cur) then Some (- ERESTARTSYS, x, s)
        else do { (t1, x1, s1) \<leftarrow> slp timeout (x, upd_task cur (tstate_update (\<lambda>_. st)) s);
             if cdone x1 = 0 \<and> t1 \<noteq> 0 then wl t1 x1 s1 else Some (t1, x1, s1) }) = Some r"
    show "?Q x r"
    proof (cases "signal_pending_state st (task_of s cur)")
      case False
      then obtain t1 x1 s1 where s1: "slp timeout (x, upd_task cur (tstate_update (\<lambda>_. st)) s) = Some (t1, x1, s1)"
          "(if cdone x1 = 0 \<and> t1 \<noteq> 0 then wl t1 x1 s1 else Some (t1, x1, s1)) = Some r"
        using b by (auto split: bind_splits)
      then show ?thesis
      proof (cases "cdone x1 = 0 \<and> t1 \<noteq> 0")
        case True
        then have "wl t1 x1 s1 = Some r" using s1(2) by simp
        from IH [OF this] True s1(1) show ?thesis by (cases r) auto
      next
        case False
        then have "r = (t1, x1, s1)" "cdone x1 \<noteq> 0 \<or> t1 = 0" using s1(2) by (simp_all split: if_splits)
        with s1(1) show ?thesis by simp blast
      qed
    qed (use b in auto)
  qed
  with assms(2) show ?thesis by simp
qed

text \<open>What a wait returns in terms of the completion as it was when the wait went on.\<close>

definition wait_outcome :: "completion \<Rightarrow> int \<Rightarrow> completion \<Rightarrow> bool" where
  "wait_outcome y ret x' \<longleftrightarrow>
     (if cdone y = 0 then (ret = 0 \<or> ret = - ERESTARTSYS) \<and> cdone x' = 0
      else 0 < ret \<and> cdone x' = cdone y - 1)"

text \<open>A sleep that uses up some of the time whenever the completion is still pending lets the loop end.\<close>

lemma wait_loop_returns:
  assumes "\<forall>t w. 0 \<le> t \<longrightarrow> (\<exists>t1 y v. slp t w = Some (t1, y, v) \<and> 0 \<le> t1 \<and> (cdone y \<noteq> 0 \<or> t1 < t \<or> t1 = 0))"
    and "0 \<le> timeout"
  shows "\<exists>r. wait_loop slp cur st timeout x s = Some r"
  using assms(2)
proof (induction "nat timeout" arbitrary: timeout x s rule: less_induct)
  case less
  obtain t1 y v where s: "slp timeout (x, upd_task cur (tstate_update (\<lambda>_. st)) s) = Some (t1, y, v)" "0 \<le> t1"
      "cdone y \<noteq> 0 \<or> t1 < timeout \<or> t1 = 0"
    using assms(1) less.prems by blast
  show ?case
  proof (cases "cdone y = 0 \<and> t1 \<noteq> 0")
    case True
    then have "\<exists>r. wait_loop slp cur st t1 y v = Some r" using s(2,3) by (intro less.hyps) auto
    then show ?thesis using s(1) True by (subst wait_loop.simps) auto
  next
    case False
    then show ?thesis using s(1) by (subst wait_loop.simps) auto
  qed
qed

lemma wait_for_common_outcome:
  assumes "0 \<le> timeout" and "\<forall>t w t1 y v. slp t w = Some (t1, y, v) \<longrightarrow> 0 \<le> t1"
    and "wait_for_common slp timeout st x s = Some (ret, x', u)"
  shows "\<exists>y. (y = x \<or> (\<exists>t w t1 v. slp t w = Some (t1, y, v))) \<and> wait_outcome y ret x'"
proof (cases "cdone x = 0")
  case False
  then have "wait_outcome x (if timeout = 0 then 1 else timeout) (x\<lparr>cdone := cdone x - 1\<rparr>)"
    using assms(1) by (simp add: wait_outcome_def)
  with False assms(3) show ?thesis by (auto simp: wait_for_common_def do_wait_for_common_def Let_def)
next
  case True
  let ?x = "x\<lparr>cwait := cwait x @ [\<lparr>wq_flags = WQ_FLAG_EXCLUSIVE, wq_private = rq_curr s, wq_func = Default_wake\<rparr>]\<rparr>"
  from assms(3) True obtain t y v where l: "wait_loop slp (rq_curr s) st timeout ?x s = Some (t, y, v)"
      and r: "cdone y = 0 \<and> ret = t \<and> cdone x' = 0 \<or>
         cdone y \<noteq> 0 \<and> ret = (if t = 0 then 1 else t) \<and> cdone x' = cdone y - 1"
    by (auto simp: wait_for_common_def do_wait_for_common_def Let_def split: bind_splits if_splits)
  have "cdone ?x = 0" using True by simp
  from wait_loop_end [OF l this]
  consider "y = ?x" "t = - ERESTARTSYS"
    | t0 w t1 v where "slp t0 w = Some (t1, y, v)" "t = t1 \<and> (cdone y \<noteq> 0 \<or> t = 0) \<or> cdone y = 0 \<and> t = - ERESTARTSYS"
    by blast
  then show ?thesis
  proof cases
    case 1
    then have "wait_outcome x ret x'" using r True by (simp add: wait_outcome_def)
    then show ?thesis by blast
  next
    case (2 t0 w t1 v)
    moreover have "0 \<le> t1" using assms(2) 2(1) by blast
    ultimately have "wait_outcome y ret x'" using r by (auto simp: wait_outcome_def split: if_splits)
    with 2(1) show ?thesis by blast
  qed
qed

lemma wait_for_common_returns:
  assumes "0 \<le> timeout" and "\<forall>t w t1 y v. slp t w = Some (t1, y, v) \<longrightarrow> 0 \<le> t1"
    and "\<forall>t w. 0 \<le> t \<longrightarrow> (\<exists>t1 y v. slp t w = Some (t1, y, v) \<and> (cdone y \<noteq> 0 \<or> t1 < t \<or> t1 = 0))"
  shows "\<exists>r. wait_for_common slp timeout st x s = Some r"
proof -
  have "\<exists>r. wait_loop slp c st timeout z s = Some r" for c z
    using assms by (intro wait_loop_returns) blast+
  then obtain r where "wait_loop slp (rq_curr s) st timeout
      (x\<lparr>cwait := cwait x @ [\<lparr>wq_flags = WQ_FLAG_EXCLUSIVE, wq_private = rq_curr s, wq_func = Default_wake\<rparr>]\<rparr>) s = Some r"
    by blast
  then show ?thesis by (cases r) (simp add: wait_for_common_def do_wait_for_common_def Let_def)
qed

section \<open>Properties\<close>

text \<open>C29: First come, first served.  \<open>complete\<close> wakes exactly one waiter: the first in the queue that is
  sleeping.  Waiters before it that are already awake and all that come after it are left alone.\<close>

theorem complete_wakes_first_sleeper:
  assumes "cwait x = vs @ w # ws"
    and "\<forall>v\<in>set vs. wq_func v = Default_wake \<and> tstate (task_of s (wq_private v)) AND TASK_NORMAL = 0"
    and "wq_func w = Default_wake" and "wq_flags w AND WQ_FLAG_EXCLUSIVE \<noteq> 0"
    and "wake_up_process E (wq_private w) s = Some (True, t)"
  shows "complete E F null (x, s) = Some (x\<lparr>cdone := cdone x + 1\<rparr>, t)"
proof -
  have "call_func E F w TASK_NORMAL 0 null s = Some ((True, False), t)"
    using assms(3,5) by (simp add: call_func_def default_wake_function_def wake_up_process_def)
  then have "wake_up_common E F (w # ws) TASK_NORMAL 1 0 null s = Some (w # ws, t)"
    using assms(4) by (simp add: Let_def)
  then show ?thesis
    using wake_up_common_skips [OF assms(2), of E F "w # ws" 1 0 null] assms(1)
    by (simp add: complete_def del: wake_up_common.simps)
qed

text \<open>Task 7 sleeps; task 1 runs.\<close>

definition sample_sleeping :: "(nat \<Rightarrow> nat list, nat tree, unit) sched" where
  "sample_sleeping = upd_task 7 (\<lambda>t. t\<lparr>tstate := TASK_INTERRUPTIBLE, on_rq := False\<rparr>) sample_sched"

definition sample_waiter :: "nat \<Rightarrow> wait_entry" where
  "sample_waiter p = \<lparr>wq_flags = WQ_FLAG_EXCLUSIVE, wq_private = p, wq_func = Default_wake\<rparr>"

lemma sample_wakes: "\<exists>t. wake_up_process sample_core 7 sample_sleeping = Some (True, t)"
  by (simp add: wake_up_process_def try_to_wake_up_def sample_sleeping_def TASK_INTERRUPTIBLE_def TASK_NORMAL_def
      TASK_UNINTERRUPTIBLE_def ttwu_queue_def ttwu_do_activate_def ttwu_activate_def activate_task_def
      task_contributes_to_load_def enqueue_task_def class_table_def dummy_sched_class_def enqueue_task_dummy_def
      enqueue_dummy_entity_def queue_index_def sample_task_def sample_prio_def DUMMY_PRIORITY_MIN_def DUMMY_QUEUE_SIZE_def
      inc_nr_running_def ttwu_do_wakeup_def check_preempt_curr_def check_preempt_of_def check_preempt_curr_dummy_def Let_def)

theorem complete_wakes_first_sleeper_witness:
  "\<exists>t. complete sample_core (\<lambda>_ _ _ _ _ _. None) () (\<lparr>cdone = 0, cwait = [sample_waiter 1, sample_waiter 7, sample_waiter 3]\<rparr>, sample_sleeping)
     = Some (\<lparr>cdone = 1, cwait = [sample_waiter 1, sample_waiter 7, sample_waiter 3]\<rparr>, t)"
proof -
  obtain t where "wake_up_process sample_core 7 sample_sleeping = Some (True, t)" using sample_wakes by blast
  then show ?thesis
    using complete_wakes_first_sleeper [of "\<lparr>cdone = 0, cwait = [sample_waiter 1, sample_waiter 7, sample_waiter 3]\<rparr>"
        "[sample_waiter 1]" "sample_waiter 7" "[sample_waiter 3]" sample_sleeping sample_core t "\<lambda>_ _ _ _ _ _. None" "()"]
    by (simp add: sample_waiter_def sample_sleeping_def sample_task_def WQ_FLAG_EXCLUSIVE_def)
qed

text \<open>C30: A wait takes exactly one completion or none.  When the completion was done as the wait started or as a
  sleep returned, the result is positive and the counter is one less; otherwise the result is 0 for a timeout or
  \<open>-ERESTARTSYS\<close> for a signal, and the counter stays 0.  When every sleep ends and uses up time unless the
  completion is done, the wait ends.\<close>

theorem wait_takes_one_or_none:
  assumes "0 \<le> timeout"
    and "\<forall>t w t1 y v. slp t w = Some (t1, y, v) \<longrightarrow> 0 \<le> t1"
  shows "(wait_for_common slp timeout st x s = Some (ret, x', u) \<longrightarrow>
      (\<exists>y. (y = x \<or> (\<exists>t w t1 v. slp t w = Some (t1, y, v))) \<and> wait_outcome y ret x'))
    \<and> ((\<forall>t w. 0 \<le> t \<longrightarrow> (\<exists>t1 y v. slp t w = Some (t1, y, v) \<and> (cdone y \<noteq> 0 \<or> t1 < t \<or> t1 = 0))) \<longrightarrow>
      (\<exists>r. wait_for_common slp timeout st x s = Some r))"
  using wait_for_common_outcome [OF assms] wait_for_common_returns [OF assms] by blast

text \<open>A sleep of one tick after which nothing is done.\<close>

definition tick_sleep :: "int \<Rightarrow> completion \<times> 's \<Rightarrow> (int \<times> completion \<times> 's) option" where
  "tick_sleep t = (\<lambda>(y, v). Some (max 0 (t - 1), y, v))"

lemma tick_sleep_laws:
  shows "\<forall>t w t1 y v. tick_sleep t w = Some (t1, y, v) \<longrightarrow> 0 \<le> t1"
    and "\<forall>t w. 0 \<le> t \<longrightarrow> (\<exists>t1 y v. tick_sleep t w = Some (t1, y, v) \<and> (cdone y \<noteq> 0 \<or> t1 < t \<or> t1 = 0))"
  by (auto simp: tick_sleep_def)

theorem wait_takes_one_or_none_witness:
  "(\<exists>r. wait_for_common tick_sleep 10 TASK_UNINTERRUPTIBLE \<lparr>cdone = 0, cwait = []\<rparr> sample_sched = Some r)
   \<and> (\<exists>y. wait_outcome y 10 \<lparr>cdone = 1, cwait = []\<rparr>)"
proof -
  have "wait_for_common tick_sleep 10 TASK_UNINTERRUPTIBLE \<lparr>cdone = 2, cwait = []\<rparr> sample_sched
      = Some (10, \<lparr>cdone = 1, cwait = []\<rparr>, sample_sched)"
    by (simp add: wait_for_common_def do_wait_for_common_def)
  then have "\<exists>y. wait_outcome y 10 \<lparr>cdone = 1, cwait = []\<rparr>"
    using conjunct1 [OF wait_takes_one_or_none [of 10 tick_sleep TASK_UNINTERRUPTIBLE "\<lparr>cdone = 2, cwait = []\<rparr>" sample_sched
        10 "\<lparr>cdone = 1, cwait = []\<rparr>" sample_sched]] tick_sleep_laws(1) by auto
  moreover have "\<exists>r. wait_for_common tick_sleep 10 TASK_UNINTERRUPTIBLE \<lparr>cdone = 0, cwait = []\<rparr> sample_sched = Some r"
    by (rule mp [OF conjunct2 [OF wait_takes_one_or_none] tick_sleep_laws(2)]) (simp, rule tick_sleep_laws(1))
  ultimately show ?thesis by blast
qed

text \<open>The counter of a completion wraps.  Two calls of \<open>complete_all\<close> and two of \<open>complete\<close> on a fresh
  completion bring it back to 0: \<open>completion_done\<close> denies that anything happened, and
  \<open>try_wait_for_completion\<close> fails.\<close>

theorem completed_too_often_is_pending:
  "do { a \<leftarrow> complete_all E F null (\<lparr>cdone = 0, cwait = []\<rparr>, s);
        b \<leftarrow> complete_all E F null a;
        c \<leftarrow> complete E F null b;
        d \<leftarrow> complete E F null c;
        Some (completion_done (fst d), fst (try_wait_for_completion (fst d))) } = Some (False, False)"
  by (simp add: complete_all_def complete_def UINT_MAX_def completion_done_def try_wait_for_completion_def)

end
