(* ===== verification/Sched_Tree.thy ===== *)
theory Sched_Tree
  imports Os_Prelude
begin

text \<open>
  The walk over the tree of task groups, \<open>walk_tg_tree_from\<close> of \<open>kernel/sched/core.c\<close>, which jumps between its
  loop and its two visitors instead of recursing, and its equivalence with the recursive traversal.
\<close>

section \<open>The walk as written\<close>

text \<open>A visitor gets a node and the state; a result other than 0 ends the walk.\<close>

type_synonym 's visitor = "nat \<Rightarrow> 's \<Rightarrow> int \<times> 's"

fun after :: "'a \<Rightarrow> 'a list \<Rightarrow> 'a option" where
  "after c [] = None"
| "after c (x # xs) = (if x = c then (case xs of [] \<Rightarrow> None | y # _ \<Rightarrow> Some y) else after c xs)"

definition first :: "'a list \<Rightarrow> 'a option" where
  "first xs = (case xs of [] \<Rightarrow> None | x # _ \<Rightarrow> Some x)"

text \<open>Where the walk is: at the label \<open>down\<close>, or at the test of the loop with the next child, if any.\<close>

datatype walk_pc = Down nat | Each nat "nat option"

partial_function (option) walk_loop ::
  "('s \<Rightarrow> nat \<Rightarrow> nat list) \<Rightarrow> ('s \<Rightarrow> nat \<Rightarrow> nat option) \<Rightarrow> nat \<Rightarrow> 's visitor \<Rightarrow> 's visitor \<Rightarrow> walk_pc \<Rightarrow> 's \<Rightarrow> (int \<times> 's) option" where
  "walk_loop children parent from down up pc s =
     (case pc of
        Down p \<Rightarrow>
          (case down p s of
             (ret, s1) \<Rightarrow>
               if ret \<noteq> 0 then Some (ret, s1)
               else walk_loop children parent from down up (Each p (first (children s1 p))) s1)
      | Each p (Some c) \<Rightarrow> walk_loop children parent from down up (Down c) s
      | Each p None \<Rightarrow>
          (case up p s of
             (ret, s1) \<Rightarrow>
               if ret \<noteq> 0 \<or> p = from then Some (ret, s1)
               else (case parent s1 p of
                       None \<Rightarrow> Some (ret, s1)
                     | Some q \<Rightarrow> walk_loop children parent from down up (Each q (after p (children s1 q))) s1)))"

definition walk_tg_tree_from ::
  "('s \<Rightarrow> nat \<Rightarrow> nat list) \<Rightarrow> ('s \<Rightarrow> nat \<Rightarrow> nat option) \<Rightarrow> nat \<Rightarrow> 's visitor \<Rightarrow> 's visitor \<Rightarrow> 's \<Rightarrow> (int \<times> 's) option" where
  "walk_tg_tree_from children parent from down up s = walk_loop children parent from down up (Down from) s"

definition tg_nop :: "'s visitor" where
  "tg_nop tg s = (0, s)"

section \<open>The recursive traversal\<close>

datatype group_tree = Group (root: nat) (subgroups: "group_tree list")

fun nodes :: "group_tree \<Rightarrow> nat list" and nodes_list :: "group_tree list \<Rightarrow> nat list" where
  "nodes (Group g ts) = g # nodes_list ts"
| "nodes_list [] = []"
| "nodes_list (t # ts) = nodes t @ nodes_list ts"

fun traverse :: "'s visitor \<Rightarrow> 's visitor \<Rightarrow> group_tree \<Rightarrow> 's \<Rightarrow> int \<times> 's"
  and traverse_list :: "'s visitor \<Rightarrow> 's visitor \<Rightarrow> group_tree list \<Rightarrow> 's \<Rightarrow> int \<times> 's" where
  "traverse down up (Group g ts) s =
     (case down g s of
        (ret, s1) \<Rightarrow>
          if ret \<noteq> 0 then (ret, s1)
          else case traverse_list down up ts s1 of
            (ret, s2) \<Rightarrow> if ret \<noteq> 0 then (ret, s2) else up g s2)"
| "traverse_list down up [] s = (0, s)"
| "traverse_list down up (t # ts) s =
     (case traverse down up t s of
        (ret, s1) \<Rightarrow> if ret \<noteq> 0 then (ret, s1) else traverse_list down up ts s1)"

text \<open>The links of a state describe a tree.\<close>

fun linked :: "(nat \<Rightarrow> nat list) \<Rightarrow> (nat \<Rightarrow> nat option) \<Rightarrow> group_tree \<Rightarrow> bool"
  and linked_list :: "(nat \<Rightarrow> nat list) \<Rightarrow> (nat \<Rightarrow> nat option) \<Rightarrow> nat \<Rightarrow> group_tree list \<Rightarrow> bool" where
  "linked ch pa (Group g ts) \<longleftrightarrow> ch g = map root ts \<and> linked_list ch pa g ts"
| "linked_list ch pa g [] \<longleftrightarrow> True"
| "linked_list ch pa g (t # ts) \<longleftrightarrow> pa (root t) = Some g \<and> linked ch pa t \<and> linked_list ch pa g ts"

lemma root_in_nodes [simp]: "root t \<in> set (nodes t)"
  by (cases t) simp

lemma set_nodes_list: "set (nodes_list ts) = (\<Union>t\<in>set ts. set (nodes t))"
  by (induction ts) auto

lemma distinct_roots: "distinct (nodes_list ts) \<Longrightarrow> distinct (map root ts)"
proof (induction ts)
  case (Cons t ts)
  have "root u \<noteq> root t" if "u \<in> set ts" for u
  proof -
    have "set (nodes t) \<inter> set (nodes u) = {}" using Cons.prems that by (auto simp: set_nodes_list)
    then show ?thesis using root_in_nodes [of t] root_in_nodes [of u] by force
  qed
  then have "root t \<notin> root ` set ts" by (metis imageE)
  then show ?case using Cons by simp
qed simp

lemma after_next:
  assumes "distinct (xs @ x # ys)"
  shows "after x (xs @ x # ys) = first ys"
  using assms by (induction xs) (auto simp: first_def split: list.splits)

section \<open>What the visitors keep, the walk keeps\<close>

lemma walk_loop_keeps:
  fixes v :: "'s \<Rightarrow> 'v"
  assumes "walk_loop children parent from down up pc s = Some (r, t)"
    and down: "\<And>g s. v (snd (down g s)) = v s" and up: "\<And>g s. v (snd (up g s)) = v s"
  shows "v t = v s"
proof -
  have "\<forall>pc s r. walk_loop children parent from down up pc s = Some r \<longrightarrow> v (snd r) = v s"
  proof (induction rule: walk_loop.fixp_induct)
    case 1
    have "(\<lambda>wl. \<forall>(pc :: walk_pc) s (r :: int \<times> 's). curry (curry (curry (curry (curry (curry wl))))) children parent from down up pc s = Some r \<longrightarrow> v (snd r) = v s)
      = (\<lambda>wl. \<forall>a r. wl a = Some r \<longrightarrow> (case a of ((((((c, p), f), d), u), pc), s) \<Rightarrow>
            c = children \<and> p = parent \<and> f = from \<and> d = down \<and> u = up \<longrightarrow> v (snd r) = v s))"
      by (rule ext) auto
    then show ?case by (simp only: option_admissible)
  next
    case 2
    show ?case by simp
  next
    case (3 wl)
    have ih: "v (snd r) = v s" if "wl children parent from down up pc s = Some r" for pc s r
      using 3 that by blast
    have d: "v s1 = v s" if "down g s = (ret, s1)" for g s s1 ret using down [of g s] that by simp
    have u: "v s1 = v s" if "up g s = (ret, s1)" for g s s1 ret using up [of g s] that by simp
    show ?case
      by (auto split: walk_pc.splits option.splits if_splits prod.splits dest!: ih d u)
  qed
  with assms(1) show ?thesis by fastforce
qed

lemma traverse_keeps:
  fixes v :: "'s \<Rightarrow> 'v"
  assumes down: "\<And>g s. v (snd (down g s)) = v s" and up: "\<And>g s. v (snd (up g s)) = v s"
  shows "v (snd (traverse down up t s)) = v s" "v (snd (traverse_list down up ts s)) = v s"
proof (induction t and ts arbitrary: s and s rule: nodes_nodes_list.induct)
  case (1 g ts)
  then show ?case using down [of g s] up by (auto simp: case_prod_beta)
qed (auto simp: case_prod_beta)

lemma traverse_nop:
  "traverse down tg_nop (Group g ts) s =
     (if fst (down g s) \<noteq> 0 then down g s else traverse_list down tg_nop ts (snd (down g s)))"
  by (cases "traverse_list down tg_nop ts (snd (down g s))") (simp add: case_prod_beta tg_nop_def [of g])

text \<open>A visitor that only looks: the traversal succeeds when it succeeds everywhere.\<close>

lemma traverse_looks:
  assumes "\<And>g s. snd (f g s) = s"
  shows "snd (traverse f tg_nop t s) = s \<and> (fst (traverse f tg_nop t s) = 0 \<longleftrightarrow> (\<forall>g\<in>set (nodes t). fst (f g s) = 0))
      \<and> fst (traverse f tg_nop t s) \<in> insert 0 ((\<lambda>g. fst (f g s)) ` set (nodes t))"
    "snd (traverse_list f tg_nop ts s) = s \<and> (fst (traverse_list f tg_nop ts s) = 0 \<longleftrightarrow> (\<forall>g\<in>set (nodes_list ts). fst (f g s) = 0))
      \<and> fst (traverse_list f tg_nop ts s) \<in> insert 0 ((\<lambda>g. fst (f g s)) ` set (nodes_list ts))"
proof (induction t and ts rule: nodes_nodes_list.induct)
  case (1 g ts)
  then show ?case using assms [of g s] by (auto simp: case_prod_beta tg_nop_def)
next
  case (3 t ts)
  then show ?case by (auto simp: case_prod_beta)
qed simp

section \<open>Equivalence\<close>

text \<open>Visitors that leave the links alone.\<close>

locale walk =
  fixes children :: "'s \<Rightarrow> nat \<Rightarrow> nat list" and parent :: "'s \<Rightarrow> nat \<Rightarrow> nat option"
    and down up :: "'s visitor"
  assumes down_links: "children (snd (down g s)) = children s" "parent (snd (down g s)) = parent s"
    and up_links: "children (snd (up g s)) = children s" "parent (snd (up g s)) = parent s"
begin

lemma traverse_links:
  "children (snd (traverse down up t s)) = children s \<and> parent (snd (traverse down up t s)) = parent s"
  "children (snd (traverse_list down up ts s)) = children s \<and> parent (snd (traverse_list down up ts s)) = parent s"
proof (induction t and ts arbitrary: s and s rule: nodes_nodes_list.induct)
  case (1 g ts)
  show ?case
    using 1 down_links [of g s] up_links by (auto simp: case_prod_beta split: prod.splits)
qed (auto simp: case_prod_beta)

text \<open>After a subtree the walk is at the next sibling, or at its end.\<close>

definition rest_of_walk :: "nat \<Rightarrow> nat \<Rightarrow> int \<times> 's \<Rightarrow> (int \<times> 's) option" where
  "rest_of_walk from g r =
     (if fst r \<noteq> 0 \<or> g = from then Some r
      else case parent (snd r) g of
        None \<Rightarrow> Some r
      | Some q \<Rightarrow> walk_loop children parent from down up (Each q (after g (children (snd r) q))) (snd r))"

lemma walk_loop_leave:
  "walk_loop children parent from down up (Each g None) s = rest_of_walk from g (up g s)"
  by (subst walk_loop.simps) (cases "up g s"; auto simp: rest_of_walk_def split: option.splits)

lemma walk_loop_traverse:
  "linked (children s) (parent s) t \<Longrightarrow> distinct (nodes t) \<Longrightarrow> from \<notin> set (nodes_list (subgroups t)) \<Longrightarrow>
     walk_loop children parent from down up (Down (root t)) s = rest_of_walk from (root t) (traverse down up t s)"
  "linked_list (children s) (parent s) g ts \<Longrightarrow> children s g = pre @ map root ts \<Longrightarrow> distinct (children s g) \<Longrightarrow>
     distinct (nodes_list ts) \<Longrightarrow> from \<notin> set (nodes_list ts) \<Longrightarrow>
     walk_loop children parent from down up (Each g (first (map root ts))) s =
       (case traverse_list down up ts s of
          (ret, s1) \<Rightarrow> if ret \<noteq> 0 then Some (ret, s1)
                       else walk_loop children parent from down up (Each g None) s1)"
proof (induction t and ts arbitrary: s and g s pre rule: nodes_nodes_list.induct)
  case (1 g ts)
  obtain ret s1 where d: "down g s = (ret, s1)" by force
  have l: "children s1 = children s" "parent s1 = parent s" using down_links [of g s] d by simp_all
  show ?case
  proof (cases "ret = 0")
    case False
    then show ?thesis by (subst walk_loop.simps) (simp add: d rest_of_walk_def)
  next
    case True
    have "distinct (map root ts)" using 1(3) by (simp add: distinct_roots)
    then have "walk_loop children parent from down up (Each g (first (map root ts))) s1 =
       (case traverse_list down up ts s1 of
          (ret, s2) \<Rightarrow> if ret \<noteq> 0 then Some (ret, s2)
                       else walk_loop children parent from down up (Each g None) s2)"
      using 1(2-4) l by (intro 1(1) [where pre = "[]" and g = g]) auto
    moreover have "walk_loop children parent from down up (Down g) s =
        walk_loop children parent from down up (Each g (first (map root ts))) s1"
      using 1(2) l by (subst walk_loop.simps) (simp add: d True)
    ultimately show ?thesis
      by (simp add: d True walk_loop_leave case_prod_beta) (simp add: rest_of_walk_def)
  qed
next
  case 2
  then show ?case by (simp add: first_def)
next
  case (3 t ts)
  obtain ret s1 where d: "traverse down up t s = (ret, s1)" by force
  have l: "children s1 = children s" "parent s1 = parent s" using traverse_links(1) [of t s] d by simp_all
  have f: "root t \<noteq> from" using 3(7) root_in_nodes [of t] by auto
  have "walk_loop children parent from down up (Each g (first (map root (t # ts)))) s =
      walk_loop children parent from down up (Down (root t)) s"
    by (subst walk_loop.simps) (simp add: first_def)
  also have "\<dots> = rest_of_walk from (root t) (ret, s1)"
  proof -
    have "from \<notin> set (nodes_list (subgroups t))" using 3(7) by (cases t) auto
    then show ?thesis using 3(1) [of s] 3(3,6) d by simp
  qed
  finally have w: "walk_loop children parent from down up (Each g (first (map root (t # ts)))) s =
      rest_of_walk from (root t) (ret, s1)" .
  show ?case
  proof (cases "ret = 0")
    case False
    then show ?thesis using w d by (simp add: rest_of_walk_def)
  next
    case True
    have "after (root t) (children s g) = first (map root ts)"
      using 3(4,5) after_next [of pre "root t" "map root ts"] by simp
    then have "rest_of_walk from (root t) (ret, s1) =
        walk_loop children parent from down up (Each g (first (map root ts))) s1"
      using 3(3) f True l by (simp add: rest_of_walk_def)
    then show ?thesis
      using 3(2) [of s1 g "pre @ [root t]"] 3(3-7) w d True l by simp
  qed
qed

lemma walk_eq_traverse:
  assumes "linked (children s) (parent s) t" and "distinct (nodes t)"
  shows "walk_tg_tree_from children parent (root t) down up s = Some (traverse down up t s)"
proof -
  have "root t \<notin> set (nodes_list (subgroups t))" using assms(2) by (cases t) simp
  then show ?thesis
    using walk_loop_traverse(1) [OF assms] by (simp add: walk_tg_tree_from_def rest_of_walk_def)
qed

end

end
