(* ===== verification/Sched_Group.thy ===== *)
theory Sched_Group
  imports Sched_Weight Sched_Tree
begin

text \<open>
  The state of group scheduling (\<open>CONFIG_FAIR_GROUP_SCHED\<close>, \<open>CONFIG_SMP\<close>, \<open>CONFIG_CFS_BANDWIDTH\<close>) in
  \<open>kernel/sched/sched.h\<close> and the helpers of \<open>kernel/sched/fair.c\<close> that walk it.  A task group has one run queue
  and one scheduling entity per processor; the entity of a group owns the group's run queue (\<open>my_q\<close>) and is
  itself queued in the run queue of the parent group.  Pointers are numbers into the stores of \<open>grp\<close>; the
  timeline of each run queue and the state outside are the field \<open>elsewhere\<close>.  Entity numbers cover tasks and
  groups alike.
\<close>

section \<open>State\<close>

record sched_avg =
  runnable_avg_sum :: u32
  runnable_avg_period :: u32
  last_runnable_update :: u64
  decay_count :: u64
  load_avg_contrib :: u64

record gent =
  e_load :: load_weight
  e_on_rq :: bool
  e_vruntime :: u64
  e_avg :: sched_avg
  e_parent :: "nat option"
  e_cfs_rq :: nat
  e_my_q :: "nat option"

record gcfs =
  g_load :: load_weight
  g_nr_running :: u32
  g_h_nr_running :: u32
  g_min_vruntime :: u64
  g_curr :: "nat option"
  runnable_load_avg :: u64
  blocked_load_avg :: u64
  decay_counter :: u64
  removed_load :: u64
  last_decay :: u64
  tg_runnable_contrib :: u32
  tg_load_contrib :: u64
  h_load :: u64
  g_rq :: nat
  on_list :: bool
  g_tg :: nat
  runtime_enabled :: bool
  runtime_expires :: u64
  runtime_remaining :: u64
  throttled_clock :: u64
  throttled_clock_task :: u64
  throttled_clock_task_time :: u64
  throttled :: bool
  throttle_count :: u32

record cfs_bandwidth =
  b_period :: u64
  quota :: u64
  b_runtime :: u64
  hierarchal_quota :: u64
  b_runtime_expires :: u64
  b_idle :: bool
  timer_active :: bool
  throttled_cfs_rq :: "nat list"
  nr_periods :: u32
  nr_throttled :: u32
  throttled_time :: u64

record rt_bandwidth =
  rt_period :: u64
  rt_runtime :: u64

record tgroup =
  t_se :: "nat \<Rightarrow> nat option"
  t_cfs_rq :: "nat \<Rightarrow> nat"
  shares :: u64
  t_load_avg :: u64
  t_runnable_avg :: u32
  t_rt_bandwidth :: rt_bandwidth
  t_rt_rq :: "nat \<Rightarrow> u64"
  t_parent :: "nat option"
  t_children :: "nat list"
  t_cfs_bandwidth :: cfs_bandwidth

record grq =
  q_nr_running :: u32
  q_load :: load_weight
  q_clock :: u64
  q_clock_task :: u64
  q_cfs :: nat
  q_leaf_cfs_rq_list :: "nat list"
  q_cfs_tasks :: "nat list"
  q_avg :: sched_avg
  q_curr :: nat
  q_idle :: nat
  h_load_throttle :: u64

record 'y grp =
  cfs_of :: "nat \<Rightarrow> gcfs"
  tg_of :: "nat \<Rightarrow> tgroup"
  ent_of :: "nat \<Rightarrow> gent"
  cpu_rq :: "nat \<Rightarrow> grq"
  cfs_bandwidth_slice :: u32
  g_resched :: "nat \<Rightarrow> bool"
  g_jiffies :: u64
  elsewhere :: 'y

definition upd_cfs :: "nat \<Rightarrow> (gcfs \<Rightarrow> gcfs) \<Rightarrow> 'y grp \<Rightarrow> 'y grp" where
  "upd_cfs c f s = s\<lparr>cfs_of := (cfs_of s)(c := f (cfs_of s c))\<rparr>"

definition upd_tg :: "nat \<Rightarrow> (tgroup \<Rightarrow> tgroup) \<Rightarrow> 'y grp \<Rightarrow> 'y grp" where
  "upd_tg g f s = s\<lparr>tg_of := (tg_of s)(g := f (tg_of s g))\<rparr>"

definition upd_ent :: "nat \<Rightarrow> (gent \<Rightarrow> gent) \<Rightarrow> 'y grp \<Rightarrow> 'y grp" where
  "upd_ent e f s = s\<lparr>ent_of := (ent_of s)(e := f (ent_of s e))\<rparr>"

definition upd_rq :: "nat \<Rightarrow> (grq \<Rightarrow> grq) \<Rightarrow> 'y grp \<Rightarrow> 'y grp" where
  "upd_rq c f s = s\<lparr>cpu_rq := (cpu_rq s)(c := f (cpu_rq s c))\<rparr>"

text \<open>\<open>resched_task\<close> on the task that a processor runs.\<close>

definition resched_curr :: "nat \<Rightarrow> 'y grp \<Rightarrow> 'y grp" where
  "resched_curr cpu s = s\<lparr>g_resched := (g_resched s)(cpu := True)\<rparr>"

lemma upd_fields [simp]:
  "cfs_of (upd_cfs c f s) = (cfs_of s)(c := f (cfs_of s c))" "tg_of (upd_cfs c f s) = tg_of s"
  "ent_of (upd_cfs c f s) = ent_of s" "cpu_rq (upd_cfs c f s) = cpu_rq s"
  "cfs_of (upd_tg g h s) = cfs_of s" "tg_of (upd_tg g h s) = (tg_of s)(g := h (tg_of s g))"
  "ent_of (upd_tg g h s) = ent_of s" "cpu_rq (upd_tg g h s) = cpu_rq s"
  "cfs_of (upd_ent e k s) = cfs_of s" "tg_of (upd_ent e k s) = tg_of s"
  "ent_of (upd_ent e k s) = (ent_of s)(e := k (ent_of s e))" "cpu_rq (upd_ent e k s) = cpu_rq s"
  "cfs_of (upd_rq r j s) = cfs_of s" "tg_of (upd_rq r j s) = tg_of s"
  "ent_of (upd_rq r j s) = ent_of s" "cpu_rq (upd_rq r j s) = (cpu_rq s)(r := j (cpu_rq s r))"
  "cfs_of (resched_curr n s) = cfs_of s" "tg_of (resched_curr n s) = tg_of s"
  "ent_of (resched_curr n s) = ent_of s" "cpu_rq (resched_curr n s) = cpu_rq s"
  "cfs_bandwidth_slice (upd_cfs c f s) = cfs_bandwidth_slice s" "cfs_bandwidth_slice (upd_tg g h s) = cfs_bandwidth_slice s"
  "cfs_bandwidth_slice (upd_ent e k s) = cfs_bandwidth_slice s" "cfs_bandwidth_slice (upd_rq r j s) = cfs_bandwidth_slice s"
  "cfs_bandwidth_slice (resched_curr n s) = cfs_bandwidth_slice s"
  "g_jiffies (upd_rq r j s) = g_jiffies s" "g_jiffies (upd_cfs c f s) = g_jiffies s"
  by (simp_all add: upd_cfs_def upd_tg_def upd_ent_def upd_rq_def resched_curr_def)

section \<open>Constants\<close>

definition RUNTIME_INF :: u64 where "RUNTIME_INF = - 1"
definition MIN_SHARES :: u64 where "MIN_SHARES = push_bit 1 1"
definition MAX_SHARES :: u64 where "MAX_SHARES = push_bit 18 1"
definition NICE_0_SHIFT :: nat where "NICE_0_SHIFT = 10"
definition NSEC_PER_USEC :: u64 where "NSEC_PER_USEC = 1000"
definition NSEC_PER_MSEC :: u64 where "NSEC_PER_MSEC = 1000000"

lemma RUNTIME_INF_max: "uint RUNTIME_INF = 2 ^ 64 - 1"
  by (simp add: RUNTIME_INF_def unsigned_minus_1_eq_mask mask_eq_exp_minus_1)

section \<open>Walking the hierarchy\<close>

definition entity_is_task :: "gent \<Rightarrow> bool" where
  "entity_is_task e \<longleftrightarrow> e_my_q e = None"

text \<open>The entities above \<open>e\<close>, \<open>e\<close> first.  The chain of parents may be endless; then there is no result.\<close>

partial_function (option) entity_chain :: "(nat \<Rightarrow> nat option) \<Rightarrow> nat option \<Rightarrow> nat list option" where
  "entity_chain par e =
     (case e of None \<Rightarrow> Some []
      | Some i \<Rightarrow> Option.bind (entity_chain par (par i)) (\<lambda>is. Some (i # is)))"

text \<open>\<open>for_each_sched_entity\<close> starting at \<open>e\<close>.\<close>

definition for_each_sched_entity :: "'y grp \<Rightarrow> nat option \<Rightarrow> nat list option" where
  "for_each_sched_entity s e = entity_chain (\<lambda>i. e_parent (ent_of s i)) e"

definition is_same_group :: "'y grp \<Rightarrow> nat \<Rightarrow> nat \<Rightarrow> bool" where
  "is_same_group s a b \<longleftrightarrow> e_cfs_rq (ent_of s a) = e_cfs_rq (ent_of s b)"

definition depth_se :: "'y grp \<Rightarrow> nat \<Rightarrow> nat option" where
  "depth_se s e = map_option length (for_each_sched_entity s (Some e))"

text \<open>\<open>n\<close> steps up; \<open>None\<close> where a null pointer is followed.\<close>

fun climb :: "'y grp \<Rightarrow> nat \<Rightarrow> nat \<Rightarrow> nat option" where
  "climb s 0 e = Some e"
| "climb s (Suc n) e = Option.bind (e_parent (ent_of s e)) (climb s n)"

text \<open>The last loop of \<open>find_matching_se\<close>; \<open>fuel\<close> bounds its rounds.\<close>

fun climb_both :: "nat \<Rightarrow> 'y grp \<Rightarrow> nat \<Rightarrow> nat \<Rightarrow> (nat \<times> nat) option" where
  "climb_both fuel s a b =
     (if is_same_group s a b then Some (a, b)
      else case fuel of
        0 \<Rightarrow> None
      | Suc n \<Rightarrow>
          (case (e_parent (ent_of s a), e_parent (ent_of s b)) of
             (Some a1, Some b1) \<Rightarrow> climb_both n s a1 b1
           | _ \<Rightarrow> None))"

declare climb_both.simps [simp del]

definition find_matching_se :: "'y grp \<Rightarrow> nat \<Rightarrow> nat \<Rightarrow> (nat \<times> nat) option" where
  "find_matching_se s e p =
     (case (depth_se s e, depth_se s p) of
        (Some d, Some pd) \<Rightarrow>
          (case (climb s (d - pd) e, climb s (pd - d) p) of
             (Some a, Some b) \<Rightarrow> climb_both (min d pd) s a b
           | _ \<Rightarrow> None)
      | _ \<Rightarrow> None)"

text \<open>The walk over the tree of groups that the state holds.\<close>

abbreviation children_of :: "'y grp \<Rightarrow> nat \<Rightarrow> nat list" where
  "children_of s g \<equiv> t_children (tg_of s g)"

abbreviation parent_of :: "'y grp \<Rightarrow> nat \<Rightarrow> nat option" where
  "parent_of s g \<equiv> t_parent (tg_of s g)"

definition root_task_group :: nat where "root_task_group = 0"

definition walk_tg_tree :: "'y grp visitor \<Rightarrow> 'y grp visitor \<Rightarrow> 'y grp \<Rightarrow> (int \<times> 'y grp) option" where
  "walk_tg_tree down up s = walk_tg_tree_from children_of parent_of root_task_group down up s"

definition tree_ok :: "'y grp \<Rightarrow> group_tree \<Rightarrow> bool" where
  "tree_ok s t \<longleftrightarrow> linked (children_of s) (parent_of s) t \<and> distinct (nodes t)"

section \<open>Leaf lists\<close>

text \<open>Joining the list of a processor's run queues: in front of a parent that is on it, at the end otherwise.
  The load update that follows is \<open>update\<close>.\<close>

definition list_add_leaf_cfs_rq :: "(nat \<Rightarrow> 'y grp \<Rightarrow> 'y grp) \<Rightarrow> nat \<Rightarrow> 'y grp \<Rightarrow> 'y grp" where
  "list_add_leaf_cfs_rq update c s =
     (let q = cfs_of s c; cpu = g_rq q in
      if on_list q then s
      else
        let before = (case parent_of s (g_tg q) of
               None \<Rightarrow> False | Some p \<Rightarrow> on_list (cfs_of s (t_cfs_rq (tg_of s p) cpu)));
            s1 = upd_rq cpu (q_leaf_cfs_rq_list_update (\<lambda>l. if before then c # l else l @ [c])) s
        in update c (upd_cfs c (on_list_update (\<lambda>_. True)) s1))"

definition list_del_leaf_cfs_rq :: "nat \<Rightarrow> 'y grp \<Rightarrow> 'y grp" where
  "list_del_leaf_cfs_rq c s =
     (if on_list (cfs_of s c)
      then upd_cfs c (on_list_update (\<lambda>_. False))
             (upd_rq (g_rq (cfs_of s c)) (q_leaf_cfs_rq_list_update (remove1 c)) s)
      else s)"

definition unregister_fair_sched_group :: "nat \<Rightarrow> nat \<Rightarrow> 'y grp \<Rightarrow> 'y grp" where
  "unregister_fair_sched_group g cpu s =
     (if \<not> on_list (cfs_of s (t_cfs_rq (tg_of s g) cpu)) then s
      else list_del_leaf_cfs_rq (t_cfs_rq (tg_of s g) cpu) s)"

end
