(* ===== verification/Sched_Pelt.thy ===== *)
theory Sched_Pelt
  imports Sched_Group
begin

text \<open>
  Per-entity load tracking of \<open>kernel/sched/fair.c\<close>: the geometric averages of an entity, what tasks and groups
  contribute to the load of their run queue and task group, and the shares that follow from it.
\<close>

section \<open>Decaying averages\<close>

definition LOAD_AVG_PERIOD :: nat where "LOAD_AVG_PERIOD = 32"
definition LOAD_AVG_MAX :: u32 where "LOAD_AVG_MAX = 47742"
definition LOAD_AVG_MAX_N :: nat where "LOAD_AVG_MAX_N = 345"

definition runnable_avg_yN_inv :: "u32 list" where
  "runnable_avg_yN_inv =
    [0xffffffff, 0xfa83b2da, 0xf5257d14, 0xefe4b99a, 0xeac0c6e6, 0xe5b906e6,
     0xe0ccdeeb, 0xdbfbb796, 0xd744fcc9, 0xd2a81d91, 0xce248c14, 0xc9b9bd85,
     0xc5672a10, 0xc12c4cc9, 0xbd08a39e, 0xb8fbaf46, 0xb504f333, 0xb123f581,
     0xad583ee9, 0xa9a15ab4, 0xa5fed6a9, 0xa2704302, 0x9ef5325f, 0x9b8d39b9,
     0x9837f050, 0x94f4efa8, 0x91c3d373, 0x8ea4398a, 0x8b95c1e3, 0x88980e80,
     0x85aac367, 0x82cd8698]"

definition runnable_avg_yN_sum :: "u32 list" where
  "runnable_avg_yN_sum =
    [0, 1002, 1982, 2941, 3880, 4798, 5697, 6576, 7437, 8279, 9103,
     9909, 10698, 11470, 12226, 12966, 13690, 14398, 15091, 15769, 16433, 17082,
     17718, 18340, 18949, 19545, 20128, 20698, 21256, 21802, 22336, 22859, 23371]"

definition decay_load :: "u64 \<Rightarrow> u64 \<Rightarrow> u64" where
  "decay_load val n =
     (if n = 0 then val
      else if unat n > LOAD_AVG_PERIOD * 63 then 0
      else
        let local_n = unat n;
            (v, k) = (if local_n \<ge> LOAD_AVG_PERIOD
                      then (drop_bit (local_n div LOAD_AVG_PERIOD) val, local_n mod LOAD_AVG_PERIOD)
                      else (val, local_n))
        in drop_bit 32 (v * ucast (runnable_avg_yN_inv ! k)))"

text \<open>The loop is entered with \<open>n\<close> greater than the period.\<close>

function contrib_loop :: "nat \<Rightarrow> u32 \<Rightarrow> nat \<times> u32" where
  "contrib_loop n contrib =
     (if n > LOAD_AVG_PERIOD
      then contrib_loop (n - LOAD_AVG_PERIOD) (contrib div 2 + runnable_avg_yN_sum ! LOAD_AVG_PERIOD)
      else (n, contrib))"
  by pat_completeness auto
termination by (relation "measure fst") (simp_all add: LOAD_AVG_PERIOD_def)

declare contrib_loop.simps [simp del]

definition compute_runnable_contrib :: "u64 \<Rightarrow> u32" where
  "compute_runnable_contrib n =
     (if unat n \<le> LOAD_AVG_PERIOD then runnable_avg_yN_sum ! unat n
      else if unat n \<ge> LOAD_AVG_MAX_N then LOAD_AVG_MAX
      else
        let (m, contrib) = contrib_loop (unat n) 0
        in ucast (decay_load (ucast contrib) (of_nat m)) + runnable_avg_yN_sum ! m)"

text \<open>A step of the average up to \<open>now\<close>; whether a period ended, and the new average.\<close>

definition update_entity_runnable_avg :: "u64 \<Rightarrow> sched_avg \<Rightarrow> bool \<Rightarrow> bool \<times> sched_avg" where
  "update_entity_runnable_avg now sa runnable =
     (let delta = now - last_runnable_update sa in
      if sint delta < 0 then (False, sa\<lparr>last_runnable_update := now\<rparr>)
      else
        let d = drop_bit 10 delta in
        if d = 0 then (False, sa)
        else
          let sa1 = sa\<lparr>last_runnable_update := now\<rparr>;
              w = runnable_avg_period sa1 mod 1024;
              accrue = (\<lambda>x :: u32. \<lambda>a. a\<lparr>runnable_avg_sum := (if runnable then runnable_avg_sum a + x else runnable_avg_sum a),
                     runnable_avg_period := runnable_avg_period a + x\<rparr>)
          in if d + ucast w \<ge> 1024 then
               (let w1 = 1024 - w;
                    sa2 = accrue w1 sa1;
                    d1 = d - ucast w1;
                    periods = d1 div 1024;
                    sa3 = sa2\<lparr>runnable_avg_sum := ucast (decay_load (ucast (runnable_avg_sum sa2)) (periods + 1)),
                              runnable_avg_period := ucast (decay_load (ucast (runnable_avg_period sa2)) (periods + 1))\<rparr>;
                    sa4 = accrue (compute_runnable_contrib periods) sa3
                in (True, accrue (ucast (d1 mod 1024)) sa4))
             else (False, accrue (ucast d) sa1))"

section \<open>Contributions\<close>

text \<open>\<open>cfs_rq_clock_task\<close> with \<open>CONFIG_CFS_BANDWIDTH\<close>.\<close>

definition cfs_rq_clock_task :: "nat \<Rightarrow> 'y grp \<Rightarrow> u64" where
  "cfs_rq_clock_task c s =
     (let q = cfs_of s c
      in if throttle_count q \<noteq> 0 then throttled_clock_task q
         else q_clock_task (cpu_rq s (g_rq q)) - throttled_clock_task_time q)"

definition throttled_hierarchy :: "nat \<Rightarrow> 'y grp \<Rightarrow> bool" where
  "throttled_hierarchy c s \<longleftrightarrow> throttle_count (cfs_of s c) \<noteq> 0"

definition upd_avg :: "nat \<Rightarrow> (sched_avg \<Rightarrow> sched_avg) \<Rightarrow> 'y grp \<Rightarrow> 'y grp" where
  "upd_avg e f = upd_ent e (e_avg_update f)"

abbreviation avg_of :: "'y grp \<Rightarrow> nat \<Rightarrow> sched_avg" where
  "avg_of s e \<equiv> e_avg (ent_of s e)"

definition synchronize_entity_decay :: "nat \<Rightarrow> 'y grp \<Rightarrow> u64 \<times> 'y grp" where
  "synchronize_entity_decay e s =
     (let decays = decay_counter (cfs_of s (e_cfs_rq (ent_of s e))) - decay_count (avg_of s e)
      in if decays = 0 then (0, s)
         else (decays, upd_avg e (\<lambda>a. a\<lparr>load_avg_contrib := decay_load (load_avg_contrib a) decays, decay_count := 0\<rparr>) s))"

definition abs64 :: "u64 \<Rightarrow> u64" where
  "abs64 x = (if sint x < 0 then - x else x)"

definition update_cfs_rq_tg_load_contrib :: "nat \<Rightarrow> bool \<Rightarrow> 'y grp \<Rightarrow> 'y grp" where
  "update_cfs_rq_tg_load_contrib c force_update s =
     (let q = cfs_of s c;
          tg_contrib = runnable_load_avg q + blocked_load_avg q - tg_load_contrib q
      in if force_update \<or> abs64 tg_contrib > tg_load_contrib q div 8
         then upd_cfs c (tg_load_contrib_update (\<lambda>x. x + tg_contrib))
                (upd_tg (g_tg q) (t_load_avg_update (\<lambda>x. x + tg_contrib)) s)
         else s)"

text \<open>\<open>abs\<close> of a \<open>long\<close>, compared with an \<open>unsigned int\<close> as \<open>long\<close>.\<close>

definition update_tg_runnable_avg :: "sched_avg \<Rightarrow> nat \<Rightarrow> 'y grp \<Rightarrow> 'y grp" where
  "update_tg_runnable_avg sa c s =
     (let q = cfs_of s c;
          share = (ucast (push_bit NICE_0_SHIFT (runnable_avg_sum sa)) :: u64) div ucast (runnable_avg_period sa + 1);
          contrib = share - ucast (tg_runnable_contrib q)
      in if sint (abs64 contrib) > uint (tg_runnable_contrib q div 64)
         then upd_cfs c (tg_runnable_contrib_update (\<lambda>x. x + ucast contrib))
                (upd_tg (g_tg q) (t_runnable_avg_update (\<lambda>x. x + ucast contrib)) s)
         else s)"

text \<open>Of an entity that owns the run queue \<open>c\<close>.\<close>

definition update_group_entity_contrib :: "nat \<Rightarrow> nat \<Rightarrow> 'y grp \<Rightarrow> 'y grp" where
  "update_group_entity_contrib e c s =
     (let q = cfs_of s c; tg = tg_of s (g_tg q);
          contrib = tg_load_contrib q * shares tg div (t_load_avg tg + 1)
      in upd_avg e (load_avg_contrib_update (\<lambda>_.
           if sint (t_runnable_avg tg) < uint NICE_0_LOAD
           then drop_bit NICE_0_SHIFT (contrib * scast (t_runnable_avg tg)) else contrib)) s)"

text \<open>The product is cut to 32 bits before the division.\<close>

definition update_task_entity_contrib :: "nat \<Rightarrow> 'y grp \<Rightarrow> 'y grp" where
  "update_task_entity_contrib e s =
     (let a = avg_of s e;
          contrib = ucast (ucast (runnable_avg_sum a) * scale_load_down (weight (e_load (ent_of s e)))) :: u32
      in upd_avg e (load_avg_contrib_update (\<lambda>_. scale_load (ucast (contrib div (runnable_avg_period a + 1))))) s)"

definition update_entity_load_avg_contrib :: "nat \<Rightarrow> 'y grp \<Rightarrow> u64 \<times> 'y grp" where
  "update_entity_load_avg_contrib e s =
     (let old_contrib = load_avg_contrib (avg_of s e);
          s1 = (case e_my_q (ent_of s e) of
                  None \<Rightarrow> update_task_entity_contrib e s
                | Some c \<Rightarrow> update_group_entity_contrib e c (update_tg_runnable_avg (avg_of s e) c s))
      in (load_avg_contrib (avg_of s1 e) - old_contrib, s1))"

definition subtract_blocked_load_contrib :: "nat \<Rightarrow> u64 \<Rightarrow> 'y grp \<Rightarrow> 'y grp" where
  "subtract_blocked_load_contrib c load_contrib =
     upd_cfs c (blocked_load_avg_update (\<lambda>b. if load_contrib < b then b - load_contrib else 0))"

definition update_entity_load_avg :: "nat \<Rightarrow> bool \<Rightarrow> 'y grp \<Rightarrow> 'y grp" where
  "update_entity_load_avg e update_cfs_rq s =
     (let c = e_cfs_rq (ent_of s e);
          now = (case e_my_q (ent_of s e) of None \<Rightarrow> cfs_rq_clock_task c s | Some m \<Rightarrow> cfs_rq_clock_task m s);
          (decayed, a) = update_entity_runnable_avg now (avg_of s e) (e_on_rq (ent_of s e));
          s1 = upd_avg e (\<lambda>_. a) s
      in if \<not> decayed then s1
         else
           let (contrib_delta, s2) = update_entity_load_avg_contrib e s1
           in if \<not> update_cfs_rq then s2
              else if e_on_rq (ent_of s2 e) then upd_cfs c (runnable_load_avg_update (\<lambda>x. x + contrib_delta)) s2
              else subtract_blocked_load_contrib c (- contrib_delta) s2)"

definition update_cfs_rq_blocked_load :: "nat \<Rightarrow> bool \<Rightarrow> 'y grp \<Rightarrow> 'y grp" where
  "update_cfs_rq_blocked_load c force_update s =
     (let now = drop_bit 20 (cfs_rq_clock_task c s);
          decays = now - last_decay (cfs_of s c)
      in if decays = 0 \<and> \<not> force_update then s
         else
           let removed = removed_load (cfs_of s c);
               s1 = (if removed \<noteq> 0
                     then subtract_blocked_load_contrib c removed (upd_cfs c (removed_load_update (\<lambda>_. 0)) s) else s);
               s2 = (if decays \<noteq> 0
                     then upd_cfs c (\<lambda>q. q\<lparr>blocked_load_avg := decay_load (blocked_load_avg q) decays,
                            decay_counter := decay_counter q + decays, last_decay := now\<rparr>) s1
                     else s1)
           in update_cfs_rq_tg_load_contrib c force_update s2)"

definition update_rq_runnable_avg :: "nat \<Rightarrow> bool \<Rightarrow> 'y grp \<Rightarrow> 'y grp" where
  "update_rq_runnable_avg cpu runnable s =
     (let rq = cpu_rq s cpu;
          s1 = upd_rq cpu (q_avg_update (\<lambda>a. snd (update_entity_runnable_avg (q_clock_task rq) a runnable))) s
      in update_tg_runnable_avg (q_avg (cpu_rq s1 cpu)) (q_cfs rq) s1)"

section \<open>Queueing\<close>

definition enqueue_entity_load_avg :: "nat \<Rightarrow> nat \<Rightarrow> bool \<Rightarrow> 'y grp \<Rightarrow> 'y grp" where
  "enqueue_entity_load_avg c e wakeup s =
     (let (wakeup1, s1) =
            (if sint (decay_count (avg_of s e)) \<le> 0 then
               (let t = q_clock_task (cpu_rq s (g_rq (cfs_of s c)));
                    sa = upd_avg e (last_runnable_update_update (\<lambda>_. t)) s;
                    dc = decay_count (avg_of s e)
                in (False,
                    if dc \<noteq> 0 then
                      upd_avg e (decay_count_update (\<lambda>_. 0))
                        (update_entity_load_avg e False
                          (upd_avg e (last_runnable_update_update (\<lambda>x. x - push_bit 20 (- dc))) sa))
                    else sa))
             else (wakeup, snd (synchronize_entity_decay e s)));
          s2 = (if wakeup1
                then update_entity_load_avg e False
                       (subtract_blocked_load_contrib c (load_avg_contrib (avg_of s1 e)) s1)
                else s1);
          s3 = upd_cfs c (runnable_load_avg_update (\<lambda>x. x + load_avg_contrib (avg_of s2 e))) s2
      in update_cfs_rq_blocked_load c (\<not> wakeup1) s3)"

definition dequeue_entity_load_avg :: "nat \<Rightarrow> nat \<Rightarrow> bool \<Rightarrow> 'y grp \<Rightarrow> 'y grp" where
  "dequeue_entity_load_avg c e sleep s =
     (let s1 = update_cfs_rq_blocked_load c (\<not> sleep) (update_entity_load_avg e True s);
          contrib = load_avg_contrib (avg_of s1 e);
          s2 = upd_cfs c (runnable_load_avg_update (\<lambda>x. x - contrib)) s1
      in if sleep
         then upd_avg e (decay_count_update (\<lambda>_. decay_counter (cfs_of s2 c)))
                (upd_cfs c (blocked_load_avg_update (\<lambda>x. x + contrib)) s2)
         else s2)"

definition migrate_task_rq_fair :: "nat \<Rightarrow> 'y grp \<Rightarrow> 'y grp" where
  "migrate_task_rq_fair e s =
     (let c = e_cfs_rq (ent_of s e) in
      if decay_count (avg_of s e) \<noteq> 0 then
        (let (decays, s1) = synchronize_entity_decay e s;
             s2 = upd_avg e (decay_count_update (\<lambda>_. - decays)) s1
         in upd_cfs c (removed_load_update (\<lambda>x. x + load_avg_contrib (avg_of s2 e))) s2)
      else s)"

text \<open>The load tracking of \<open>switched_from_fair\<close>.\<close>

definition switched_from_fair_load :: "nat \<Rightarrow> 'y grp \<Rightarrow> 'y grp" where
  "switched_from_fair_load e s =
     (if decay_count (avg_of s e) \<noteq> 0 then
        (let s1 = snd (synchronize_entity_decay e s)
         in subtract_blocked_load_contrib (e_cfs_rq (ent_of s1 e)) (load_avg_contrib (avg_of s1 e)) s1)
      else s)"

section \<open>Averages of blocked groups\<close>

definition update_blocked_averages_cpu :: "nat \<Rightarrow> nat \<Rightarrow> 'y grp \<Rightarrow> 'y grp" where
  "update_blocked_averages_cpu g cpu s =
     (let c = t_cfs_rq (tg_of s g) cpu in
      if throttled_hierarchy c s then s
      else
        let s1 = update_cfs_rq_blocked_load c True s in
        (case t_se (tg_of s g) cpu of
           Some e \<Rightarrow>
             (let s2 = update_entity_load_avg e True s1
              in if runnable_avg_sum (avg_of s2 e) = 0 \<and> g_nr_running (cfs_of s2 c) = 0
                 then list_del_leaf_cfs_rq c s2 else s2)
         | None \<Rightarrow>
             update_rq_runnable_avg (g_rq (cfs_of s1 c)) (q_nr_running (cpu_rq s1 (g_rq (cfs_of s1 c))) \<noteq> 0) s1))"

text \<open>The clock update is an argument; the list is the one at the start, from which entries only leave.\<close>

definition update_blocked_averages :: "(nat \<Rightarrow> 'y grp \<Rightarrow> 'y grp) \<Rightarrow> nat \<Rightarrow> 'y grp \<Rightarrow> 'y grp" where
  "update_blocked_averages update_rq_clock cpu s =
     (let s1 = update_rq_clock cpu s
      in fold (\<lambda>c t. update_blocked_averages_cpu (g_tg (cfs_of t c)) cpu t)
           (q_leaf_cfs_rq_list (cpu_rq s1 cpu)) s1)"

text \<open>Every group but the root has an entity on each processor.\<close>

definition tg_load_down :: "nat \<Rightarrow> 'y grp visitor" where
  "tg_load_down cpu g s =
     (let load = (case parent_of s g of
            None \<Rightarrow> weight (q_load (cpu_rq s cpu))
          | Some p \<Rightarrow>
              (let pq = cfs_of s (t_cfs_rq (tg_of s p) cpu)
               in h_load pq * weight (e_load (ent_of s (the (t_se (tg_of s g) cpu)))) div (weight (g_load pq) + 1)))
      in (0, upd_cfs (t_cfs_rq (tg_of s g) cpu) (h_load_update (\<lambda>_. load)) s))"

definition update_h_load :: "nat \<Rightarrow> 'y grp \<Rightarrow> 'y grp option" where
  "update_h_load cpu s =
     (if h_load_throttle (cpu_rq s cpu) = g_jiffies s then Some s
      else map_option snd
        (walk_tg_tree (tg_load_down cpu) tg_nop (upd_rq cpu (h_load_throttle_update (\<lambda>_. g_jiffies s)) s)))"

definition task_h_load :: "nat \<Rightarrow> 'y grp \<Rightarrow> u64" where
  "task_h_load e s =
     (let q = cfs_of s (e_cfs_rq (ent_of s e))
      in weight (e_load (ent_of s e)) * h_load q div ucast (ucast (weight (g_load q) + 1) :: u32))"

end
