(* ===== verification/Sched_Pelt_Props.thy ===== *)
theory Sched_Pelt_Props
  imports Sched_Pelt
begin

text \<open>
  Load tracking stays in range: the sum never exceeds the period, the period never reaches 48 \<cdot> 1024, and
  the contribution of a task is exact and at most its weight for every nice value but the strongest, where the
  32-bit product can overflow.  The load of a task group is the sum of the contributions of its run queues.
\<close>

section \<open>Decay over the integers\<close>

definition yN_inv :: "int list" where
  "yN_inv =
    [4294967295, 4202935002, 4112874772, 4024744346, 3938502374, 3854108390,
     3771522795, 3690706838, 3611622601, 3534232977, 3458501652, 3384393093,
     3311872528, 3240905929, 3171459998, 3103502150, 3037000499, 2971923841,
     2908241641, 2845924020, 2784941737, 2725266178, 2666869343, 2609723833,
     2553802832, 2499080104, 2445529971, 2393127306, 2341847523, 2291666560,
     2242560871, 2194507416]"

definition yN_sum :: "int list" where
  "yN_sum =
    [0, 1002, 1982, 2941, 3880, 4798, 5697, 6576, 7437, 8279, 9103,
     9909, 10698, 11470, 12226, 12966, 13690, 14398, 15091, 15769, 16433, 17082,
     17718, 18340, 18949, 19545, 20128, 20698, 21256, 21802, 22336, 22859, 23371]"

lemma map_yN: "map uint runnable_avg_yN_inv = yN_inv" "map uint runnable_avg_yN_sum = yN_sum"
  by (simp_all add: runnable_avg_yN_inv_def runnable_avg_yN_sum_def yN_inv_def yN_sum_def)

lemma uint_drop_bit: "uint (drop_bit k w) = uint (w :: u64) div 2 ^ k"
proof -
  have "take_bit 64 (uint w) = uint w" using uint_lt2p [of w] by (simp add: take_bit_int_eq_self)
  then show ?thesis unfolding unsigned_drop_bit_eq by (simp add: drop_bit_eq_div)
qed

lemma yN_inv_nth: "k < 32 \<Longrightarrow> uint (runnable_avg_yN_inv ! k) = yN_inv ! k"
  using map_yN(1) nth_map [of k runnable_avg_yN_inv uint] by (simp add: runnable_avg_yN_inv_def)

lemma yN_sum_nth: "k \<le> 32 \<Longrightarrow> uint (runnable_avg_yN_sum ! k) = yN_sum ! k"
  using map_yN(2) nth_map [of k runnable_avg_yN_sum uint] by (simp add: runnable_avg_yN_sum_def)

definition decay_int :: "int \<Rightarrow> int \<Rightarrow> int" where
  "decay_int v n =
     (if n = 0 then v else (v div 2 ^ nat (n div 32)) * (yN_inv ! nat (n mod 32)) div 4294967296)"

function contrib_loop_int :: "int \<Rightarrow> int \<Rightarrow> int \<times> int" where
  "contrib_loop_int n c = (if n > 32 then contrib_loop_int (n - 32) (c div 2 + 23371) else (n, c))"
  by pat_completeness auto
termination by (relation "measure (\<lambda>(n, _). nat n)") auto

definition contrib_int :: "int \<Rightarrow> int" where
  "contrib_int n =
     (if n \<le> 32 then yN_sum ! nat n
      else if n \<ge> 345 then 47742
      else case contrib_loop_int n 0 of (m, c) \<Rightarrow> decay_int c m + yN_sum ! nat m)"

lemma yN_inv_range: "k < 32 \<Longrightarrow> 0 \<le> yN_inv ! k \<and> yN_inv ! k < 4294967296"
proof -
  assume "k < 32"
  then have "yN_inv ! k = uint (runnable_avg_yN_inv ! k)" by (simp add: yN_inv_nth)
  then show ?thesis using unsigned_less [of "runnable_avg_yN_inv ! k"] by simp
qed

lemma decay_load_int:
  assumes "uint val < 2 ^ 32" and "uint n \<le> 2016"
  shows "uint (decay_load val n) = decay_int (uint val) (uint n)"
proof (cases "n = 0")
  case False
  define k where "k = unat n mod 32"
  define v where "v = uint val div 2 ^ (unat n div 32)"
  have k: "k < 32" by (simp add: k_def)
  have v: "0 \<le> v" "v < 2 ^ 32"
  proof -
    show "0 \<le> v" by (simp add: v_def pos_imp_zdiv_nonneg_iff)
    have "v \<le> uint val" unfolding v_def using zdiv_mono2 [of "uint val" 1 "2 ^ (unat n div 32)"] by simp
    then show "v < 2 ^ 32" using assms(1) by simp
  qed
  have dv: "uint (drop_bit (unat n div 32) val) = v"
    by (simp only: v_def uint_drop_bit)
  have i: "uint (ucast (runnable_avg_yN_inv ! k) :: u64) = yN_inv ! k"
    using yN_inv_nth [OF k] yN_inv_range [OF k]
    by (simp add: unsigned_ucast_eq take_bit_int_eq_self)
  have p: "v * yN_inv ! k < 2 ^ 64" "0 \<le> v * yN_inv ! k"
    using mult_strict_mono [of v "2 ^ 32" "yN_inv ! k" "2 ^ 32"] v yN_inv_range [OF k] by simp_all
  have "int (unat n) \<le> 2016" using assms(2) by simp
  then have nn: "unat n \<le> 2016" by linarith
  have "decay_load val n = drop_bit 32 (drop_bit (unat n div 32) val * ucast (runnable_avg_yN_inv ! k))"
    using False nn by (auto simp: decay_load_def LOAD_AVG_PERIOD_def k_def Let_def)
  then have "uint (decay_load val n) = uint (drop_bit (unat n div 32) val * (ucast (runnable_avg_yN_inv ! k) :: u64)) div 4294967296"
    by (simp only: uint_drop_bit) simp
  also have "uint (drop_bit (unat n div 32) val * (ucast (runnable_avg_yN_inv ! k) :: u64)) = v * yN_inv ! k"
    using p by (simp add: uint_word_ariths dv i)
  finally have "uint (decay_load val n) = v * yN_inv ! k div 4294967296" .
  moreover have "nat (uint n div 32) = unat n div 32" "nat (uint n mod 32) = k" "uint n \<noteq> 0"
    using False by (simp_all add: k_def nat_div_distrib nat_mod_distrib uint_0_iff)
  ultimately show ?thesis by (simp add: decay_int_def v_def)
qed (simp add: decay_load_def decay_int_def)

lemma decay_load_gone: "unat n > 2016 \<Longrightarrow> decay_load val n = 0"
  by (auto simp: decay_load_def LOAD_AVG_PERIOD_def)

lemma contrib_loop_int_eq:
  assumes "uint c \<le> 46742"
  shows "(case contrib_loop n c of (m, d) \<Rightarrow> (int m, uint d)) = contrib_loop_int (int n) (uint c) \<and> uint (snd (contrib_loop n c)) \<le> 46742
     \<and> fst (contrib_loop n c) \<le> 32"
  using assms
proof (induction n c rule: contrib_loop.induct)
  case (1 n c)
  show ?case
  proof (cases "n > 32")
    case True
    have s: "uint (runnable_avg_yN_sum ! 32) = 23371" by (simp add: runnable_avg_yN_sum_def)
    have h: "uint (c div 2) = uint c div 2" by (simp add: uint_div)
    have e: "uint (c div 2 + runnable_avg_yN_sum ! 32) = uint c div 2 + 23371"
      using 1(2) s h unsigned_less [of c] by (simp add: uint_word_ariths)
    then have b: "uint (c div 2 + runnable_avg_yN_sum ! 32) \<le> 46742" using 1(2) by simp
    have "contrib_loop n c = contrib_loop (n - 32) (c div 2 + runnable_avg_yN_sum ! 32)"
      using True by (subst contrib_loop.simps) (simp add: LOAD_AVG_PERIOD_def)
    moreover have "contrib_loop_int (int n) (uint c) = contrib_loop_int (int (n - 32)) (uint c div 2 + 23371)"
      using True by (subst contrib_loop_int.simps) simp
    ultimately show ?thesis using 1(1) True b e by (simp add: LOAD_AVG_PERIOD_def)
  next
    case False
    then show ?thesis using 1(2) by (simp add: contrib_loop.simps [of n c] contrib_loop_int.simps [of "int n"] LOAD_AVG_PERIOD_def)
  qed
qed

lemma decay_int_le: "0 \<le> v \<Longrightarrow> 0 \<le> n \<Longrightarrow> 0 \<le> decay_int v n \<and> decay_int v n \<le> v"
proof (cases "n = 0")
  case False
  assume v: "0 \<le> v" "0 \<le> n"
  define d where "d = v div 2 ^ nat (n div 32)"
  define i where "i = yN_inv ! nat (n mod 32)"
  have d: "0 \<le> d" "d \<le> v" 
    using v(1) zdiv_mono2 [of v 1 "2 ^ nat (n div 32)"] by (simp_all add: d_def pos_imp_zdiv_nonneg_iff)
  have i: "0 \<le> i" "i < 4294967296" using yN_inv_range [of "nat (n mod 32)"] by (simp_all add: i_def)
  have "d * i \<le> d * 4294967296" using d i by (intro mult_left_mono) simp_all
  then have "d * i div 4294967296 \<le> d" using zdiv_mono1 [of "d * i" "d * 4294967296" 4294967296] by simp
  moreover have "0 \<le> d * i div 4294967296" using d i by (simp add: pos_imp_zdiv_nonneg_iff)
  ultimately show ?thesis using False d by (simp add: decay_int_def d_def i_def)
qed (simp add: decay_int_def)

lemma decay_int_mono: "0 \<le> u \<Longrightarrow> u \<le> v \<Longrightarrow> decay_int u n \<le> decay_int v n"
  using yN_inv_range [of "nat (n mod 32)"]
  by (auto simp: decay_int_def intro!: zdiv_mono1 mult_right_mono)

lemma contrib_eq_int: "uint (compute_runnable_contrib n) = contrib_int (uint n)"
proof -
  define N where "N = unat n"
  have N: "unat n = N" "uint n = int N" by (simp_all add: N_def)
  consider "N \<le> 32" | "N \<ge> 345" | "32 < N" "N < 345" by linarith
  then show ?thesis
  proof cases
    case 1
    then show ?thesis
      by (simp add: compute_runnable_contrib_def contrib_int_def LOAD_AVG_PERIOD_def yN_sum_nth N)
  next
    case 2
    then show ?thesis
      by (simp add: compute_runnable_contrib_def contrib_int_def LOAD_AVG_PERIOD_def LOAD_AVG_MAX_N_def LOAD_AVG_MAX_def N)
  next
    case 3
    obtain m c where mc: "contrib_loop N 0 = (m, c)" by force
    then have l: "contrib_loop_int (int N) 0 = (int m, uint c)" "uint c \<le> 46742" "m \<le> 32"
      using contrib_loop_int_eq [of 0 N] by simp_all
    have m: "uint (of_nat m :: u64) = int m" using l(3) by (simp add: unsigned_of_nat take_bit_nat_eq_self)
    have c: "uint (ucast c :: u64) = uint c" using l(2) by (simp add: unsigned_ucast_eq take_bit_int_eq_self)
    have d: "uint (decay_load (ucast c) (of_nat m)) = decay_int (uint c) (int m)"
      using decay_load_int [of "ucast c" "of_nat m"] l c m by simp
    have "decay_int (uint c) (int m) \<le> 46742" "0 \<le> decay_int (uint c) (int m)"
      using decay_int_le [of "uint c" "int m"] l by auto
    then have d32: "uint (ucast (decay_load (ucast c) (of_nat m)) :: u32) = decay_int (uint c) (int m)"
      using d by (simp add: unsigned_ucast_eq take_bit_int_eq_self)
    have "yN_sum ! m \<le> 23371 \<and> 0 \<le> yN_sum ! m"
    proof -
      have "list_all (\<lambda>x. 0 \<le> x \<and> x \<le> 23371) yN_sum" by (simp add: yN_sum_def)
      moreover have "length yN_sum = 33" by (simp add: yN_sum_def)
      ultimately show ?thesis using l(3) by (simp add: list_all_length)
    qed
    then show ?thesis
      using 3 mc l d32 \<open>decay_int (uint c) (int m) \<le> 46742\<close> \<open>0 \<le> decay_int (uint c) (int m)\<close>
      by (simp add: compute_runnable_contrib_def contrib_int_def LOAD_AVG_PERIOD_def LOAD_AVG_MAX_N_def N
          uint_word_ariths yN_sum_nth)
  qed
qed

section \<open>The bound on the averages\<close>

text \<open>An average after a full period is at most 47 \<cdot> 1024 when it was at most 48 \<cdot> 1024, however many periods
  passed.\<close>

lemma full_periods_small:
  assumes "0 \<le> n" and "n < 345"
  shows "decay_int 49152 (n + 1) + contrib_int n \<le> 48128"
proof -
  have "list_all (\<lambda>n. decay_int 49152 (n + 1) + contrib_int n \<le> 48128) [0..344]"
    by code_simp
  then show ?thesis using assms by (simp add: list_all_iff)
qed

lemma full_periods:
  assumes "0 \<le> v" and "v \<le> 49152" and "0 \<le> n"
  shows "decay_int v (n + 1) + contrib_int n \<le> 48128"
proof (cases "n < 345")
  case True
  then show ?thesis using full_periods_small [of n] decay_int_mono [OF assms(1,2), of "n + 1"] assms(3) by linarith
next
  case False
  define k where "k = nat ((n + 1) div 32)"
  have "10 \<le> (n + 1) div 32" using False zdiv_mono1 [of 346 "n + 1" 32] by simp
  then have k: "10 \<le> k" by (simp add: k_def)
  have "v div 2 ^ k \<le> 49152 div 2 ^ 10"
    using zdiv_mono1 [of v 49152 "2 ^ k"] zdiv_mono2 [of 49152 "2 ^ 10" "2 ^ k"] assms power_increasing [OF k, of "2 :: int"]
    by simp
  then have d: "v div 2 ^ k \<le> 48" by simp
  have nonneg: "0 \<le> v div 2 ^ k" using assms(1) by (simp add: pos_imp_zdiv_nonneg_iff)
  have i: "0 \<le> yN_inv ! nat ((n + 1) mod 32)" "yN_inv ! nat ((n + 1) mod 32) < 4294967296"
    using yN_inv_range [of "nat ((n + 1) mod 32)"] by simp_all
  have "decay_int v (n + 1) = (v div 2 ^ k) * (yN_inv ! nat ((n + 1) mod 32)) div 4294967296"
    using False by (simp add: decay_int_def k_def)
  also have "\<dots> \<le> (48 * 4294967296) div 4294967296"
    using d nonneg i by (intro zdiv_mono1 mult_mono) simp_all
  finally show ?thesis using False by (simp add: contrib_int_def)
qed

lemma contrib_int_nonneg: "0 \<le> n \<Longrightarrow> 0 \<le> contrib_int n"
proof -
  assume "0 \<le> n"
  show ?thesis
  proof (cases "n < 2 ^ 64")
    case True
    then have "n = uint (word_of_int n :: u64)" using \<open>0 \<le> n\<close> by (simp add: unsigned_of_int take_bit_int_eq_self)
    then show ?thesis using contrib_eq_int [of "word_of_int n"] by (metis unsigned_greater_eq)
  qed (simp add: contrib_int_def)
qed

lemma decay_load_32:
  assumes "uint (x :: u32) \<le> 49152"
  shows "uint (ucast (decay_load (ucast x) m) :: u32) = (if uint m \<le> 2016 then decay_int (uint x) (uint m) else 0)"
proof (cases "uint m \<le> 2016")
  case True
  have x: "uint (ucast x :: u64) = uint x" using assms by (simp add: unsigned_ucast_eq take_bit_int_eq_self)
  then have "uint (decay_load (ucast x) m) = decay_int (uint x) (uint m)"
    using decay_load_int [of "ucast x" m] True assms by simp
  moreover have "0 \<le> decay_int (uint x) (uint m) \<and> decay_int (uint x) (uint m) \<le> uint x" by (simp add: decay_int_le)
  ultimately show ?thesis using True assms by (simp add: unsigned_ucast_eq take_bit_int_eq_self)
next
  case False
  then have "int (unat m) > 2016" by simp
  then have "unat m > 2016" by linarith
  then show ?thesis using False by (simp add: decay_load_gone)
qed

definition avg_ok :: "sched_avg \<Rightarrow> bool" where
  "avg_ok sa \<longleftrightarrow> runnable_avg_sum sa \<le> runnable_avg_period sa \<and> runnable_avg_period sa < 48 * 1024"

lemma avg_ok_uint: "avg_ok sa \<longleftrightarrow> uint (runnable_avg_sum sa) \<le> uint (runnable_avg_period sa) \<and> uint (runnable_avg_period sa) < 49152"
  by (simp add: avg_ok_def word_le_def word_less_def)

lemma uint_add_small: "uint a + uint b < 2 ^ 32 \<Longrightarrow> uint (a + b) = uint a + uint (b :: u32)"
  by (simp add: uint_word_ariths)

text \<open>Accruing the same amount to the period, and to the sum when the entity is runnable.\<close>

lemma accrue_ok:
  assumes "uint su \<le> uint pe" and "uint pe + uint x < 2 ^ 32"
  shows "uint (if r then su + x else su) \<le> uint (pe + x)" "uint (pe + x) = uint pe + uint (x :: u32)"
proof -
  have "0 \<le> uint x" by simp
  then have "uint (su + x) = uint su + uint x" "uint (pe + x) = uint pe + uint x"
    using assms uint_add_small [of pe x] uint_add_small [of su x] by linarith+
  then show "uint (if r then su + x else su) \<le> uint (pe + x)" "uint (pe + x) = uint pe + uint x"
    using assms(1) \<open>0 \<le> uint x\<close> by (auto intro: order_trans)
qed

lemma decay_ok:
  assumes "uint (su :: u32) \<le> uint (pe :: u32)" and "uint pe \<le> 49152"
  shows "uint (ucast (decay_load (ucast su) m) :: u32) \<le> uint (ucast (decay_load (ucast pe) m) :: u32)"
    and "uint m = n + 1 \<Longrightarrow> 0 \<le> n \<Longrightarrow> uint (ucast (decay_load (ucast pe) m) :: u32) + contrib_int n \<le> 48128"
proof -
  show "uint (ucast (decay_load (ucast su) m) :: u32) \<le> uint (ucast (decay_load (ucast pe) m) :: u32)"
    using decay_load_32 [OF order_trans [OF assms]] decay_load_32 [OF assms(2)] assms(1)
      decay_int_mono [of "uint su" "uint pe" "uint m"] by simp
  show "uint (ucast (decay_load (ucast pe) m) :: u32) + contrib_int n \<le> 48128" if "uint m = n + 1" "0 \<le> n"
    using assms(2) that full_periods [of "uint pe" n] decay_int_le [of "uint pe" "n + 1"] by (simp add: decay_load_32)
qed

lemma update_entity_runnable_avg_ok:
  assumes "avg_ok sa"
  shows "avg_ok (snd (update_entity_runnable_avg now sa runnable))"
proof -
  define d where "d = drop_bit 10 (now - last_runnable_update sa)"
  define pe where "pe = runnable_avg_period sa"
  define su where "su = runnable_avg_sum sa"
  define w where "w = pe mod 1024"
  have ok: "uint su \<le> uint pe" "uint pe < 49152" using assms by (simp_all add: avg_ok_uint pe_def su_def)
  have w: "uint w = uint pe mod 1024" by (simp add: w_def uint_mod)
  have q: "uint pe div 1024 \<le> 47" "uint pe = 1024 * (uint pe div 1024) + uint pe mod 1024"
    using zdiv_mono1 [of "uint pe" 49151 1024] ok(2) by simp_all
  have dlt: "uint d < 18014398509481984" using uint_lt2p [of "now - last_runnable_update sa"]
    by (simp only: d_def uint_drop_bit) simp
  have wd: "uint (ucast w :: u64) = uint w" using w by (simp add: unsigned_ucast_eq take_bit_int_eq_self)
  have sum: "uint (d + ucast w) = uint d + uint w" using dlt w wd by (simp add: uint_word_ariths)
  show ?thesis
  proof (cases "d + ucast w \<ge> 1024")
    case False
    then have lt: "uint d + uint w < 1024" using sum by (simp add: word_le_def)
    have ud: "uint (ucast d :: u32) = uint d" using lt w by (simp add: unsigned_ucast_eq take_bit_int_eq_self)
    have "uint pe + uint d < 49152" using lt w ok(2) q by linarith
    then have "avg_ok (sa\<lparr>last_runnable_update := now,
        runnable_avg_sum := (if runnable then su + ucast d else su), runnable_avg_period := pe + ucast d\<rparr>)"
      using accrue_ok(1) [of su pe "ucast d" runnable] accrue_ok(2) [of su pe "ucast d"] ok ud by (simp add: avg_ok_uint)
    then show ?thesis
      using False assms
      by (cases runnable; simp add: update_entity_runnable_avg_def Let_def d_def pe_def su_def w_def avg_ok_def)
  next
    case True
    define w1 where "w1 = 1024 - w"
    have w1: "uint w1 = 1024 - uint w" using w by (simp add: w1_def uint_word_ariths)
    define pe2 where "pe2 = pe + w1"
    define su2 where "su2 = (if runnable then su + w1 else su)"
    have p2: "uint pe2 \<le> 49152" "uint su2 \<le> uint pe2"
    proof -
      have e: "uint pe2 = uint pe + uint w1" using accrue_ok(2) [of su pe w1] ok w1 w by (simp add: pe2_def)
      then show "uint pe2 \<le> 49152" using w1 w q by linarith
      show "uint su2 \<le> uint pe2" unfolding su2_def pe2_def using accrue_ok(1) [of su pe w1 runnable] ok w1 w by simp
    qed
    define d1 where "d1 = d - ucast w1"
    define n where "n = d1 div 1024"
    have d1: "uint d1 \<le> uint d"
    proof -
      have "uint (ucast w1 :: u64) = uint w1" using w1 w by (simp add: unsigned_ucast_eq take_bit_int_eq_self)
      moreover have "uint w1 \<le> uint d" using True sum w1 by (simp add: word_le_def)
      moreover have "0 \<le> uint w1" by simp
      moreover from this have "uint d - uint w1 < 18446744073709551616" using dlt by linarith
      ultimately have "uint d1 = uint d - uint w1" by (simp add: d1_def uint_word_ariths)
      then show ?thesis using \<open>0 \<le> uint w1\<close> by linarith
    qed
    have n: "uint (n + 1) = uint n + 1"
    proof -
      have "uint d1 div 1024 \<le> uint d1" using zdiv_mono2 [of "uint d1" 1 1024] by simp
      then have "0 \<le> uint d1 div 1024 + 1" "uint d1 div 1024 + 1 < 18446744073709551616"
        using d1 dlt by (simp_all add: pos_imp_zdiv_nonneg_iff)
      then show ?thesis by (simp add: n_def uint_word_ariths uint_div)
    qed
    define pe3 where "pe3 = (ucast (decay_load (ucast pe2) (n + 1)) :: u32)"
    define su3 where "su3 = (ucast (decay_load (ucast su2) (n + 1)) :: u32)"
    have p3: "uint su3 \<le> uint pe3" "uint pe3 + uint (compute_runnable_contrib n) \<le> 48128"
      unfolding su3_def pe3_def contrib_eq_int using decay_ok(1) [OF p2(2,1), of "n + 1"] decay_ok(2) [OF p2(2,1), of "n + 1" "uint n"] n by simp_all
    define c where "c = compute_runnable_contrib n"
    define pe4 where "pe4 = pe3 + c"
    define su4 where "su4 = (if runnable then su3 + c else su3)"
    have p4: "uint su4 \<le> uint pe4" "uint pe4 \<le> 48128"
      unfolding su4_def pe4_def using accrue_ok(1) [of su3 pe3 c runnable] accrue_ok(2) [of su3 pe3 c] p3 by (simp_all add: c_def)
    define r where "r = (ucast (d1 mod 1024) :: u32)"
    have r: "uint r < 1024"
    proof -
      have "uint (d1 mod 1024) < 1024" by (simp add: uint_mod)
      then show ?thesis by (simp add: r_def unsigned_ucast_eq take_bit_int_eq_self)
    qed
    have "uint (if runnable then su4 + r else su4) \<le> uint (pe4 + r)" "uint (pe4 + r) < 49152"
      using accrue_ok(1) [of su4 pe4 r runnable] accrue_ok(2) [of su4 pe4 r] p4 r by simp_all
    then have "avg_ok (sa\<lparr>last_runnable_update := now, runnable_avg_sum := (if runnable then su4 + r else su4),
        runnable_avg_period := pe4 + r\<rparr>)" by (simp add: avg_ok_uint)
    moreover have "snd (update_entity_runnable_avg now sa runnable) =
        (if sint (now - last_runnable_update sa) < 0 then sa\<lparr>last_runnable_update := now\<rparr>
         else if d = 0 then sa
         else sa\<lparr>last_runnable_update := now, runnable_avg_sum := (if runnable then su4 + r else su4),
           runnable_avg_period := pe4 + r\<rparr>)"
      using True unfolding update_entity_runnable_avg_def Let_def
      by (simp add: d_def [symmetric] pe_def [symmetric] su_def [symmetric])
        (simp add: w_def [symmetric] w1_def [symmetric] d1_def [symmetric] n_def [symmetric] r_def c_def su4_def pe4_def su3_def pe3_def su2_def pe2_def)
    ultimately show ?thesis using assms by (simp add: avg_ok_def)
  qed
qed


section \<open>Contributions\<close>

lemma task_contrib_exact:
  assumes "avg_ok (avg_of s e)" and "uint (weight (e_load (ent_of s e))) \<le> 87381"
  shows "uint (load_avg_contrib (avg_of (update_task_entity_contrib e s) e)) =
     uint (runnable_avg_sum (avg_of s e)) * uint (weight (e_load (ent_of s e))) div (uint (runnable_avg_period (avg_of s e)) + 1)"
proof -
  define su where "su = runnable_avg_sum (avg_of s e)"
  define pe where "pe = runnable_avg_period (avg_of s e)"
  define w where "w = weight (e_load (ent_of s e))"
  have ok: "uint su \<le> uint pe" "uint pe < 49152" "uint w \<le> 87381"
    using assms by (simp_all add: avg_ok_uint su_def pe_def w_def)
  have su: "uint (ucast su :: u64) = uint su" using ok by (simp add: unsigned_ucast_eq take_bit_int_eq_self)
  have p: "uint su * uint w \<le> 49151 * 87381" using ok by (intro mult_mono) simp_all
  then have m: "uint (ucast su * w) = uint su * uint w" using su by (simp add: uint_word_ariths)
  have c: "uint (ucast (ucast su * w) :: u32) = uint su * uint w"
    using m p by (simp add: unsigned_ucast_eq take_bit_int_eq_self)
  have pe1: "uint (pe + 1) = uint pe + 1" using ok by (simp add: uint_word_ariths)
  have "uint su * uint w div (uint pe + 1) \<le> uint su * uint w" using zdiv_mono2 [of "uint su * uint w" 1 "uint pe + 1"] by simp
  then have "uint (ucast ((ucast (ucast su * w) :: u32) div (pe + 1)) :: u64) = uint su * uint w div (uint pe + 1)"
    using c pe1 p by (simp add: unsigned_ucast_eq take_bit_int_eq_self uint_div pos_imp_zdiv_nonneg_iff)
  then show ?thesis
    by (simp add: update_task_entity_contrib_def upd_avg_def Let_def scale_load_def scale_load_down_def su_def pe_def w_def)
qed

section \<open>The load of a group\<close>

text \<open>What the load of a group is made of: for each run queue its group and its contribution, and the load.\<close>

definition load_view :: "'y grp \<Rightarrow> (nat \<Rightarrow> nat \<times> u64) \<times> (nat \<Rightarrow> u64)" where
  "load_view s = (\<lambda>c. (g_tg (cfs_of s c), tg_load_contrib (cfs_of s c)), \<lambda>g. t_load_avg (tg_of s g))"

named_theorems keeps_load \<open>operations that change neither the load of a group nor its parts\<close>

lemma upd_keeps_load [keeps_load]:
  "load_view (upd_ent e f s) = load_view s" "load_view (upd_rq r h s) = load_view s"
  "load_view (upd_avg e k s) = load_view s"
  by (simp_all add: load_view_def upd_avg_def)

lemma upd_cfs_keeps_load:
  "(\<And>q. g_tg (f q) = g_tg q) \<Longrightarrow> (\<And>q. tg_load_contrib (f q) = tg_load_contrib q) \<Longrightarrow> load_view (upd_cfs c f s) = load_view s"
  by (auto simp: load_view_def fun_eq_iff)

lemma upd_tg_keeps_load:
  "(\<And>q. t_load_avg (f q) = t_load_avg q) \<Longrightarrow> load_view (upd_tg g f s) = load_view s"
  by (auto simp: load_view_def fun_eq_iff)

lemma contrib_keeps_load [keeps_load]:
  "load_view (subtract_blocked_load_contrib c l s) = load_view s"
  "load_view (update_tg_runnable_avg sa c s) = load_view s"
  "load_view (update_group_entity_contrib e c s) = load_view s"
  "load_view (update_task_entity_contrib e s) = load_view s"
  by (simp_all add: subtract_blocked_load_contrib_def update_tg_runnable_avg_def update_group_entity_contrib_def
      update_task_entity_contrib_def Let_def keeps_load upd_cfs_keeps_load upd_tg_keeps_load)

lemma entity_keeps_load [keeps_load]:
  "load_view (snd (update_entity_load_avg_contrib e s)) = load_view s"
  "load_view (update_entity_load_avg e b s) = load_view s"
  "load_view (snd (synchronize_entity_decay e s)) = load_view s"
  by (simp_all add: update_entity_load_avg_contrib_def update_entity_load_avg_def synchronize_entity_decay_def
      Let_def case_prod_beta keeps_load upd_cfs_keeps_load split: option.splits)

lemma rq_keeps_load [keeps_load]:
  "load_view (update_rq_runnable_avg cpu b s) = load_view s"
  "load_view (migrate_task_rq_fair e s) = load_view s"
  "load_view (switched_from_fair_load e s) = load_view s"
  "load_view (list_del_leaf_cfs_rq c s) = load_view s"
  by (simp_all add: update_rq_runnable_avg_def migrate_task_rq_fair_def switched_from_fair_load_def list_del_leaf_cfs_rq_def
      Let_def case_prod_beta keeps_load upd_cfs_keeps_load)

text \<open>The run queues of group \<open>g\<close> are \<open>cs\<close> and its load is the sum of what they contribute.\<close>

definition load_ok :: "nat \<Rightarrow> nat list \<Rightarrow> (nat \<Rightarrow> nat \<times> u64) \<times> (nat \<Rightarrow> u64) \<Rightarrow> bool" where
  "load_ok g cs v \<longleftrightarrow> (\<forall>c. fst (fst v c) = g \<longleftrightarrow> c \<in> set cs) \<and> snd v g = sum_list (map (\<lambda>c. snd (fst v c)) cs)"

lemma sum_list_upd:
  assumes "distinct cs" and "c \<in> set cs"
  shows "sum_list (map (f(c := f c + x)) cs) = sum_list (map f cs) + (x :: u64)"
  using assms by (induction cs) (auto simp: fun_upd_def intro!: arg_cong [where f = sum_list] split: if_splits)

lemma tg_load_contrib_ok:
  assumes "load_ok g cs (load_view s)" and "distinct cs"
  shows "load_ok g cs (load_view (update_cfs_rq_tg_load_contrib c force s))"
proof -
  define x where "x = runnable_load_avg (cfs_of s c) + blocked_load_avg (cfs_of s c) - tg_load_contrib (cfs_of s c)"
  define f where "f = (\<lambda>c. tg_load_contrib (cfs_of s c))"
  have mem: "g_tg (cfs_of s d) = g \<longleftrightarrow> d \<in> set cs" for d using assms(1) by (simp add: load_ok_def load_view_def)
  have sum: "t_load_avg (tg_of s g) = sum_list (map f cs)" using assms(1) by (simp add: load_ok_def load_view_def f_def)
  define t where "t = upd_cfs c (tg_load_contrib_update (\<lambda>y. y + x)) (upd_tg (g_tg (cfs_of s c)) (t_load_avg_update (\<lambda>y. y + x)) s)"
  have t: "(\<lambda>d. tg_load_contrib (cfs_of t d)) = f(c := f c + x)" by (auto simp: t_def f_def)
  have "load_ok g cs (load_view t)"
  proof (cases "c \<in> set cs")
    case True
    then have "g_tg (cfs_of s c) = g" by (simp add: mem)
    then have "t_load_avg (tg_of t g) = sum_list (map f cs) + x" using sum by (simp add: t_def)
    moreover have "g_tg (cfs_of t d) = g \<longleftrightarrow> d \<in> set cs" for d using mem by (simp add: t_def)
    ultimately show ?thesis
      using sum_list_upd [OF assms(2) True, of f x] t by (simp add: load_ok_def load_view_def)
  next
    case False
    then have "t_load_avg (tg_of t g) = sum_list (map f cs)" using sum mem [of c] by (simp add: t_def)
    moreover have "g_tg (cfs_of t d) = g \<longleftrightarrow> d \<in> set cs" for d using mem by (simp add: t_def)
    moreover have "sum_list (map (f(c := f c + x)) cs) = sum_list (map f cs)"
      using False by (intro arg_cong [where f = sum_list] map_cong) auto
    ultimately show ?thesis using t by (simp add: load_ok_def load_view_def)
  qed
  then show ?thesis
    using assms(1) by (simp add: update_cfs_rq_tg_load_contrib_def Let_def t_def x_def)
qed

text \<open>The operations of load tracking, in any order.\<close>

inductive pelt_step :: "'y grp \<Rightarrow> 'y grp \<Rightarrow> bool" where
  enqueue: "pelt_step s (enqueue_entity_load_avg c e wakeup s)"
| dequeue: "pelt_step s (dequeue_entity_load_avg c e sleep s)"
| tick: "pelt_step s (update_cfs_rq_blocked_load c force (update_entity_load_avg e True s))"
| migrate: "pelt_step s (migrate_task_rq_fair e s)"
| rq_avg: "pelt_step s (update_rq_runnable_avg cpu runnable s)"
| leave: "pelt_step s (switched_from_fair_load e s)"
| blocked: "pelt_step s (update_blocked_averages_cpu g cpu s)"
| time_passes: "pelt_step s (upd_rq cpu (q_clock_task_update (\<lambda>_. t)) s)"

lemma blocked_load_ok:
  assumes "load_ok g cs (load_view s)" and "distinct cs"
  shows "load_ok g cs (load_view (update_cfs_rq_blocked_load c force s))"
  using assms
  by (auto simp: update_cfs_rq_blocked_load_def Let_def keeps_load upd_cfs_keeps_load intro!: tg_load_contrib_ok)

lemma pelt_step_load_ok:
  assumes "pelt_step s t" and "load_ok g cs (load_view s)" and "distinct cs"
  shows "load_ok g cs (load_view t)"
  using assms
proof (induction rule: pelt_step.induct)
  case (enqueue s c e wakeup)
  then show ?case
    by (simp add: enqueue_entity_load_avg_def Let_def case_prod_beta keeps_load upd_cfs_keeps_load blocked_load_ok)
next
  case (dequeue s c e sleep)
  then show ?case
    by (simp add: dequeue_entity_load_avg_def Let_def keeps_load upd_cfs_keeps_load blocked_load_ok)
next
  case (blocked s h cpu)
  then show ?case
    by (simp add: update_blocked_averages_cpu_def Let_def keeps_load blocked_load_ok split: option.splits)
qed (simp_all add: keeps_load blocked_load_ok)

section \<open>Properties\<close>

text \<open>C19: The runnable average of an entity stays in range.  From a fresh average, whatever the times and the
  states at which it is updated, the time it was runnable is at most the time that was tracked, and that is less than
  48 \<cdot> 1024; no 32-bit counter wraps.\<close>

theorem runnable_avg_bounded:
  "avg_ok (fold (\<lambda>(now, runnable) sa. snd (update_entity_runnable_avg now sa runnable)) updates
     \<lparr>runnable_avg_sum = 0, runnable_avg_period = 0, last_runnable_update = t0, decay_count = 0, load_avg_contrib = 0\<rparr>)"
proof -
  have "avg_ok sa \<Longrightarrow> avg_ok (fold (\<lambda>(now, runnable) sa. snd (update_entity_runnable_avg now sa runnable)) us sa)" for us sa
    by (induction us arbitrary: sa) (simp_all add: case_prod_beta update_entity_runnable_avg_ok)
  then show ?thesis by (simp add: avg_ok_def)
qed

text \<open>The contribution of a task to the load of its run queue.  With an average in range and any nice value but
  the strongest, the 32-bit product does not overflow: the contribution is the weight scaled by the part of the time
  that the task was runnable, rounded down, and so never more than the weight.\<close>

theorem task_contribution_exact:
  assumes "avg_ok (avg_of s e)" and "weight (e_load (ent_of s e)) \<in> set (tl prio_to_weight)"
  shows "let contrib = uint (load_avg_contrib (avg_of (update_task_entity_contrib e s) e));
             sum = uint (runnable_avg_sum (avg_of s e)); period = uint (runnable_avg_period (avg_of s e));
             w = uint (weight (e_load (ent_of s e)))
         in contrib = sum * w div (period + 1) \<and> contrib \<le> w"
proof -
  define w where "w = uint (weight (e_load (ent_of s e)))"
  define su where "su = uint (runnable_avg_sum (avg_of s e))"
  define pe where "pe = uint (runnable_avg_period (avg_of s e))"
  have "list_all (\<lambda>v. uint v \<le> 87381) (tl prio_to_weight)" by (simp add: prio_to_weight_def)
  then have w: "w \<le> 87381" using assms(2) by (simp add: list_all_iff w_def)
  have "su \<le> pe" using assms(1) by (simp add: avg_ok_uint su_def pe_def)
  then have "su * w \<le> w * (pe + 1)" by (simp add: w_def su_def pe_def mult.commute mult_left_mono)
  then have "su * w div (pe + 1) \<le> w * (pe + 1) div (pe + 1)" by (intro zdiv_mono1) (simp_all add: pe_def add_nonneg_pos)
  moreover have "0 \<le> pe" by (simp add: pe_def)
  moreover from this have "pe + 1 \<noteq> 0" by linarith
  ultimately have "su * w div (pe + 1) \<le> w" by simp
  then show ?thesis
    using task_contrib_exact [OF assms(1)] w by (simp add: Let_def su_def pe_def w_def)
qed

text \<open>An entity that was runnable for two thirds of a short life, at nice 0.\<close>

definition sample_grp :: "unit grp" where
  "sample_grp = \<lparr>cfs_of = (\<lambda>c. \<lparr>g_load = \<lparr>weight = 0, inv_weight = 0\<rparr>, g_nr_running = 0, g_h_nr_running = 0, g_min_vruntime = 0,
       g_curr = None, runnable_load_avg = 0, blocked_load_avg = 0, decay_counter = 1, removed_load = 0, last_decay = 0,
       tg_runnable_contrib = 0, tg_load_contrib = (if c = 0 then 5 else if c = 1 then 7 else 0), h_load = 0, g_rq = c, on_list = False,
       g_tg = (if c < 2 then 0 else 1), runtime_enabled = False, runtime_expires = 0, runtime_remaining = 0, throttled_clock = 0,
       throttled_clock_task = 0, throttled_clock_task_time = 0, throttled = False, throttle_count = 0\<rparr>),
     tg_of = (\<lambda>g. \<lparr>t_se = (\<lambda>_. None), t_cfs_rq = (\<lambda>c. c), shares = 1024, t_load_avg = 12, t_runnable_avg = 0,
       t_rt_bandwidth = \<lparr>rt_period = 0, rt_runtime = 0\<rparr>, t_rt_rq = (\<lambda>_. 0), t_parent = None, t_children = [],
       t_cfs_bandwidth = \<lparr>b_period = 0, quota = 0, b_runtime = 0, hierarchal_quota = 0, b_runtime_expires = 0, b_idle = False,
         timer_active = False, throttled_cfs_rq = [], nr_periods = 0, nr_throttled = 0, throttled_time = 0\<rparr>\<rparr>),
     ent_of = (\<lambda>e. \<lparr>e_load = \<lparr>weight = 1024, inv_weight = 0\<rparr>, e_on_rq = True, e_vruntime = 0,
       e_avg = \<lparr>runnable_avg_sum = 2000, runnable_avg_period = 2999, last_runnable_update = 0, decay_count = 0, load_avg_contrib = 0\<rparr>,
       e_parent = None, e_cfs_rq = 0, e_my_q = None\<rparr>),
     cpu_rq = (\<lambda>c. \<lparr>q_nr_running = 0, q_load = \<lparr>weight = 0, inv_weight = 0\<rparr>, q_clock = 0, q_clock_task = 0, q_cfs = 0,
       q_leaf_cfs_rq_list = [], q_cfs_tasks = [], q_avg = \<lparr>runnable_avg_sum = 0, runnable_avg_period = 0, last_runnable_update = 0, decay_count = 0,
       load_avg_contrib = 0\<rparr>, q_curr = 0, q_idle = 0, h_load_throttle = 0\<rparr>),
     cfs_bandwidth_slice = 5000, g_resched = (\<lambda>_. False), g_jiffies = 0, elsewhere = ()\<rparr>"

lemma sample_grp_entity:
  "avg_of sample_grp e = \<lparr>runnable_avg_sum = 2000, runnable_avg_period = 2999, last_runnable_update = 0, decay_count = 0, load_avg_contrib = 0\<rparr>"
  "weight (e_load (ent_of sample_grp e)) = 1024"
  by (simp_all add: sample_grp_def)

theorem task_contribution_exact_witness:
  "load_avg_contrib (avg_of (update_task_entity_contrib 4 sample_grp) 4) = 682"
proof -
  have "uint (load_avg_contrib (avg_of (update_task_entity_contrib 4 sample_grp) 4)) = 682"
    using task_contribution_exact [of sample_grp 4] by (simp add: sample_grp_entity avg_ok_def prio_to_weight_def Let_def)
  then show ?thesis by (simp add: word_uint_eq_iff)
qed

text \<open>The product overflows at nice -20.  A fresh entity that then waits, runnable, for 364 milliseconds and is
  updated once has the sum 48765, because a gap of 345 periods or more counts \<open>LOAD_AVG_MAX\<close>, which includes the
  current period, and the current period is added again.  48765 times the weight 88761 does not fit in 32 bits, and the
  contribution of the strongest task on the machine is 686 instead of 88759.\<close>

theorem strongest_task_contribution_overflows:
  "let sa = snd (update_entity_runnable_avg (1024 * (1024 + 345 * 1024 + 1023))
         \<lparr>runnable_avg_sum = 0, runnable_avg_period = 0, last_runnable_update = 0, decay_count = 0, load_avg_contrib = 0\<rparr> True);
       s1 = upd_ent e (\<lambda>en. en\<lparr>e_avg := sa, e_load := \<lparr>weight = prio_to_weight ! 0, inv_weight = 0\<rparr>\<rparr>) s
   in runnable_avg_sum sa = 48765 \<and> runnable_avg_period sa = 48765
      \<and> load_avg_contrib (avg_of (update_task_entity_contrib e s1) e) = 686"
  by (simp add: update_entity_runnable_avg_def compute_runnable_contrib_def decay_load_def LOAD_AVG_PERIOD_def LOAD_AVG_MAX_N_def
      LOAD_AVG_MAX_def runnable_avg_yN_inv_def update_task_entity_contrib_def upd_avg_def scale_load_def scale_load_down_def
      prio_to_weight_def Let_def)

text \<open>C18: The load of a task group is the sum of what its run queues contributed.  Queueing, dequeueing, ticks,
  migration and the decay of blocked load, in any order and on any processor, keep the two equal.\<close>

theorem group_load_is_sum:
  assumes "pelt_step\<^sup>*\<^sup>* s t" and "distinct cs" and "\<forall>c. g_tg (cfs_of s c) = g \<longleftrightarrow> c \<in> set cs"
    and "t_load_avg (tg_of s g) = sum_list (map (\<lambda>c. tg_load_contrib (cfs_of s c)) cs)"
  shows "t_load_avg (tg_of t g) = sum_list (map (\<lambda>c. tg_load_contrib (cfs_of t c)) cs)"
proof -
  have "load_ok g cs (load_view t)"
    using assms(1)
  proof (induction rule: rtranclp_induct)
    case base
    then show ?case using assms(3,4) by (simp add: load_ok_def load_view_def)
  next
    case (step u v)
    then show ?case using pelt_step_load_ok assms(2) by blast
  qed
  then show ?thesis by (simp add: load_ok_def load_view_def)
qed

theorem group_load_is_sum_witness:
  "let t = dequeue_entity_load_avg 1 4 True (enqueue_entity_load_avg 0 4 True sample_grp)
   in t_load_avg (tg_of t 0) = tg_load_contrib (cfs_of t 0) + tg_load_contrib (cfs_of t 1)"
proof -
  have "pelt_step\<^sup>*\<^sup>* sample_grp (dequeue_entity_load_avg 1 4 True (enqueue_entity_load_avg 0 4 True sample_grp))"
    by (meson pelt_step.enqueue pelt_step.dequeue rtranclp.rtrancl_refl rtranclp.rtrancl_into_rtrancl)
  moreover have "\<forall>c. g_tg (cfs_of sample_grp c) = 0 \<longleftrightarrow> c \<in> set [0, 1]" by (auto simp: sample_grp_def)
  moreover have "t_load_avg (tg_of sample_grp 0) = sum_list (map (\<lambda>c. tg_load_contrib (cfs_of sample_grp c)) [0, 1])"
    by (simp add: sample_grp_def)
  ultimately show ?thesis using group_load_is_sum [of sample_grp _ "[0, 1]" 0] by (simp add: Let_def)
qed

end
