(* ===== verification/Sched_Shares.thy ===== *)
theory Sched_Shares
  imports Sched_Pelt
begin

text \<open>
  Shares of task groups: the weight that a group's entity gets on each processor, in \<open>kernel/sched/fair.c\<close>, and the
  control file that sets it, in \<open>kernel/sched/core.c\<close>.

  The operations on the entities of a run queue (\<open>update_curr\<close>, \<open>enqueue_entity\<close>, \<open>dequeue_entity\<close>), modelled on
  one run queue in \<open>Sched_Fair\<close>, are here the record \<open>ent_ops\<close>; \<open>update_rq_clock\<close> advances the clock of a processor.
  What the code of this level relies on is the locale \<open>entity_level\<close> of \<open>Sched_Shares_Props\<close>.
\<close>

section \<open>Operations on entities\<close>

record 'y ent_ops =
  op_update_curr :: "nat \<Rightarrow> 'y grp \<Rightarrow> 'y grp"
  op_enqueue_entity :: "nat \<Rightarrow> nat \<Rightarrow> int \<Rightarrow> 'y grp \<Rightarrow> 'y grp"
  op_dequeue_entity :: "nat \<Rightarrow> nat \<Rightarrow> int \<Rightarrow> 'y grp \<Rightarrow> 'y grp"
  op_update_rq_clock :: "nat \<Rightarrow> 'y grp \<Rightarrow> 'y grp"

definition group_entity_enqueue :: "nat \<Rightarrow> nat \<Rightarrow> 'y grp \<Rightarrow> 'y grp" where
  "group_entity_enqueue c e s =
     (let en = ent_of s e; w = weight (e_load en); cpu = g_rq (cfs_of s c);
          s1 = upd_cfs c (\<lambda>q. q\<lparr>g_load := update_load_add w (g_load q)\<rparr>) s;
          s2 = (if e_parent en = None then upd_rq cpu (q_load_update (update_load_add w)) s1 else s1);
          s3 = (if entity_is_task en then upd_rq cpu (q_cfs_tasks_update (\<lambda>l. e # l)) s2 else s2)
      in upd_cfs c (g_nr_running_update (\<lambda>n. n + 1)) s3)"

definition group_entity_dequeue :: "nat \<Rightarrow> nat \<Rightarrow> 'y grp \<Rightarrow> 'y grp" where
  "group_entity_dequeue c e s =
     (let en = ent_of s e; w = weight (e_load en); cpu = g_rq (cfs_of s c);
          s1 = upd_cfs c (\<lambda>q. q\<lparr>g_load := update_load_sub w (g_load q)\<rparr>) s;
          s2 = (if e_parent en = None then upd_rq cpu (q_load_update (update_load_sub w)) s1 else s1);
          s3 = (if entity_is_task en then upd_rq cpu (q_cfs_tasks_update (remove1 e)) s2 else s2)
      in upd_cfs c (g_nr_running_update (\<lambda>n. n - 1)) s3)"

section \<open>Shares\<close>

definition calc_tg_weight :: "tgroup \<Rightarrow> gcfs \<Rightarrow> u64" where
  "calc_tg_weight tg q = t_load_avg tg - tg_load_contrib q + weight (g_load q)"

text \<open>Signed division rounds towards zero.\<close>

definition sdiv64 :: "u64 \<Rightarrow> u64 \<Rightarrow> u64" where
  "sdiv64 a b = word_of_int (sgn (sint a * sint b) * (\<bar>sint a\<bar> div \<bar>sint b\<bar>))"

text \<open>The bounds are unsigned, so the comparisons are.\<close>

definition calc_cfs_shares :: "gcfs \<Rightarrow> tgroup \<Rightarrow> u64" where
  "calc_cfs_shares q tg =
     (let tg_weight = calc_tg_weight tg q;
          s0 = shares tg * weight (g_load q);
          s1 = (if tg_weight \<noteq> 0 then sdiv64 s0 tg_weight else s0);
          s2 = (if s1 < MIN_SHARES then MIN_SHARES else s1)
      in if s2 > shares tg then shares tg else s2)"

definition reweight_entity :: "'y ent_ops \<Rightarrow> nat \<Rightarrow> nat \<Rightarrow> u64 \<Rightarrow> 'y grp \<Rightarrow> 'y grp" where
  "reweight_entity E c e w s =
     (let s1 = (if e_on_rq (ent_of s e)
                then group_entity_dequeue c e (if g_curr (cfs_of s c) = Some e then op_update_curr E c s else s)
                else s);
          s2 = upd_ent e (e_load_update (update_load_set w)) s1
      in if e_on_rq (ent_of s2 e) then group_entity_enqueue c e s2 else s2)"

definition update_cfs_shares :: "'y ent_ops \<Rightarrow> nat \<Rightarrow> 'y grp \<Rightarrow> 'y grp" where
  "update_cfs_shares E c s =
     (let q = cfs_of s c; tg = tg_of s (g_tg q) in
      case t_se tg (g_rq q) of
        None \<Rightarrow> s
      | Some e \<Rightarrow>
          if throttled_hierarchy c s then s
          else reweight_entity E (e_cfs_rq (ent_of s e)) e (calc_cfs_shares q tg) s)"

text \<open>The chain of parents of the group's entity, bottom up; every entity on it owns a run queue.\<close>

definition propagate_shares :: "'y ent_ops \<Rightarrow> nat \<Rightarrow> nat \<Rightarrow> 'y grp \<Rightarrow> 'y grp option" where
  "propagate_shares E g cpu s =
     map_option (\<lambda>es. fold (\<lambda>e t. update_cfs_shares E (the (e_my_q (ent_of t e))) t) es s)
       (for_each_sched_entity s (t_se (tg_of s g) cpu))"

definition clamp :: "u64 \<Rightarrow> u64 \<Rightarrow> u64 \<Rightarrow> u64" where
  "clamp v lo hi = (let m = (if v < lo then lo else v) in if m > hi then hi else m)"

fun for_cpus :: "(nat \<Rightarrow> 's \<Rightarrow> 's option) \<Rightarrow> nat list \<Rightarrow> 's \<Rightarrow> 's option" where
  "for_cpus f [] s = Some s"
| "for_cpus f (i # is) s = Option.bind (f i s) (for_cpus f is)"

definition sched_group_set_shares ::
  "'y ent_ops \<Rightarrow> nat list \<Rightarrow> nat \<Rightarrow> u64 \<Rightarrow> 'y grp \<Rightarrow> (int \<times> 'y grp) option" where
  "sched_group_set_shares E cpus g sh s =
     (if t_se (tg_of s g) 0 = None then Some (- EINVAL, s)
      else
        let v = clamp sh (scale_load MIN_SHARES) (scale_load MAX_SHARES) in
        if shares (tg_of s g) = v then Some (0, s)
        else map_option (Pair 0) (for_cpus (propagate_shares E g) cpus (upd_tg g (shares_update (\<lambda>_. v)) s)))"

definition cpu_shares_write_u64 ::
  "'y ent_ops \<Rightarrow> nat list \<Rightarrow> nat \<Rightarrow> u64 \<Rightarrow> 'y grp \<Rightarrow> (int \<times> 'y grp) option" where
  "cpu_shares_write_u64 E cpus g shareval s = sched_group_set_shares E cpus g (scale_load shareval) s"

definition cpu_shares_read_u64 :: "nat \<Rightarrow> 'y grp \<Rightarrow> u64" where
  "cpu_shares_read_u64 g s = scale_load_down (shares (tg_of s g))"

end
