(* ===== verification/Sched_Bandwidth.thy ===== *)
theory Sched_Bandwidth
  imports Sched_Shares "HOL-Library.Monad_Syntax"
begin

text \<open>
  Bandwidth control of the fair class in \<open>kernel/sched/fair.c\<close> (\<open>CONFIG_CFS_BANDWIDTH\<close>).  A task group may use
  \<open>quota\<close> nanoseconds of processor time per \<open>period\<close>.  Its pool (\<open>cfs_bandwidth\<close>) is refilled by a timer; its run
  queues on the processors draw slices from the pool, give back what they do not need, and are throttled when there is
  nothing left.

  The record \<open>bw_env\<close> holds what is outside: the clock, the two high-resolution timers of a group, and the operations on
  entities.  Cancelling a timer gives up the lock of the pool, so others may act on the whole state meanwhile.  \<open>None\<close>
  stands for a loop that does not end.
\<close>

section \<open>Environment\<close>

record 'y bw_env =
  sched_clock_now :: "'y \<Rightarrow> u64"
  tick_nsec :: u64
  period_timer_active :: "nat \<Rightarrow> 'y \<Rightarrow> bool"
  period_callback_running :: "nat \<Rightarrow> 'y \<Rightarrow> bool"
  period_expires_remaining :: "nat \<Rightarrow> 'y \<Rightarrow> u64"
  period_forward :: "nat \<Rightarrow> u64 \<Rightarrow> 'y \<Rightarrow> u32 \<times> 'y"
  start_period_timer :: "nat \<Rightarrow> u64 \<Rightarrow> 'y \<Rightarrow> 'y"
  start_slack_timer :: "nat \<Rightarrow> u64 \<Rightarrow> 'y \<Rightarrow> 'y"
  cancel_period_timer :: "nat \<Rightarrow> 'y grp \<Rightarrow> 'y grp"
  cancel_slack_timer :: "nat \<Rightarrow> 'y grp \<Rightarrow> 'y grp"
  bw_ents :: "'y ent_ops"

abbreviation bw_of :: "'y grp \<Rightarrow> nat \<Rightarrow> cfs_bandwidth" where
  "bw_of s g \<equiv> t_cfs_bandwidth (tg_of s g)"

definition upd_bw :: "nat \<Rightarrow> (cfs_bandwidth \<Rightarrow> cfs_bandwidth) \<Rightarrow> 'y grp \<Rightarrow> 'y grp" where
  "upd_bw g f = upd_tg g (t_cfs_bandwidth_update f)"

definition upd_else :: "('y \<Rightarrow> 'y) \<Rightarrow> 'y grp \<Rightarrow> 'y grp" where
  "upd_else f s = s\<lparr>elsewhere := f (elsewhere s)\<rparr>"

lemma upd_else_fields [simp]:
  "cfs_of (upd_else f s) = cfs_of s" "tg_of (upd_else f s) = tg_of s" "ent_of (upd_else f s) = ent_of s"
  "cpu_rq (upd_else f s) = cpu_rq s" "cfs_bandwidth_slice (upd_else f s) = cfs_bandwidth_slice s"
  "elsewhere (upd_else f s) = f (elsewhere s)"
  by (simp_all add: upd_else_def)

lemma upd_bw_fields [simp]:
  "cfs_of (upd_bw g f s) = cfs_of s" "ent_of (upd_bw g f s) = ent_of s" "cpu_rq (upd_bw g f s) = cpu_rq s"
  "tg_of (upd_bw g f s) = (tg_of s)(g := t_cfs_bandwidth_update f (tg_of s g))"
  "cfs_bandwidth_slice (upd_bw g f s) = cfs_bandwidth_slice s"
  by (simp_all add: upd_bw_def)

section \<open>The pool\<close>

definition cfs_bandwidth_used :: bool where "cfs_bandwidth_used = True"

definition default_cfs_period :: u64 where "default_cfs_period = 100000000"

definition sched_cfs_bandwidth_slice :: "'y grp \<Rightarrow> u64" where
  "sched_cfs_bandwidth_slice s = ucast (cfs_bandwidth_slice s) * NSEC_PER_USEC"

definition refill_cfs_bandwidth_runtime :: "'y bw_env \<Rightarrow> nat \<Rightarrow> 'y grp \<Rightarrow> 'y grp" where
  "refill_cfs_bandwidth_runtime B g s =
     (if quota (bw_of s g) = RUNTIME_INF then s
      else upd_bw g (\<lambda>b. b\<lparr>b_runtime := quota b,
             b_runtime_expires := sched_clock_now B (elsewhere s) + b_period b\<rparr>) s)"

partial_function (option) start_cfs_bandwidth :: "'y bw_env \<Rightarrow> nat \<Rightarrow> 'y grp \<Rightarrow> 'y grp option" where
  "start_cfs_bandwidth B g s =
     (if period_timer_active B g (elsewhere s) then
        (let s1 = cancel_period_timer B g s
         in if timer_active (bw_of s1 g) then Some s1 else start_cfs_bandwidth B g s1)
      else Some (upd_else (start_period_timer B g (b_period (bw_of s g)))
                  (upd_bw g (timer_active_update (\<lambda>_. True)) s)))"

definition assign_cfs_rq_runtime :: "'y bw_env \<Rightarrow> nat \<Rightarrow> 'y grp \<Rightarrow> (bool \<times> 'y grp) option" where
  "assign_cfs_rq_runtime B c s =
     (let g = g_tg (cfs_of s c);
          min_amount = sched_cfs_bandwidth_slice s - runtime_remaining (cfs_of s c)
      in do {
        (amount, s2) \<leftarrow>
          (if quota (bw_of s g) = RUNTIME_INF then Some (min_amount, s)
           else do {
             s1 \<leftarrow> (if \<not> timer_active (bw_of s g)
                    then start_cfs_bandwidth B g (refill_cfs_bandwidth_runtime B g s) else Some s);
             if b_runtime (bw_of s1 g) > 0 then
               (let amount = min (b_runtime (bw_of s1 g)) min_amount
                in Some (amount, upd_bw g (\<lambda>b. b\<lparr>b_runtime := b_runtime b - amount, b_idle := False\<rparr>) s1))
             else Some (0, s1) });
        let expires = b_runtime_expires (bw_of s2 g);
        let s3 = upd_cfs c (\<lambda>q. q\<lparr>runtime_remaining := runtime_remaining q + amount,
               runtime_expires := (if sint (expires - runtime_expires q) > 0 then expires else runtime_expires q)\<rparr>) s2;
        Some (sint (runtime_remaining (cfs_of s3 c)) > 0, s3) })"

definition expire_cfs_rq_runtime :: "'y bw_env \<Rightarrow> nat \<Rightarrow> 'y grp \<Rightarrow> 'y grp" where
  "expire_cfs_rq_runtime B c s =
     (let q = cfs_of s c; b = bw_of s (g_tg q) in
      if sint (q_clock (cpu_rq s (g_rq q)) - runtime_expires q) < 0 then s
      else if sint (runtime_remaining q) < 0 then s
      else if sint (runtime_expires q - b_runtime_expires b) \<ge> 0
           then upd_cfs c (runtime_expires_update (\<lambda>x. x + tick_nsec B)) s
      else upd_cfs c (runtime_remaining_update (\<lambda>_. 0)) s)"

definition raw_account_cfs_rq_runtime :: "'y bw_env \<Rightarrow> nat \<Rightarrow> u64 \<Rightarrow> 'y grp \<Rightarrow> 'y grp option" where
  "raw_account_cfs_rq_runtime B c delta_exec s =
     (let s1 = expire_cfs_rq_runtime B c (upd_cfs c (runtime_remaining_update (\<lambda>r. r - delta_exec)) s) in
      if sint (runtime_remaining (cfs_of s1 c)) > 0 then Some s1
      else do {
        (ok, s2) \<leftarrow> assign_cfs_rq_runtime B c s1;
        Some (if \<not> ok \<and> g_curr (cfs_of s2 c) \<noteq> None then resched_curr (g_rq (cfs_of s2 c)) s2 else s2) })"

definition account_cfs_rq_runtime :: "'y bw_env \<Rightarrow> nat \<Rightarrow> u64 \<Rightarrow> 'y grp \<Rightarrow> 'y grp option" where
  "account_cfs_rq_runtime B c delta_exec s =
     (if \<not> cfs_bandwidth_used \<or> \<not> runtime_enabled (cfs_of s c) then Some s
      else raw_account_cfs_rq_runtime B c delta_exec s)"

section \<open>Throttling\<close>

definition cfs_rq_throttled :: "nat \<Rightarrow> 'y grp \<Rightarrow> bool" where
  "cfs_rq_throttled c s \<longleftrightarrow> cfs_bandwidth_used \<and> throttled (cfs_of s c)"

definition throttled_lb_pair :: "nat \<Rightarrow> nat \<Rightarrow> nat \<Rightarrow> 'y grp \<Rightarrow> bool" where
  "throttled_lb_pair g src_cpu dest_cpu s \<longleftrightarrow>
     throttled_hierarchy (t_cfs_rq (tg_of s g) src_cpu) s \<or> throttled_hierarchy (t_cfs_rq (tg_of s g) dest_cpu) s"

definition tg_unthrottle_up :: "nat \<Rightarrow> 'y grp visitor" where
  "tg_unthrottle_up cpu g s =
     (let now = q_clock_task (cpu_rq s cpu)
      in (0, upd_cfs (t_cfs_rq (tg_of s g) cpu) (\<lambda>q.
           let n = throttle_count q - 1
           in q\<lparr>throttle_count := n,
                throttled_clock_task_time :=
                  (if n = 0 then throttled_clock_task_time q + (now - throttled_clock_task q)
                   else throttled_clock_task_time q)\<rparr>) s))"

definition tg_throttle_down :: "nat \<Rightarrow> 'y grp visitor" where
  "tg_throttle_down cpu g s =
     (let now = q_clock_task (cpu_rq s cpu)
      in (0, upd_cfs (t_cfs_rq (tg_of s g) cpu) (\<lambda>q.
           q\<lparr>throttled_clock_task := (if throttle_count q = 0 then now else throttled_clock_task q),
             throttle_count := throttle_count q + 1\<rparr>) s))"

text \<open>The loop of \<open>throttle_cfs_rq\<close> up the entities; whether it came to the top.\<close>

fun throttle_chain :: "'y ent_ops \<Rightarrow> u32 \<Rightarrow> nat list \<Rightarrow> bool \<Rightarrow> 'y grp \<Rightarrow> bool \<times> 'y grp" where
  "throttle_chain E task_delta [] dequeue s = (True, s)"
| "throttle_chain E task_delta (e # es) dequeue s =
     (if \<not> e_on_rq (ent_of s e) then (False, s)
      else
        let q = e_cfs_rq (ent_of s e);
            s1 = (if dequeue then op_dequeue_entity E q e DEQUEUE_SLEEP s else s);
            s2 = upd_cfs q (g_h_nr_running_update (\<lambda>n. n - task_delta)) s1
        in throttle_chain E task_delta es (if weight (g_load (cfs_of s2 q)) \<noteq> 0 then False else dequeue) s2)"

definition throttle_cfs_rq :: "'y bw_env \<Rightarrow> nat \<Rightarrow> 'y grp \<Rightarrow> 'y grp option" where
  "throttle_cfs_rq B c s =
     (let g = g_tg (cfs_of s c); cpu = g_rq (cfs_of s c) in
      do {
        es \<leftarrow> for_each_sched_entity s (t_se (tg_of s g) cpu);
        (_, s1) \<leftarrow> walk_tg_tree_from children_of parent_of g (tg_throttle_down cpu) tg_nop s;
        let task_delta = g_h_nr_running (cfs_of s1 c);
        let (top, s2) = throttle_chain (bw_ents B) task_delta es True s1;
        let s3 = (if top then upd_rq cpu (q_nr_running_update (\<lambda>n. n - task_delta)) s2 else s2);
        let s4 = upd_cfs c (\<lambda>q. q\<lparr>throttled := True, throttled_clock := q_clock (cpu_rq s3 cpu)\<rparr>) s3;
        Some (upd_bw g (throttled_cfs_rq_update (\<lambda>l. l @ [c])) s4) })"

fun unthrottle_chain :: "'y ent_ops \<Rightarrow> u32 \<Rightarrow> nat list \<Rightarrow> bool \<Rightarrow> 'y grp \<Rightarrow> bool \<times> 'y grp" where
  "unthrottle_chain E task_delta [] enqueue s = (True, s)"
| "unthrottle_chain E task_delta (e # es) enqueue s =
     (let enq = (enqueue \<and> \<not> e_on_rq (ent_of s e));
          q = e_cfs_rq (ent_of s e);
          s1 = (if enq then op_enqueue_entity E q e ENQUEUE_WAKEUP s else s);
          s2 = upd_cfs q (g_h_nr_running_update (\<lambda>n. n + task_delta)) s1
      in if cfs_rq_throttled q s2 then (False, s2) else unthrottle_chain E task_delta es enq s2)"

definition unthrottle_cfs_rq :: "'y bw_env \<Rightarrow> nat \<Rightarrow> 'y grp \<Rightarrow> 'y grp option" where
  "unthrottle_cfs_rq B c s =
     (let g = g_tg (cfs_of s c); cpu = g_rq (cfs_of s c) in
      do {
        es \<leftarrow> for_each_sched_entity s (t_se (tg_of s g) cpu);
        let s1 = upd_cfs c (throttled_update (\<lambda>_. False)) s;
        let s2 = upd_bw g (\<lambda>b. b\<lparr>throttled_time := throttled_time b + (q_clock (cpu_rq s1 cpu) - throttled_clock (cfs_of s1 c)),
               throttled_cfs_rq := remove1 c (throttled_cfs_rq b)\<rparr>) s1;
        (_, s3) \<leftarrow> walk_tg_tree_from children_of parent_of g tg_nop (tg_unthrottle_up cpu)
                    (op_update_rq_clock (bw_ents B) cpu s2);
        if weight (g_load (cfs_of s3 c)) = 0 then Some s3
        else do {
          let task_delta = g_h_nr_running (cfs_of s3 c);
          let (top, s4) = unthrottle_chain (bw_ents B) task_delta es True s3;
          let s5 = (if top then upd_rq cpu (q_nr_running_update (\<lambda>n. n + task_delta)) s4 else s4);
          Some (if q_curr (cpu_rq s5 cpu) = q_idle (cpu_rq s5 cpu)
                   \<and> g_nr_running (cfs_of s5 (q_cfs (cpu_rq s5 cpu))) \<noteq> 0
                then resched_curr cpu s5 else s5) } })"

section \<open>The timers\<close>

text \<open>One pass over the throttled run queues; entries leave the list while it is walked.\<close>

fun distribute_list :: "'y bw_env \<Rightarrow> nat list \<Rightarrow> u64 \<Rightarrow> u64 \<Rightarrow> 'y grp \<Rightarrow> (u64 \<times> 'y grp) option" where
  "distribute_list B [] remaining expires s = Some (remaining, s)"
| "distribute_list B (c # cs) remaining expires s =
     (if \<not> cfs_rq_throttled c s then
        (if remaining = 0 then Some (remaining, s) else distribute_list B cs remaining expires s)
      else
        let want = - runtime_remaining (cfs_of s c) + 1;
            runtime = (if want > remaining then remaining else want);
            rest = remaining - runtime;
            s1 = upd_cfs c (\<lambda>q. q\<lparr>runtime_remaining := runtime_remaining q + runtime, runtime_expires := expires\<rparr>) s
        in do {
          s2 \<leftarrow> (if sint (runtime_remaining (cfs_of s1 c)) > 0 then unthrottle_cfs_rq B c s1 else Some s1);
          if rest = 0 then Some (rest, s2) else distribute_list B cs rest expires s2 })"

definition distribute_cfs_runtime :: "'y bw_env \<Rightarrow> nat \<Rightarrow> u64 \<Rightarrow> u64 \<Rightarrow> 'y grp \<Rightarrow> (u64 \<times> 'y grp) option" where
  "distribute_cfs_runtime B g remaining expires s =
     distribute_list B (throttled_cfs_rq (bw_of s g)) remaining expires s"

partial_function (option) distribute_loop :: "'y bw_env \<Rightarrow> nat \<Rightarrow> u64 \<Rightarrow> u64 \<Rightarrow> 'y grp \<Rightarrow> (u64 \<times> 'y grp) option" where
  "distribute_loop B g runtime expires s =
     (if throttled_cfs_rq (bw_of s g) \<noteq> [] \<and> runtime > 0
      then Option.bind (distribute_cfs_runtime B g runtime expires s)
             (\<lambda>(r, s1). distribute_loop B g r expires s1)
      else Some (runtime, s))"

definition do_sched_cfs_period_timer :: "'y bw_env \<Rightarrow> nat \<Rightarrow> u32 \<Rightarrow> 'y grp \<Rightarrow> (bool \<times> 'y grp) option" where
  "do_sched_cfs_period_timer B g overrun s =
     (let stop = upd_bw g (timer_active_update (\<lambda>_. False)) in
      if quota (bw_of s g) = RUNTIME_INF then Some (True, stop s)
      else
        let thr = (throttled_cfs_rq (bw_of s g) \<noteq> []);
            idle = (b_idle (bw_of s g) \<and> \<not> thr);
            s1 = upd_bw g (nr_periods_update (\<lambda>n. n + overrun)) s
        in if idle then Some (True, stop s1)
           else
             let s2 = refill_cfs_bandwidth_runtime B g s1 in
             if \<not> thr then Some (False, upd_bw g (b_idle_update (\<lambda>_. True)) s2)
             else
               let runtime = b_runtime (bw_of s2 g);
                   expires = b_runtime_expires (bw_of s2 g);
                   s3 = upd_bw g (\<lambda>b. b\<lparr>nr_throttled := nr_throttled b + overrun, b_runtime := 0\<rparr>) s2
               in do {
                 (r, s4) \<leftarrow> distribute_loop B g runtime expires s3;
                 Some (False, upd_bw g (\<lambda>b. b\<lparr>b_runtime := r, b_idle := False\<rparr>) s4) })"

definition min_cfs_rq_runtime :: u64 where "min_cfs_rq_runtime = 1 * NSEC_PER_MSEC"
definition min_bandwidth_expiration :: u64 where "min_bandwidth_expiration = 2 * NSEC_PER_MSEC"
definition cfs_bandwidth_slack_period :: u64 where "cfs_bandwidth_slack_period = 5 * NSEC_PER_MSEC"

definition runtime_refresh_within :: "'y bw_env \<Rightarrow> nat \<Rightarrow> u64 \<Rightarrow> 'y grp \<Rightarrow> bool" where
  "runtime_refresh_within B g min_expire s \<longleftrightarrow>
     period_callback_running B g (elsewhere s) \<or> period_expires_remaining B g (elsewhere s) < min_expire"

definition start_cfs_slack_bandwidth :: "'y bw_env \<Rightarrow> nat \<Rightarrow> 'y grp \<Rightarrow> 'y grp" where
  "start_cfs_slack_bandwidth B g s =
     (if runtime_refresh_within B g (cfs_bandwidth_slack_period + min_bandwidth_expiration) s then s
      else upd_else (start_slack_timer B g cfs_bandwidth_slack_period) s)"

definition raw_return_cfs_rq_runtime :: "'y bw_env \<Rightarrow> nat \<Rightarrow> 'y grp \<Rightarrow> 'y grp" where
  "raw_return_cfs_rq_runtime B c s =
     (let q = cfs_of s c; g = g_tg q;
          slack_runtime = runtime_remaining q - min_cfs_rq_runtime
      in if sint slack_runtime \<le> 0 then s
         else
           let s1 = (if quota (bw_of s g) \<noteq> RUNTIME_INF \<and> runtime_expires q = b_runtime_expires (bw_of s g) then
                       (let t = upd_bw g (b_runtime_update (\<lambda>r. r + slack_runtime)) s
                        in if b_runtime (bw_of t g) > sched_cfs_bandwidth_slice t \<and> throttled_cfs_rq (bw_of t g) \<noteq> []
                           then start_cfs_slack_bandwidth B g t else t)
                     else s)
           in upd_cfs c (runtime_remaining_update (\<lambda>r. r - slack_runtime)) s1)"

definition return_cfs_rq_runtime :: "'y bw_env \<Rightarrow> nat \<Rightarrow> 'y grp \<Rightarrow> 'y grp" where
  "return_cfs_rq_runtime B c s =
     (if \<not> cfs_bandwidth_used \<or> \<not> runtime_enabled (cfs_of s c) \<or> g_nr_running (cfs_of s c) \<noteq> 0 then s
      else raw_return_cfs_rq_runtime B c s)"

definition do_sched_cfs_slack_timer :: "'y bw_env \<Rightarrow> nat \<Rightarrow> 'y grp \<Rightarrow> 'y grp option" where
  "do_sched_cfs_slack_timer B g s =
     (if runtime_refresh_within B g min_bandwidth_expiration s then Some s
      else
        let b = bw_of s g; expires = b_runtime_expires b in
        if quota b \<noteq> RUNTIME_INF \<and> b_runtime b > sched_cfs_bandwidth_slice s  then
          do { (r, s1) \<leftarrow> distribute_cfs_runtime B g (b_runtime b) expires (upd_bw g (b_runtime_update (\<lambda>_. 0)) s);
               Some (if expires = b_runtime_expires (bw_of s1 g)
                     then upd_bw g (b_runtime_update (\<lambda>_. r)) s1 else s1) }
        else Some s)"

definition check_enqueue_throttle :: "'y bw_env \<Rightarrow> nat \<Rightarrow> 'y grp \<Rightarrow> 'y grp option" where
  "check_enqueue_throttle B c s =
     (if \<not> cfs_bandwidth_used then Some s
      else if \<not> runtime_enabled (cfs_of s c) \<or> g_curr (cfs_of s c) \<noteq> None then Some s
      else if cfs_rq_throttled c s then Some s
      else do { s1 \<leftarrow> account_cfs_rq_runtime B c 0 s;
                if sint (runtime_remaining (cfs_of s1 c)) \<le> 0 then throttle_cfs_rq B c s1 else Some s1 })"

definition check_cfs_rq_runtime :: "'y bw_env \<Rightarrow> nat \<Rightarrow> 'y grp \<Rightarrow> 'y grp option" where
  "check_cfs_rq_runtime B c s =
     (if \<not> cfs_bandwidth_used then Some s
      else if \<not> runtime_enabled (cfs_of s c) \<or> sint (runtime_remaining (cfs_of s c)) > 0 then Some s
      else if cfs_rq_throttled c s then Some s
      else throttle_cfs_rq B c s)"

definition sched_cfs_slack_timer :: "'y bw_env \<Rightarrow> nat \<Rightarrow> 'y grp \<Rightarrow> 'y grp option" where
  "sched_cfs_slack_timer B g s = do_sched_cfs_slack_timer B g s"

text \<open>The result says whether the timer restarts.\<close>

partial_function (option) period_timer_loop :: "'y bw_env \<Rightarrow> nat \<Rightarrow> bool \<Rightarrow> 'y grp \<Rightarrow> (bool \<times> 'y grp) option" where
  "period_timer_loop B g idle s =
     (case period_forward B g (b_period (bw_of s g)) (elsewhere s) of
        (overrun, y) \<Rightarrow>
          (let s1 = s\<lparr>elsewhere := y\<rparr>
           in if overrun = 0 then Some (\<not> idle, s1)
              else Option.bind (do_sched_cfs_period_timer B g overrun s1) (\<lambda>(i, s2). period_timer_loop B g i s2)))"

definition sched_cfs_period_timer :: "'y bw_env \<Rightarrow> nat \<Rightarrow> 'y grp \<Rightarrow> (bool \<times> 'y grp) option" where
  "sched_cfs_period_timer B g s = period_timer_loop B g False s"

section \<open>Set-up\<close>

text \<open>The timers are initialised inactive, which the environment records.\<close>

definition init_cfs_bandwidth :: "nat \<Rightarrow> 'y grp \<Rightarrow> 'y grp" where
  "init_cfs_bandwidth g =
     upd_bw g (\<lambda>b. b\<lparr>b_runtime := 0, quota := RUNTIME_INF, b_period := default_cfs_period, throttled_cfs_rq := []\<rparr>)"

definition init_cfs_rq_runtime :: "nat \<Rightarrow> 'y grp \<Rightarrow> 'y grp" where
  "init_cfs_rq_runtime c = upd_cfs c (runtime_enabled_update (\<lambda>_. False))"

definition destroy_cfs_bandwidth :: "'y bw_env \<Rightarrow> nat \<Rightarrow> 'y grp \<Rightarrow> 'y grp" where
  "destroy_cfs_bandwidth B g s = cancel_slack_timer B g (cancel_period_timer B g s)"

fun unthrottle_offline :: "'y bw_env \<Rightarrow> nat list \<Rightarrow> 'y grp \<Rightarrow> 'y grp option" where
  "unthrottle_offline B [] s = Some s"
| "unthrottle_offline B (c # cs) s =
     (if \<not> runtime_enabled (cfs_of s c) then unthrottle_offline B cs s
      else
        let s1 = upd_cfs c (runtime_remaining_update (\<lambda>_. quota (bw_of s (g_tg (cfs_of s c))))) s
        in do { s2 \<leftarrow> (if cfs_rq_throttled c s1 then unthrottle_cfs_rq B c s1 else Some s1);
                unthrottle_offline B cs s2 })"

definition unthrottle_offline_cfs_rqs :: "'y bw_env \<Rightarrow> nat \<Rightarrow> 'y grp \<Rightarrow> 'y grp option" where
  "unthrottle_offline_cfs_rqs B cpu s = unthrottle_offline B (q_leaf_cfs_rq_list (cpu_rq s cpu)) s"

end
