(* ===== verification/Sysctl_Lib.thy ===== *)
theory Sysctl_Lib
  imports Os_Prelude
begin

text \<open>
  The helpers of \<open>kernel/sysctl.c\<close> that read and print numbers, and what they use from outside the
  repository.

  The kernel copy of the text that a user writes is the list of the characters that are left of it
  (\<open>*buf\<close> and \<open>*size\<close> of the source together); the byte behind them is zero.  What a user reads is
  written from the start of his buffer on: the model keeps the text written so far and the size that
  is left.  Sizes and file positions, which are never negative, are natural numbers.
\<close>

section \<open>The environment\<close>

text \<open>
  Functions of the kernel's library: \<open>skip_spaces\<close> as the number of characters it skips,
  \<open>simple_strtoul\<close> with base 0 as the value and the number of characters it takes, and the
  conversions between jiffies and other units of time.
\<close>

record klib =
  k_skip_spaces :: "string \<Rightarrow> nat"
  k_strtoul :: "string \<Rightarrow> u64 \<times> nat"
  k_clock_t_to_jiffies :: "u64 \<Rightarrow> u64"
  k_jiffies_to_clock_t :: "u64 \<Rightarrow> u64"
  k_msecs_to_jiffies :: "u32 \<Rightarrow> u64"
  k_jiffies_to_msecs :: "u64 \<Rightarrow> u32"

text \<open>The user's side of a call: the bytes that can be read from his buffer and the number that can be
  written to it before an access faults, and whether a free page and other memory can be had.\<close>

record user =
  u_text :: string
  u_writable :: nat
  u_page :: bool
  u_kzalloc :: bool

definition isdigit :: "char \<Rightarrow> bool" where
  "isdigit c \<longleftrightarrow> 48 \<le> (of_char c :: nat) \<and> (of_char c :: nat) \<le> 57"

definition NUL :: char where "NUL = CHR 0x00"

section \<open>Reading\<close>

definition proc_skip_spaces :: "klib \<Rightarrow> string \<Rightarrow> string" where
  "proc_skip_spaces L buf = drop (k_skip_spaces L (takeWhile (\<lambda>c. c \<noteq> NUL) buf)) buf"

fun proc_skip_char :: "char \<Rightarrow> string \<Rightarrow> string" where
  "proc_skip_char v [] = []"
| "proc_skip_char v (c # buf) = (if c \<noteq> v then c # buf else proc_skip_char v buf)"

definition TMPBUFLEN :: nat where "TMPBUFLEN = 22"

text \<open>
  The results are the value, the sign, the trailer (the old one where the source leaves \<open>*tr\<close> alone)
  and the rest of the text; an error leaves \<open>*buf\<close> and \<open>*size\<close> alone.
\<close>

definition proc_get_long :: "klib \<Rightarrow> string \<Rightarrow> string \<Rightarrow> char option \<Rightarrow> int + (u64 \<times> bool \<times> char option \<times> string)" where
  "proc_get_long L perm_tr buf tr =
     (if buf = [] then Inl (- EINVAL)
      else
        let tmp = take (TMPBUFLEN - 1) buf;
            neg = (hd tmp = CHR ''-'' \<and> 1 < length buf);
            p = (if neg then tl tmp else tmp)
        in if \<not> isdigit (hd p) then Inl (- EINVAL)
           else
             let (val, n) = k_strtoul L (takeWhile (\<lambda>c. c \<noteq> NUL) p);
                 len = (if neg then 1 + n else n)
             in if len = TMPBUFLEN - 1 then Inl (- EINVAL)
                else if len < length buf \<and> perm_tr \<noteq> [] \<and> tmp ! len \<notin> set perm_tr then Inl (- EINVAL)
                else Inr (val, neg, if len < length buf then Some (tmp ! len) else tr, drop len buf))"

section \<open>Printing\<close>

text \<open>Text written so far, size left.\<close>

type_synonym obuf = "string \<times> nat"

definition copy_out :: "user \<Rightarrow> string \<Rightarrow> obuf \<Rightarrow> int + obuf" where
  "copy_out U s o' =
     (if length (fst o') + length s > u_writable U \<and> s \<noteq> [] then Inl (- EFAULT)
      else Inr (fst o' @ s, snd o' - length s))"

definition proc_put_long :: "user \<Rightarrow> u64 \<Rightarrow> bool \<Rightarrow> obuf \<Rightarrow> int + obuf" where
  "proc_put_long U val neg o' =
     (let tmp = (if neg then ''-'' else []) @ show_nat (unat val)
      in copy_out U (take (snd o') tmp) o')"

definition proc_put_char :: "user \<Rightarrow> char \<Rightarrow> obuf \<Rightarrow> int + obuf" where
  "proc_put_char U c o' = (if snd o' \<noteq> 0 then copy_out U [c] o' else Inr o')"

section \<open>Decimal numerals\<close>

lemma isdigit_digit [simp]: "d < 10 \<Longrightarrow> isdigit (digit d)"
  by (simp add: isdigit_def digit_def of_char_of)

lemma digit_facts [simp]: "d < 10 \<Longrightarrow> digit d \<noteq> NUL" "d < 10 \<Longrightarrow> digit d \<noteq> CHR ''-''"
proof -
  assume d: "d < 10"
  have "(of_char (digit d) :: nat) = 48 + d" using d by (simp add: digit_def of_char_of)
  moreover have "(of_char NUL :: nat) = 0" "(of_char (CHR ''-'') :: nat) = 45" by (simp_all add: NUL_def)
  ultimately show "digit d \<noteq> NUL" "digit d \<noteq> CHR ''-''" using d by auto
qed

lemma show_nat_digits: "c \<in> set (show_nat n) \<Longrightarrow> \<exists>d<10. c = digit d"
proof (induction n rule: show_nat.induct)
  case (1 n)
  have "\<exists>d<10. digit (n mod 10) = digit d" by (rule exI [of _ "n mod 10"]) simp
  with 1 show ?case by (subst (asm) (2) show_nat.simps) (auto split: if_splits)
qed

lemma show_nat_not_Nil [simp]: "show_nat n \<noteq> []"
  by (subst show_nat.simps) simp

lemma length_show_nat: "n < 10 ^ Suc k \<Longrightarrow> length (show_nat n) \<le> Suc k"
proof (induction k arbitrary: n)
  case 0
  then show ?case by (subst show_nat.simps) simp
next
  case (Suc k)
  have "n div 10 < 10 ^ Suc k" using Suc.prems by (simp add: less_mult_imp_div_less mult.commute)
  from Suc.IH [OF this] show ?case by (subst show_nat.simps) simp
qed

lemma length_show_nat_64: "n < 2 ^ 64 \<Longrightarrow> length (show_nat n) \<le> 20"
  using length_show_nat [of n 19] by simp

lemma takeWhile_show_nat [simp]:
  "takeWhile (\<lambda>c. c \<noteq> NUL) (show_nat n @ r) = show_nat n @ takeWhile (\<lambda>c. c \<noteq> NUL) r"
proof -
  have "c \<noteq> NUL" if "c \<in> set (show_nat n)" for c using show_nat_digits [OF that] by auto
  then show ?thesis by (simp add: takeWhile_append2)
qed

lemma hd_show_nat: "\<exists>d<10. hd (show_nat n) = digit d"
  using show_nat_digits [of "hd (show_nat n)" n] by simp

section \<open>What the library promises\<close>

definition wspace :: "char set" where
  "wspace = {CHR '' '', CHR 0x09, CHR 0x0A}"

definition separators :: "char set" where
  "separators = wspace \<union> {CHR '','', CHR ''-'', NUL}"

text \<open>
  The documented behaviour of the two string functions: \<open>skip_spaces\<close> removes leading white space, of
  which blank, tab and newline are a part and digits and signs are not; \<open>simple_strtoul\<close> reads the
  longest numeral.
\<close>

locale klib_ok =
  fixes L :: klib
  assumes skip_le: "k_skip_spaces L s \<le> length s"
    and skip: "set w \<subseteq> wspace \<Longrightarrow> s = [] \<or> isdigit (hd s) \<or> hd s = CHR ''-'' \<Longrightarrow> k_skip_spaces L (w @ s) = length w"
    and strtoul: "n < 2 ^ 64 \<Longrightarrow> r = [] \<or> hd r \<in> separators \<Longrightarrow>
      k_strtoul L (show_nat n @ r) = (of_nat n, length (show_nat n))"
    and strtoul_le: "s \<noteq> [] \<Longrightarrow> isdigit (hd s) \<Longrightarrow> 0 < snd (k_strtoul L s) \<and> snd (k_strtoul L s) \<le> length s"
begin

lemma skip_spaces_wspace:
  assumes "set w \<subseteq> wspace" and "s = [] \<or> isdigit (hd s) \<or> hd s = CHR ''-''"
  shows "proc_skip_spaces L (w @ s) = s"
proof -
  have "\<forall>c\<in>set w. c \<noteq> NUL" using assms(1) by (auto simp: wspace_def NUL_def)
  then have "takeWhile (\<lambda>c. c \<noteq> NUL) (w @ s) = w @ takeWhile (\<lambda>c. c \<noteq> NUL) s" by simp
  moreover have "takeWhile (\<lambda>c. c \<noteq> NUL) s = [] \<or> hd (takeWhile (\<lambda>c. c \<noteq> NUL) s) = hd s" by (cases s) auto
  ultimately show ?thesis
    using skip [OF assms(1), of "takeWhile (\<lambda>c. c \<noteq> NUL) s"] assms(2) by (auto simp: proc_skip_spaces_def)
qed

lemma length_skip_spaces: "length (proc_skip_spaces L s) \<le> length s"
  by (simp add: proc_skip_spaces_def)

text \<open>A printed number is read back, whatever allowed character follows it.\<close>

lemma get_long_show:
  assumes "n < 2 ^ 64" and "length (show_nat n) + (if neg then 1 else 0) < 21"
    and "r = [] \<or> (hd r \<in> set perm \<and> hd r \<in> separators)"
  shows "proc_get_long L perm ((if neg then ''-'' else []) @ show_nat n @ r) tr =
     Inr (of_nat n, neg, if r = [] then tr else Some (hd r), r)"
proof -
  define b where "b = (if neg then ''-'' else []) @ show_nat n @ r"
  let ?k = "length (show_nat n)" let ?l = "if neg then 1 + ?k else ?k"
  let ?q = "show_nat n @ take (21 - ?l) r"
  have tmp: "take 21 b = (if neg then ''-'' else []) @ ?q" using assms(2) by (auto simp: b_def)
  obtain d where d: "d < 10" "hd (show_nat n) = digit d" using hd_show_nat by blast
  have b: "b \<noteq> []" "length b = ?l + length r" "drop ?l b = r" by (auto simp: b_def)
  have "0 < ?k" by simp
  then have neg: "(hd (take 21 b) = CHR ''-'' \<and> 1 < length b) = neg"
    unfolding tmp b(2) using d by auto
  have p: "(if neg then tl (take 21 b) else take 21 b) = ?q" unfolding tmp by auto
  let ?r = "takeWhile (\<lambda>c. c \<noteq> NUL) (take (21 - ?l) r)"
  have "?r = [] \<or> hd ?r \<in> separators" using assms(3) by (cases r; cases "21 - ?l") auto
  then have v: "k_strtoul L (takeWhile (\<lambda>c. c \<noteq> NUL) ?q) = (of_nat n, ?k)" using strtoul [OF assms(1)] by simp
  have nth: "take 21 b ! ?l = hd r" if "r \<noteq> []"
    unfolding tmp using that assms(2) by (cases r; cases "21 - ?l") (auto simp: nth_append split: if_splits)
  have "?l \<noteq> 21" "isdigit (hd ?q)" using assms(2) d by auto
  moreover have tl: "TMPBUFLEN - 1 = 21" by (simp add: TMPBUFLEN_def)
  ultimately show ?thesis
    unfolding b_def [symmetric] proc_get_long_def tl Let_def neg p v prod.case
    using b nth assms(3) by auto
qed

end

section \<open>An executable library\<close>

text \<open>
  \<open>simple_strtoul\<close> with base 0 as its documentation has it: a numeral that starts with \<open>0x\<close> and a
  hexadecimal digit is hexadecimal, one that starts with \<open>0\<close> octal, any other decimal.
\<close>

definition digit_value :: "char \<Rightarrow> nat" where
  "digit_value c = (let n = of_char c in
     if 48 \<le> n \<and> n \<le> 57 then n - 48 else if 97 \<le> n \<and> n \<le> 102 then n - 87
     else if 65 \<le> n \<and> n \<le> 70 then n - 55 else 16)"

fun strtoul_digits :: "nat \<Rightarrow> string \<Rightarrow> u64 \<Rightarrow> u64 \<times> nat" where
  "strtoul_digits b [] v = (v, 0)"
| "strtoul_digits b (c # s) v =
     (if digit_value c < b then
        let (w, n) = strtoul_digits b s (v * of_nat b + of_nat (digit_value c)) in (w, Suc n)
      else (v, 0))"

definition strtoul_0 :: "string \<Rightarrow> u64 \<times> nat" where
  "strtoul_0 s =
     (if s \<noteq> [] \<and> hd s = CHR ''0'' then
        if 2 < length s \<and> (s ! 1 = CHR ''x'' \<or> s ! 1 = CHR ''X'') \<and> digit_value (s ! 2) < 16
        then let (v, n) = strtoul_digits 16 (drop 2 s) 0 in (v, n + 2)
        else strtoul_digits 8 s 0
      else strtoul_digits 10 s 0)"

definition sample_klib :: klib where
  "sample_klib = \<lparr>k_skip_spaces = (\<lambda>s. length (takeWhile (\<lambda>c. c \<in> wspace) s)), k_strtoul = strtoul_0,
     k_clock_t_to_jiffies = (\<lambda>x. x), k_jiffies_to_clock_t = (\<lambda>x. x),
     k_msecs_to_jiffies = (\<lambda>m. (ucast m + 9) div 10), k_jiffies_to_msecs = (\<lambda>j. ucast (10 * j))\<rparr>"

lemma digit_value_digit [simp]: "d < 10 \<Longrightarrow> digit_value (digit d) = d"
  by (simp add: digit_value_def digit_def of_char_of)

lemma digit_zero: "digit 0 = CHR ''0''"
proof -
  have "(of_char (digit 0) :: nat) = of_char (CHR ''0'')" by (simp add: digit_def of_char_of)
  then show ?thesis by (simp only: of_char_eq_iff)
qed

lemma digit_value_separator: "c \<in> separators \<Longrightarrow> digit_value c = 16"
  by (auto simp: separators_def wspace_def NUL_def digit_value_def)

lemma strtoul_digits_le: "snd (strtoul_digits b s v) \<le> length s"
  by (induction b s v rule: strtoul_digits.induct) (auto simp: Let_def case_prod_beta)

lemma strtoul_digits_append:
  assumes "\<forall>c\<in>set ds. digit_value c < b"
  shows "strtoul_digits b (ds @ r) v =
     (let w = foldl (\<lambda>v c. v * of_nat b + of_nat (digit_value c)) v ds
      in (fst (strtoul_digits b r w), length ds + snd (strtoul_digits b r w)))"
  using assms by (induction ds arbitrary: v) (auto simp: Let_def case_prod_beta)

lemma foldl_show_nat:
  "foldl (\<lambda>v c. v * of_nat 10 + of_nat (digit_value c)) 0 (show_nat n) = (of_nat n :: u64)"
proof (induction n rule: show_nat.induct)
  case (1 n)
  have "of_nat (10 * (n div 10) + n mod 10) = (of_nat n :: u64)" by simp
  then have "of_nat 10 * of_nat (n div 10) + of_nat (n mod 10) = (of_nat n :: u64)"
    unfolding of_nat_add of_nat_mult .
  then show ?case using 1 by (subst show_nat.simps) (simp add: mult.commute)
qed

lemma strtoul_digits_show:
  assumes "r = [] \<or> hd r \<in> separators"
  shows "strtoul_digits 10 (show_nat n @ r) 0 = (of_nat n, length (show_nat n))"
proof -
  have "strtoul_digits 10 r w = (w, 0)" for w
    using assms digit_value_separator by (cases r) auto
  moreover have "\<forall>c\<in>set (show_nat n). digit_value c < 10" using show_nat_digits by fastforce
  ultimately show ?thesis
    using foldl_show_nat [of n] by (simp add: strtoul_digits_append Let_def)
qed

lemma hd_show_nat_zero: "hd (show_nat n) = CHR ''0'' \<longleftrightarrow> n = 0"
proof (induction n rule: show_nat.induct)
  case (1 n)
  have "digit d = CHR ''0'' \<longleftrightarrow> d = 0" if "d < 10" for d
    using that digit_value_digit [OF that] digit_zero by (auto simp: digit_value_def)
  then show ?case using 1 by (subst show_nat.simps) auto
qed

lemma strtoul_0_show:
  assumes "r = [] \<or> hd r \<in> separators"
  shows "strtoul_0 (show_nat n @ r) = (of_nat n, length (show_nat n))"
proof (cases "n = 0")
  case True
  have z: "show_nat 0 = [CHR ''0'']" by (simp add: show_nat.simps digit_zero)
  have x: "CHR ''x'' \<notin> separators" "CHR ''X'' \<notin> separators" by (simp_all add: separators_def wspace_def NUL_def)
  have "r = [] \<or> (hd r \<noteq> CHR ''x'' \<and> hd r \<noteq> CHR ''X'' \<and> digit_value (hd r) = 16)"
    using assms digit_value_separator [of "hd r"] x by (cases "r = []") (simp, metis)
  moreover have "digit_value (CHR ''0'') = 0" by (simp add: digit_value_def)
  ultimately show ?thesis unfolding True z by (cases r) (auto simp: strtoul_0_def)
qed (use assms in \<open>simp add: strtoul_0_def hd_show_nat_zero strtoul_digits_show\<close>)

interpretation sample_lib: klib_ok sample_klib
proof
  fix s :: string
  show "k_skip_spaces sample_klib s \<le> length s" by (simp add: sample_klib_def length_takeWhile_le)
  assume s: "s \<noteq> []" "isdigit (hd s)"
  then obtain c t where ct: "s = c # t" by (cases s) auto
  have "digit_value c < 10" using s ct by (auto simp: digit_value_def isdigit_def Let_def)
  then show "0 < snd (k_strtoul sample_klib s) \<and> snd (k_strtoul sample_klib s) \<le> length s"
    using strtoul_digits_le [of 16 "drop 2 s" 0] strtoul_digits_le [of 8 s 0] strtoul_digits_le [of 10 s 0] ct
    by (auto simp: sample_klib_def strtoul_0_def digit_value_def Let_def case_prod_beta)
next
  fix w s :: string
  assume "set w \<subseteq> wspace" "s = [] \<or> isdigit (hd s) \<or> hd s = CHR ''-''"
  then have "takeWhile (\<lambda>c. c \<in> wspace) (w @ s) = w @ takeWhile (\<lambda>c. c \<in> wspace) s"
      "takeWhile (\<lambda>c. c \<in> wspace) s = []"
    by (auto intro!: takeWhile_append2 simp: takeWhile_eq_Nil_iff wspace_def isdigit_def)
  then show "k_skip_spaces sample_klib (w @ s) = length w" by (simp add: sample_klib_def)
next
  fix n :: nat and r :: string
  assume "r = [] \<or> hd r \<in> separators"
  then show "k_strtoul sample_klib (show_nat n @ r) = (of_nat n, length (show_nat n))"
    by (simp add: sample_klib_def strtoul_0_show)
qed

end
