(* ===== verification/Sysctl_Vec.thy ===== *)
theory Sysctl_Vec
  imports Sysctl_Lib
begin

text \<open>
  The handlers of \<open>kernel/sysctl.c\<close> for strings and for vectors of integers.

  A table entry describes an object of \<open>maxlen\<close> bytes at \<open>data\<close>; it is the list of its elements here
  (\<open>None\<close> for a null pointer), so that \<open>vleft\<close> is its length and \<open>!table->maxlen\<close> says that it is empty.
  A call of a handler returns what it returns, the new contents of the object, the text in the user's
  buffer, \<open>*lenp\<close> and \<open>*ppos\<close>.
\<close>

definition PAGE_SIZE :: nat where "PAGE_SIZE = 4096"

record 'v io =
  io_ret :: int
  io_vec :: "'v list"
  io_out :: string
  io_len :: nat
  io_pos :: nat

abbreviation mk_io :: "int \<Rightarrow> 'v list \<Rightarrow> string \<Rightarrow> nat \<Rightarrow> nat \<Rightarrow> 'v io" where
  "mk_io r v t l p \<equiv> \<lparr>io_ret = r, io_vec = v, io_out = t, io_len = l, io_pos = p\<rparr>"

section \<open>Strings\<close>

text \<open>The loop over the user's text up to a zero or a newline; \<open>None\<close> for a fault.\<close>

fun line_len :: "string \<Rightarrow> nat \<Rightarrow> nat option" where
  "line_len s 0 = Some 0"
| "line_len [] (Suc n) = None"
| "line_len (c # s) (Suc n) =
     (if c = NUL \<or> c = CHR 0x0A then Some 0 else map_option Suc (line_len s n))"

text \<open>The result is \<open>None\<close> where \<open>strlen\<close> would run past the object.\<close>

definition proc_do_string :: "user \<Rightarrow> string option \<Rightarrow> bool \<Rightarrow> nat \<Rightarrow> nat \<Rightarrow> char io option" where
  "proc_do_string U dat write lenp ppos =
     (case dat of
        None \<Rightarrow> Some (mk_io 0 [] [] 0 ppos)
      | Some d \<Rightarrow>
          if d = [] \<or> lenp = 0 then Some (mk_io 0 d [] 0 ppos)
          else if write then
            (case line_len (u_text U) lenp of
               None \<Rightarrow> Some (mk_io (- EFAULT) d [] lenp ppos)
             | Some len \<Rightarrow>
                 let n = (if len \<ge> length d then length d - 1 else len)
                 in Some (mk_io 0 (take n (u_text U) @ NUL # drop (Suc n) d) [] lenp (ppos + lenp)))
          else if NUL \<notin> set d then None
          else
            let len = length (takeWhile (\<lambda>c. c \<noteq> NUL) d) in
            if ppos > len then Some (mk_io 0 d [] 0 ppos)
            else
              let s = take lenp (drop ppos (take len d)) in
              (case copy_out U s ([], lenp) of
                 Inl e \<Rightarrow> Some (mk_io e d [] lenp ppos)
               | Inr o1 \<Rightarrow>
                   (if length s < lenp then
                      (case copy_out U [CHR 0x0A] o1 of
                         Inl e \<Rightarrow> Some (mk_io e d (fst o1) lenp ppos)
                       | Inr o2 \<Rightarrow> Some (mk_io 0 d (fst o2) (length s + 1) (ppos + length s + 1)))
                    else Some (mk_io 0 d (fst o1) (length s) (ppos + length s)))))"

definition proc_dostring :: "user \<Rightarrow> string option \<Rightarrow> bool \<Rightarrow> nat \<Rightarrow> nat \<Rightarrow> char io option" where
  "proc_dostring U dat write lenp ppos = proc_do_string U dat write lenp ppos"

section \<open>Vectors of ints\<close>

text \<open>
  A \<open>conv\<close> argument, by direction: a sign and an unsigned value to be stored (\<open>None\<close> when the function
  returns non-zero), and a stored value to be printed.
\<close>

record conv =
  cv_write :: "bool \<Rightarrow> u64 \<Rightarrow> u32 option"
  cv_read :: "u32 \<Rightarrow> bool \<times> u64"

text \<open>The part for reading is common to the conversion functions; \<open>-val\<close> is an \<open>int\<close> that is
  sign-extended.\<close>

definition sign_and_value :: "u32 \<Rightarrow> bool \<times> u64" where
  "sign_and_value val = (if sint val < 0 then (True, scast (- val)) else (False, scast val))"

definition signed_value :: "bool \<Rightarrow> u64 \<Rightarrow> u64" where
  "signed_value neg lval = (if neg then - lval else lval)"

definition do_proc_dointvec_conv :: conv where
  "do_proc_dointvec_conv = \<lparr>cv_write = (\<lambda>neg lval. Some (ucast (signed_value neg lval))), cv_read = sign_and_value\<rparr>"

definition proc_wspace_sep :: string where
  "proc_wspace_sep = [CHR '' '', CHR 0x09, CHR 0x0A]"

text \<open>The loop for a write: error, text left, vector and \<open>first\<close>.\<close>

fun dointvec_write :: "klib \<Rightarrow> conv \<Rightarrow> string \<Rightarrow> u32 list \<Rightarrow> bool \<Rightarrow> int \<times> string \<times> u32 list \<times> bool" where
  "dointvec_write L cv kbuf [] first = (0, kbuf, [], first)"
| "dointvec_write L cv kbuf (v # vs) first =
     (if kbuf = [] then (0, kbuf, v # vs, first)
      else
        let kbuf1 = proc_skip_spaces L kbuf in
        if kbuf1 = [] then (0, kbuf1, v # vs, first)
        else case proc_get_long L proc_wspace_sep kbuf1 None of
          Inl e \<Rightarrow> (e, kbuf1, v # vs, first)
        | Inr (lval, neg, _, rest) \<Rightarrow>
            (case cv_write cv neg lval of
               None \<Rightarrow> (- EINVAL, rest, v # vs, first)
             | Some v1 \<Rightarrow>
                 let (e, k, ws, f) = dointvec_write L cv rest vs False in (e, k, v1 # ws, f)))"

text \<open>The loop for a read: error, output and \<open>first\<close>.\<close>

fun dointvec_read :: "user \<Rightarrow> conv \<Rightarrow> u32 list \<Rightarrow> bool \<Rightarrow> obuf \<Rightarrow> int \<times> obuf \<times> bool" where
  "dointvec_read U cv [] first ob = (0, ob, first)"
| "dointvec_read U cv (v # vs) first ob =
     (if snd ob = 0 then (0, ob, first)
      else
        let (neg, lval) = cv_read cv v in
        case (if first then Inr ob else proc_put_char U (CHR 0x09) ob) of
          Inl e \<Rightarrow> (e, ob, first)
        | Inr ob1 \<Rightarrow>
            (case proc_put_long U lval neg ob1 of
               Inl e \<Rightarrow> (e, ob1, first)
             | Inr ob2 \<Rightarrow> dointvec_read U cv vs False ob2))"

text \<open>The end of a read, which may add a newline.\<close>

definition finish_read :: "user \<Rightarrow> int \<times> obuf \<times> bool \<Rightarrow> int \<times> obuf" where
  "finish_read U = (\<lambda>(err, ob, first).
     if \<not> first \<and> snd ob \<noteq> 0 \<and> err = 0 then
       (case proc_put_char U (CHR 0x0A) ob of Inl e \<Rightarrow> (e, ob) | Inr ob1 \<Rightarrow> (0, ob1))
     else (err, ob))"

text \<open>The end of a write, from the test of the error on.\<close>

definition finish_write :: "nat \<Rightarrow> nat \<Rightarrow> int \<times> string \<times> 'v list \<times> bool \<Rightarrow> 'v io" where
  "finish_write lenp ppos = (\<lambda>(err, kbuf, vs, first).
     if first then mk_io (if err \<noteq> 0 then err else - EINVAL) vs [] lenp ppos
     else mk_io err vs [] (lenp - length kbuf) (ppos + (lenp - length kbuf)))"

text \<open>The copy of the user's text: an error or the text.\<close>

definition kbuf_of :: "user \<Rightarrow> nat \<Rightarrow> int + string" where
  "kbuf_of U lenp =
     (let left = (if lenp > PAGE_SIZE - 1 then PAGE_SIZE - 1 else lenp) in
      if \<not> u_page U then Inl (- ENOMEM)
      else if length (u_text U) < left then Inl (- EFAULT)
      else Inr (take left (u_text U)))"

definition raw_do_proc_dointvec :: "klib \<Rightarrow> user \<Rightarrow> conv \<Rightarrow> u32 list option \<Rightarrow> bool \<Rightarrow> nat \<Rightarrow> nat \<Rightarrow> u32 io" where
  "raw_do_proc_dointvec L U cv dat write lenp ppos =
     (case dat of
        None \<Rightarrow> mk_io 0 [] [] 0 ppos
      | Some vs \<Rightarrow>
          if vs = [] \<or> lenp = 0 \<or> (ppos \<noteq> 0 \<and> \<not> write) then mk_io 0 vs [] 0 ppos
          else if write then
            (case kbuf_of U lenp of
               Inl e \<Rightarrow> mk_io e vs [] lenp ppos
             | Inr kbuf \<Rightarrow>
                 let (err, k, ws, first) = dointvec_write L cv kbuf vs True;
                     k1 = (if err = 0 \<and> k \<noteq> [] then proc_skip_spaces L k else k)
                 in finish_write lenp ppos (err, k1, ws, first))
          else
            let (err, ob) = finish_read U (dointvec_read U cv vs True ([], lenp))
            in mk_io err vs (fst ob) (lenp - snd ob) (ppos + (lenp - snd ob)))"

definition do_proc_dointvec :: "klib \<Rightarrow> user \<Rightarrow> conv \<Rightarrow> u32 list option \<Rightarrow> bool \<Rightarrow> nat \<Rightarrow> nat \<Rightarrow> u32 io" where
  "do_proc_dointvec L U cv dat write lenp ppos = raw_do_proc_dointvec L U cv dat write lenp ppos"

definition proc_dointvec :: "klib \<Rightarrow> user \<Rightarrow> u32 list option \<Rightarrow> bool \<Rightarrow> nat \<Rightarrow> nat \<Rightarrow> u32 io" where
  "proc_dointvec L U = do_proc_dointvec L U do_proc_dointvec_conv"

text \<open>The pointers to the bounds may be null.\<close>

definition do_proc_dointvec_minmax_conv :: "u32 option \<Rightarrow> u32 option \<Rightarrow> conv" where
  "do_proc_dointvec_minmax_conv mn mx =
     \<lparr>cv_write = (\<lambda>neg lval.
        let val = ucast (signed_value neg lval)
        in if (\<exists>m\<in>set_option mn. sint m > sint val) \<or> (\<exists>m\<in>set_option mx. sint m < sint val)
           then None else Some val),
      cv_read = sign_and_value\<rparr>"

definition proc_dointvec_minmax :: "klib \<Rightarrow> user \<Rightarrow> u32 option \<Rightarrow> u32 option \<Rightarrow> u32 list option \<Rightarrow> bool \<Rightarrow> nat \<Rightarrow> nat \<Rightarrow> u32 io" where
  "proc_dointvec_minmax L U mn mx = do_proc_dointvec L U (do_proc_dointvec_minmax_conv mn mx)"

text \<open>\<open>capable(CAP_SYS_ADMIN)\<close> is an argument.\<close>

definition proc_dointvec_minmax_sysadmin ::
  "bool \<Rightarrow> klib \<Rightarrow> user \<Rightarrow> u32 option \<Rightarrow> u32 option \<Rightarrow> u32 list option \<Rightarrow> bool \<Rightarrow> nat \<Rightarrow> nat \<Rightarrow> u32 io" where
  "proc_dointvec_minmax_sysadmin capable L U mn mx dat write lenp ppos =
     (if write \<and> \<not> capable then mk_io (- EPERM) (case dat of None \<Rightarrow> [] | Some vs \<Rightarrow> vs) [] lenp ppos
      else proc_dointvec_minmax L U mn mx dat write lenp ppos)"

text \<open>Whether the warning about an unsafe \<open>core_pattern\<close> is printed; \<open>SUID_DUMPABLE_SAFE\<close> is 2.\<close>

definition validate_coredump_safety :: "int \<Rightarrow> string \<Rightarrow> bool" where
  "validate_coredump_safety suid_dumpable core_pattern \<longleftrightarrow>
     suid_dumpable = 2 \<and> hd (core_pattern @ [NUL]) \<noteq> CHR ''/'' \<and> hd (core_pattern @ [NUL]) \<noteq> CHR ''|''"

text \<open>The table entry is \<open>suid_dumpable\<close> itself; the result says whether the warning was printed.\<close>

definition proc_dointvec_minmax_coredump ::
  "klib \<Rightarrow> user \<Rightarrow> string \<Rightarrow> u32 option \<Rightarrow> u32 option \<Rightarrow> u32 \<Rightarrow> bool \<Rightarrow> nat \<Rightarrow> nat \<Rightarrow> u32 io \<times> bool" where
  "proc_dointvec_minmax_coredump L U core_pattern mn mx suid_dumpable write lenp ppos =
     (let r = proc_dointvec_minmax L U mn mx (Some [suid_dumpable]) write lenp ppos
      in (r, io_ret r = 0 \<and> validate_coredump_safety (sint (hd (io_vec r))) core_pattern))"

definition proc_dostring_coredump :: "user \<Rightarrow> int \<Rightarrow> string \<Rightarrow> bool \<Rightarrow> nat \<Rightarrow> nat \<Rightarrow> (char io \<times> bool) option" where
  "proc_dostring_coredump U suid_dumpable core_pattern write lenp ppos =
     map_option (\<lambda>r. (r, io_ret r = 0 \<and> validate_coredump_safety suid_dumpable (io_vec r)))
       (proc_dostring U (Some core_pattern) write lenp ppos)"

section \<open>Jiffies\<close>

definition HZ_64 :: u64 where "HZ_64 = 100"
definition LONG_MAX_64 :: u64 where "LONG_MAX_64 = 2 ^ 63 - 1"

definition do_proc_dointvec_jiffies_conv :: conv where
  "do_proc_dointvec_jiffies_conv =
     \<lparr>cv_write = (\<lambda>neg lval.
        if lval > LONG_MAX_64 div HZ_64 then None else Some (ucast (signed_value neg (lval * HZ_64)))),
      cv_read = (\<lambda>val. let (neg, lval) = sign_and_value val in (neg, lval div HZ_64))\<rparr>"

text \<open>\<open>USER_HZ\<close> is \<open>HZ\<close>, so the first test of the write is not taken.\<close>

definition do_proc_dointvec_userhz_jiffies_conv :: "klib \<Rightarrow> conv" where
  "do_proc_dointvec_userhz_jiffies_conv L =
     \<lparr>cv_write = (\<lambda>neg lval. Some (ucast (k_clock_t_to_jiffies L (signed_value neg lval)))),
      cv_read = (\<lambda>val. let (neg, lval) = sign_and_value val in (neg, k_jiffies_to_clock_t L lval))\<rparr>"

definition do_proc_dointvec_ms_jiffies_conv :: "klib \<Rightarrow> conv" where
  "do_proc_dointvec_ms_jiffies_conv L =
     \<lparr>cv_write = (\<lambda>neg lval. Some (ucast (k_msecs_to_jiffies L (ucast (signed_value neg lval))))),
      cv_read = (\<lambda>val. let (neg, lval) = sign_and_value val in (neg, ucast (k_jiffies_to_msecs L lval)))\<rparr>"

definition proc_dointvec_jiffies :: "klib \<Rightarrow> user \<Rightarrow> u32 list option \<Rightarrow> bool \<Rightarrow> nat \<Rightarrow> nat \<Rightarrow> u32 io" where
  "proc_dointvec_jiffies L U = do_proc_dointvec L U do_proc_dointvec_jiffies_conv"

definition proc_dointvec_userhz_jiffies :: "klib \<Rightarrow> user \<Rightarrow> u32 list option \<Rightarrow> bool \<Rightarrow> nat \<Rightarrow> nat \<Rightarrow> u32 io" where
  "proc_dointvec_userhz_jiffies L U = do_proc_dointvec L U (do_proc_dointvec_userhz_jiffies_conv L)"

definition proc_dointvec_ms_jiffies :: "klib \<Rightarrow> user \<Rightarrow> u32 list option \<Rightarrow> bool \<Rightarrow> nat \<Rightarrow> nat \<Rightarrow> u32 io" where
  "proc_dointvec_ms_jiffies L U = do_proc_dointvec L U (do_proc_dointvec_ms_jiffies_conv L)"

section \<open>Vectors of longs\<close>

text \<open>
  A negative number and one out of range are skipped without an error.  Other than for ints, text that
  ends in white space before the vector is full runs into the error of \<open>proc_get_long\<close>.
\<close>

fun doulongvec_write :: "klib \<Rightarrow> u64 option \<Rightarrow> u64 option \<Rightarrow> string \<Rightarrow> u64 list \<Rightarrow> bool \<Rightarrow> int \<times> string \<times> u64 list \<times> bool" where
  "doulongvec_write L mn mx kbuf [] first = (0, kbuf, [], first)"
| "doulongvec_write L mn mx kbuf (v # vs) first =
     (if kbuf = [] then (0, kbuf, v # vs, first)
      else
        let kbuf1 = proc_skip_spaces L kbuf in
        case proc_get_long L proc_wspace_sep kbuf1 None of
          Inl e \<Rightarrow> (e, kbuf1, v # vs, first)
        | Inr (val, neg, _, rest) \<Rightarrow>
            let v1 = (if neg then v
                      else if (\<exists>m\<in>set_option mn. val < m) \<or> (\<exists>m\<in>set_option mx. val > m) then v
                      else val);
                (e, k, ws, f) = doulongvec_write L mn mx rest vs False
            in (e, k, v1 # ws, f))"

text \<open>An error of the tab is overwritten by the result of the number.\<close>

fun doulongvec_read :: "user \<Rightarrow> u64 \<Rightarrow> u64 \<Rightarrow> u64 list \<Rightarrow> bool \<Rightarrow> obuf \<Rightarrow> int \<times> obuf \<times> bool" where
  "doulongvec_read U convmul convdiv [] first ob = (0, ob, first)"
| "doulongvec_read U convmul convdiv (v # vs) first ob =
     (if snd ob = 0 then (0, ob, first)
      else
        let val = convdiv * v div convmul;
            ob1 = (if first then ob
                   else case proc_put_char U (CHR 0x09) ob of Inl _ \<Rightarrow> ob | Inr ob1 \<Rightarrow> ob1)
        in case proc_put_long U val False ob1 of
             Inl e \<Rightarrow> (e, ob1, first)
           | Inr ob2 \<Rightarrow> doulongvec_read U convmul convdiv vs False ob2)"

definition raw_do_proc_doulongvec_minmax ::
  "klib \<Rightarrow> user \<Rightarrow> u64 option \<Rightarrow> u64 option \<Rightarrow> u64 \<Rightarrow> u64 \<Rightarrow> u64 list option \<Rightarrow> bool \<Rightarrow> nat \<Rightarrow> nat \<Rightarrow> u64 io" where
  "raw_do_proc_doulongvec_minmax L U mn mx convmul convdiv dat write lenp ppos =
     (case dat of
        None \<Rightarrow> mk_io 0 [] [] 0 ppos
      | Some vs \<Rightarrow>
          if vs = [] \<or> lenp = 0 \<or> (ppos \<noteq> 0 \<and> \<not> write) then mk_io 0 vs [] 0 ppos
          else if write then
            (case kbuf_of U lenp of
               Inl e \<Rightarrow> mk_io e vs [] lenp ppos
             | Inr kbuf \<Rightarrow>
                 let (err, k, ws, first) = doulongvec_write L mn mx kbuf vs True;
                     k1 = (if err = 0 then proc_skip_spaces L k else k)
                 in finish_write lenp ppos (err, k1, ws, first))
          else
            let (err, ob) = finish_read U (doulongvec_read U convmul convdiv vs True ([], lenp))
            in mk_io err vs (fst ob) (lenp - snd ob) (ppos + (lenp - snd ob)))"

definition do_proc_doulongvec_minmax ::
  "klib \<Rightarrow> user \<Rightarrow> u64 option \<Rightarrow> u64 option \<Rightarrow> u64 \<Rightarrow> u64 \<Rightarrow> u64 list option \<Rightarrow> bool \<Rightarrow> nat \<Rightarrow> nat \<Rightarrow> u64 io" where
  "do_proc_doulongvec_minmax L U mn mx convmul convdiv dat write lenp ppos =
     raw_do_proc_doulongvec_minmax L U mn mx convmul convdiv dat write lenp ppos"

definition proc_doulongvec_minmax ::
  "klib \<Rightarrow> user \<Rightarrow> u64 option \<Rightarrow> u64 option \<Rightarrow> u64 list option \<Rightarrow> bool \<Rightarrow> nat \<Rightarrow> nat \<Rightarrow> u64 io" where
  "proc_doulongvec_minmax L U mn mx = do_proc_doulongvec_minmax L U mn mx 1 1"

definition proc_doulongvec_ms_jiffies_minmax ::
  "klib \<Rightarrow> user \<Rightarrow> u64 option \<Rightarrow> u64 option \<Rightarrow> u64 list option \<Rightarrow> bool \<Rightarrow> nat \<Rightarrow> nat \<Rightarrow> u64 io" where
  "proc_doulongvec_ms_jiffies_minmax L U mn mx = do_proc_doulongvec_minmax L U mn mx HZ_64 1000"

section \<open>The taint mask and the pid for Ctrl-Alt-Del\<close>

text \<open>\<open>add_taint\<close> on the state it belongs to, for every bit of the mask.\<close>

fun add_taints :: "(nat \<Rightarrow> 'x \<Rightarrow> 'x) \<Rightarrow> u64 \<Rightarrow> nat list \<Rightarrow> 'x \<Rightarrow> 'x" where
  "add_taints add_taint tmptaint [] x = x"
| "add_taints add_taint tmptaint (i # is) x =
     (if drop_bit i tmptaint = 0 then x
      else add_taints add_taint tmptaint is
             (if drop_bit i tmptaint AND 1 \<noteq> 0 then add_taint i x else x))"

definition proc_taint ::
  "klib \<Rightarrow> user \<Rightarrow> bool \<Rightarrow> ('x \<Rightarrow> u64) \<Rightarrow> (nat \<Rightarrow> 'x \<Rightarrow> 'x) \<Rightarrow> bool \<Rightarrow> nat \<Rightarrow> nat \<Rightarrow> 'x \<Rightarrow> u64 io \<times> 'x" where
  "proc_taint L U capable get_taint add_taint write lenp ppos x =
     (if write \<and> \<not> capable then (mk_io (- EPERM) [get_taint x] [] lenp ppos, x)
      else
        let r = proc_doulongvec_minmax L U None None (Some [get_taint x]) write lenp ppos in
        if io_ret r < 0 then (r, x)
        else (r, if write then add_taints add_taint (hd (io_vec r)) [0..<64] x else x))"

text \<open>\<open>pid_vnr\<close> and \<open>find_get_pid\<close> are arguments; the result has the new \<open>cad_pid\<close>.\<close>

definition proc_do_cad_pid ::
  "klib \<Rightarrow> user \<Rightarrow> ('p \<Rightarrow> u32) \<Rightarrow> (u32 \<Rightarrow> 'p option) \<Rightarrow> bool \<Rightarrow> nat \<Rightarrow> nat \<Rightarrow> 'p \<Rightarrow> u32 io \<times> 'p" where
  "proc_do_cad_pid L U pid_vnr find_get_pid write lenp ppos cad_pid =
     (let r = raw_do_proc_dointvec L U do_proc_dointvec_conv (Some [pid_vnr cad_pid]) write lenp ppos in
      if io_ret r \<noteq> 0 \<or> \<not> write then (r, cad_pid)
      else case find_get_pid (hd (io_vec r)) of
        None \<Rightarrow> (r\<lparr>io_ret := - ESRCH\<rparr>, cad_pid)
      | Some new_pid \<Rightarrow> (r, new_pid))"

section \<open>The SysRq switch\<close>

text \<open>\<open>sysrq_toggle_support\<close> acts on the state of the SysRq driver; \<open>enabled\<close> is \<open>__sysrq_enabled\<close>, which the table
  entry points at.\<close>

definition sysrq_sysctl_handler ::
  "klib \<Rightarrow> user \<Rightarrow> (u32 \<Rightarrow> 'x \<Rightarrow> 'x) \<Rightarrow> bool \<Rightarrow> nat \<Rightarrow> nat \<Rightarrow> u32 \<Rightarrow> 'x \<Rightarrow> u32 io \<times> 'x" where
  "sysrq_sysctl_handler L U sysrq_toggle_support write lenp ppos enabled x =
     (let r = proc_dointvec L U (Some [enabled]) write lenp ppos
      in (r, if io_ret r = 0 \<and> write then sysrq_toggle_support (hd (io_vec r)) x else x))"

end
