(* ===== verification/Sched_Files.thy ===== *)
theory Sched_Files
  imports Sched_Bandwidth Sysctl_Vec
begin

text \<open>
  The control files of a task group in \<open>kernel/sched/core.c\<close>: real-time bandwidth (\<open>CONFIG_RT_GROUP_SCHED\<close>) and the
  quota and period of the fair class, each with the walk over the tree of groups that decides whether a setting fits,
  and the sysctl handler of the global real-time limits.  A cgroup is the number of its group.

  \<open>to_ratio\<close> divides by the period; \<open>Sched_Files_Props\<close> shows that the periods of the groups never become zero.
\<close>

section \<open>Ratios\<close>

definition EBUSY :: int where "EBUSY = 16"

definition to_ratio :: "u64 \<Rightarrow> u64 \<Rightarrow> u64" where
  "to_ratio period runtime =
     (if runtime = RUNTIME_INF then push_bit 20 1 else push_bit 20 runtime div period)"

section \<open>Real-time bandwidth\<close>

text \<open>The two sysctl variables, the default bandwidth, and all threads with their priority and processor.  \<open>rq_rt_tg\<close> is
  the group of the real-time run queue embedded in a processor's run queue.\<close>

record rt_env =
  sysctl_sched_rt_period :: u32
  sysctl_sched_rt_runtime :: u32
  def_rt_bandwidth :: rt_bandwidth
  rt_threads :: "(int \<times> nat) list"
  rq_rt_tg :: "nat \<Rightarrow> nat"

definition rt_bandwidth_enabled :: "rt_env \<Rightarrow> bool" where
  "rt_bandwidth_enabled R \<longleftrightarrow> sint (sysctl_sched_rt_runtime R) \<ge> 0"

definition global_rt_period :: "rt_env \<Rightarrow> u64" where
  "global_rt_period R = ucast (sysctl_sched_rt_period R) * NSEC_PER_USEC"

definition global_rt_runtime :: "rt_env \<Rightarrow> u64" where
  "global_rt_runtime R =
     (if sint (sysctl_sched_rt_runtime R) < 0 then RUNTIME_INF
      else ucast (sysctl_sched_rt_runtime R) * NSEC_PER_USEC)"

definition tg_has_rt_tasks :: "rt_env \<Rightarrow> nat \<Rightarrow> bool" where
  "tg_has_rt_tasks R g \<longleftrightarrow> list_ex (\<lambda>(prio, cpu). prio < MAX_RT_PRIO \<and> rq_rt_tg R cpu = g) (rt_threads R)"

record rt_schedulable_data =
  d_tg :: "nat option"
  d_rt_period :: u64
  d_rt_runtime :: u64

abbreviation rt_bw_of :: "'y grp \<Rightarrow> nat \<Rightarrow> rt_bandwidth" where
  "rt_bw_of s g \<equiv> t_rt_bandwidth (tg_of s g)"

text \<open>Period and runtime of a group, with the setting under test for the group it is about.\<close>

definition rt_setting :: "rt_schedulable_data \<Rightarrow> nat \<Rightarrow> 'y grp \<Rightarrow> u64 \<times> u64" where
  "rt_setting d g s =
     (if d_tg d = Some g then (d_rt_period d, d_rt_runtime d) else (rt_period (rt_bw_of s g), rt_runtime (rt_bw_of s g)))"

definition tg_rt_schedulable :: "rt_env \<Rightarrow> rt_schedulable_data \<Rightarrow> 'y grp visitor" where
  "tg_rt_schedulable R d g s =
     (let (period, runtime) = rt_setting d g s;
          total = to_ratio period runtime;
          sum = sum_list (map (\<lambda>c. case rt_setting d c s of (p, r) \<Rightarrow> to_ratio p r) (children_of s g))
      in if runtime > period \<and> runtime \<noteq> RUNTIME_INF then (- EINVAL, s)
         else if rt_bandwidth_enabled R \<and> runtime = 0 \<and> tg_has_rt_tasks R g then (- EBUSY, s)
         else if total > to_ratio (global_rt_period R) (global_rt_runtime R) then (- EINVAL, s)
         else if sum > total then (- EINVAL, s)
         else (0, s))"

definition raw_rt_schedulable :: "rt_env \<Rightarrow> nat option \<Rightarrow> u64 \<Rightarrow> u64 \<Rightarrow> 'y grp \<Rightarrow> (int \<times> 'y grp) option" where
  "raw_rt_schedulable R g period runtime s =
     walk_tg_tree (tg_rt_schedulable R \<lparr>d_tg = g, d_rt_period = period, d_rt_runtime = runtime\<rparr>) tg_nop s"

definition tg_set_rt_bandwidth :: "rt_env \<Rightarrow> nat list \<Rightarrow> nat \<Rightarrow> u64 \<Rightarrow> u64 \<Rightarrow> 'y grp \<Rightarrow> (int \<times> 'y grp) option" where
  "tg_set_rt_bandwidth R cpus g period runtime s =
     do { (err, s1) \<leftarrow> raw_rt_schedulable R (Some g) period runtime s;
          Some (if err \<noteq> 0 then (err, s1)
                else (0, upd_tg g (\<lambda>t. t\<lparr>t_rt_bandwidth := \<lparr>rt_period = period, rt_runtime = runtime\<rparr>,
                       t_rt_rq := fold (\<lambda>i q. q(i := runtime)) cpus (t_rt_rq t)\<rparr>) s1)) }"

definition sched_group_set_rt_runtime :: "rt_env \<Rightarrow> nat list \<Rightarrow> nat \<Rightarrow> u64 \<Rightarrow> 'y grp \<Rightarrow> (int \<times> 'y grp) option" where
  "sched_group_set_rt_runtime R cpus g rt_runtime_us s =
     tg_set_rt_bandwidth R cpus g (rt_period (rt_bw_of s g))
       (if sint rt_runtime_us < 0 then RUNTIME_INF else rt_runtime_us * NSEC_PER_USEC) s"

definition sched_group_rt_runtime :: "nat \<Rightarrow> 'y grp \<Rightarrow> u64" where
  "sched_group_rt_runtime g s =
     (if rt_runtime (rt_bw_of s g) = RUNTIME_INF then - 1 else rt_runtime (rt_bw_of s g) div NSEC_PER_USEC)"

definition sched_group_set_rt_period :: "rt_env \<Rightarrow> nat list \<Rightarrow> nat \<Rightarrow> u64 \<Rightarrow> 'y grp \<Rightarrow> (int \<times> 'y grp) option" where
  "sched_group_set_rt_period R cpus g rt_period_us s =
     (let period = rt_period_us * NSEC_PER_USEC
      in if period = 0 then Some (- EINVAL, s)
         else tg_set_rt_bandwidth R cpus g period (rt_runtime (rt_bw_of s g)) s)"

definition sched_group_rt_period :: "nat \<Rightarrow> 'y grp \<Rightarrow> u64" where
  "sched_group_rt_period g s = rt_period (rt_bw_of s g) div NSEC_PER_USEC"

definition sched_rt_global_constraints :: "rt_env \<Rightarrow> 'y grp \<Rightarrow> (int \<times> 'y grp) option" where
  "sched_rt_global_constraints R s =
     (if sysctl_sched_rt_period R = 0 then Some (- EINVAL, s)
      else if global_rt_runtime R > global_rt_period R \<and> global_rt_runtime R \<noteq> RUNTIME_INF then Some (- EINVAL, s)
      else raw_rt_schedulable R None 0 0 s)"

definition sched_rt_can_attach :: "nat \<Rightarrow> int \<Rightarrow> 'y grp \<Rightarrow> bool" where
  "sched_rt_can_attach g pr s \<longleftrightarrow> \<not> (pr < MAX_RT_PRIO \<and> rt_runtime (rt_bw_of s g) = 0)"

definition cpu_cgroup_can_attach :: "nat \<Rightarrow> int list \<Rightarrow> 'y grp \<Rightarrow> int" where
  "cpu_cgroup_can_attach g tset s = (if \<forall>pr\<in>set tset. sched_rt_can_attach g pr s then 0 else - EINVAL)"

text \<open>The two entries of \<open>kern_table\<close> that the handler serves.\<close>

datatype rt_entry = Rt_period_us | Rt_runtime_us

fun rt_value :: "rt_entry \<Rightarrow> rt_env \<Rightarrow> u32" where
  "rt_value Rt_period_us R = sysctl_sched_rt_period R"
| "rt_value Rt_runtime_us R = sysctl_sched_rt_runtime R"

fun set_rt_value :: "rt_entry \<Rightarrow> u32 \<Rightarrow> rt_env \<Rightarrow> rt_env" where
  "set_rt_value Rt_period_us v R = R\<lparr>sysctl_sched_rt_period := v\<rparr>"
| "set_rt_value Rt_runtime_us v R = R\<lparr>sysctl_sched_rt_runtime := v\<rparr>"

definition sched_rt_handler ::
  "klib \<Rightarrow> user \<Rightarrow> rt_entry \<Rightarrow> bool \<Rightarrow> nat \<Rightarrow> nat \<Rightarrow> rt_env \<Rightarrow> 'y grp \<Rightarrow> (int \<times> rt_env \<times> 'y grp) option" where
  "sched_rt_handler L U e write_it lenp ppos R s =
     (let r = proc_dointvec L U (Some [rt_value e R]) write_it lenp ppos;
          R1 = set_rt_value e (hd (io_vec r)) R
      in if io_ret r = 0 \<and> write_it then
           do { (ret, s1) \<leftarrow> sched_rt_global_constraints R1 s;
                Some (if ret \<noteq> 0
                      then (ret, R1\<lparr>sysctl_sched_rt_period := sysctl_sched_rt_period R, sysctl_sched_rt_runtime := sysctl_sched_rt_runtime R\<rparr>, s1)
                      else (0, R1\<lparr>def_rt_bandwidth := \<lparr>rt_period = global_rt_period R1, rt_runtime = global_rt_runtime R1\<rparr>\<rparr>, s1)) }
         else Some (io_ret r, R1, s))"

definition cpu_rt_runtime_write :: "rt_env \<Rightarrow> nat list \<Rightarrow> nat \<Rightarrow> u64 \<Rightarrow> 'y grp \<Rightarrow> (int \<times> 'y grp) option" where
  "cpu_rt_runtime_write R cpus g val s = sched_group_set_rt_runtime R cpus g val s"

definition cpu_rt_runtime_read :: "nat \<Rightarrow> 'y grp \<Rightarrow> u64" where
  "cpu_rt_runtime_read g s = sched_group_rt_runtime g s"

definition cpu_rt_period_write_uint :: "rt_env \<Rightarrow> nat list \<Rightarrow> nat \<Rightarrow> u64 \<Rightarrow> 'y grp \<Rightarrow> (int \<times> 'y grp) option" where
  "cpu_rt_period_write_uint R cpus g rt_period_us s = sched_group_set_rt_period R cpus g rt_period_us s"

definition cpu_rt_period_read_uint :: "nat \<Rightarrow> 'y grp \<Rightarrow> u64" where
  "cpu_rt_period_read_uint g s = sched_group_rt_period g s"

section \<open>Quota and period of the fair class\<close>

definition max_cfs_quota_period :: u64 where "max_cfs_quota_period = 1000000000"
definition min_cfs_quota_period :: u64 where "min_cfs_quota_period = 1 * NSEC_PER_MSEC"

definition tg_get_cfs_quota :: "nat \<Rightarrow> 'y grp \<Rightarrow> u64" where
  "tg_get_cfs_quota g s =
     (if quota (bw_of s g) = RUNTIME_INF then - 1 else quota (bw_of s g) div NSEC_PER_USEC)"

definition tg_get_cfs_period :: "nat \<Rightarrow> 'y grp \<Rightarrow> u64" where
  "tg_get_cfs_period g s = b_period (bw_of s g) div NSEC_PER_USEC"

record cfs_schedulable_data =
  c_tg :: nat
  c_period :: u64
  c_quota :: u64

definition normalize_cfs_quota :: "cfs_schedulable_data \<Rightarrow> nat \<Rightarrow> 'y grp \<Rightarrow> u64" where
  "normalize_cfs_quota d g s =
     (let (period, q) = (if g = c_tg d then (c_period d, c_quota d) else (tg_get_cfs_period g s, tg_get_cfs_quota g s))
      in if q = RUNTIME_INF \<or> q = - 1 then RUNTIME_INF else to_ratio period q)"

text \<open>The quotas are compared as signed numbers, and with \<open>RUNTIME_INF\<close> as unsigned ones.\<close>

definition tg_cfs_schedulable_down :: "cfs_schedulable_data \<Rightarrow> 'y grp visitor" where
  "tg_cfs_schedulable_down d g s =
     (case parent_of s g of
        None \<Rightarrow> (0, upd_bw g (hierarchal_quota_update (\<lambda>_. RUNTIME_INF)) s)
      | Some p \<Rightarrow>
          let q = normalize_cfs_quota d g s;
              parent_quota = hierarchal_quota (bw_of s p)
          in if q = RUNTIME_INF then (0, upd_bw g (hierarchal_quota_update (\<lambda>_. parent_quota)) s)
             else if parent_quota \<noteq> RUNTIME_INF \<and> sint q > sint parent_quota then (- EINVAL, s)
             else (0, upd_bw g (hierarchal_quota_update (\<lambda>_. q)) s))"

definition raw_cfs_schedulable :: "nat \<Rightarrow> u64 \<Rightarrow> u64 \<Rightarrow> 'y grp \<Rightarrow> (int \<times> 'y grp) option" where
  "raw_cfs_schedulable g period q s =
     (let d = (if q \<noteq> RUNTIME_INF then \<lparr>c_tg = g, c_period = period div NSEC_PER_USEC, c_quota = q div NSEC_PER_USEC\<rparr>
               else \<lparr>c_tg = g, c_period = period, c_quota = q\<rparr>)
      in walk_tg_tree (tg_cfs_schedulable_down d) tg_nop s)"

text \<open>The run queues of the group, one per processor, start afresh.\<close>

fun reset_runtime :: "'y bw_env \<Rightarrow> nat \<Rightarrow> bool \<Rightarrow> nat list \<Rightarrow> 'y grp \<Rightarrow> 'y grp option" where
  "reset_runtime B g enabled [] s = Some s"
| "reset_runtime B g enabled (i # is) s =
     (let c = t_cfs_rq (tg_of s g) i;
          s1 = upd_cfs c (\<lambda>q. q\<lparr>runtime_enabled := enabled, runtime_remaining := 0\<rparr>) s
      in do { s2 \<leftarrow> (if throttled (cfs_of s1 c) then unthrottle_cfs_rq B c s1 else Some s1);
              reset_runtime B g enabled is s2 })"

definition tg_set_cfs_bandwidth :: "'y bw_env \<Rightarrow> nat list \<Rightarrow> nat \<Rightarrow> u64 \<Rightarrow> u64 \<Rightarrow> 'y grp \<Rightarrow> (int \<times> 'y grp) option" where
  "tg_set_cfs_bandwidth B cpus g period q s =
     (if g = root_task_group then Some (- EINVAL, s)
      else if q < min_cfs_quota_period \<or> period < min_cfs_quota_period then Some (- EINVAL, s)
      else if period > max_cfs_quota_period then Some (- EINVAL, s)
      else do {
        (ret, s1) \<leftarrow> raw_cfs_schedulable g period q s;
        if ret \<noteq> 0 then Some (ret, s1)
        else
          let enabled = (q \<noteq> RUNTIME_INF);
              s2 = refill_cfs_bandwidth_runtime B g (upd_bw g (\<lambda>b. b\<lparr>b_period := period, quota := q\<rparr>) s1)
          in do {
            s3 \<leftarrow> (if enabled \<and> timer_active (bw_of s2 g)
                   then start_cfs_bandwidth B g (upd_bw g (timer_active_update (\<lambda>_. False)) s2) else Some s2);
            s4 \<leftarrow> reset_runtime B g enabled cpus s3;
            Some (0, s4) } })"

definition tg_set_cfs_quota :: "'y bw_env \<Rightarrow> nat list \<Rightarrow> nat \<Rightarrow> u64 \<Rightarrow> 'y grp \<Rightarrow> (int \<times> 'y grp) option" where
  "tg_set_cfs_quota B cpus g cfs_quota_us s =
     tg_set_cfs_bandwidth B cpus g (b_period (bw_of s g))
       (if sint cfs_quota_us < 0 then RUNTIME_INF else cfs_quota_us * NSEC_PER_USEC) s"

definition tg_set_cfs_period :: "'y bw_env \<Rightarrow> nat list \<Rightarrow> nat \<Rightarrow> u64 \<Rightarrow> 'y grp \<Rightarrow> (int \<times> 'y grp) option" where
  "tg_set_cfs_period B cpus g cfs_period_us s =
     tg_set_cfs_bandwidth B cpus g (cfs_period_us * NSEC_PER_USEC) (quota (bw_of s g)) s"

definition cpu_cfs_quota_read_s64 :: "nat \<Rightarrow> 'y grp \<Rightarrow> u64" where
  "cpu_cfs_quota_read_s64 g s = tg_get_cfs_quota g s"

definition cpu_cfs_quota_write_s64 :: "'y bw_env \<Rightarrow> nat list \<Rightarrow> nat \<Rightarrow> u64 \<Rightarrow> 'y grp \<Rightarrow> (int \<times> 'y grp) option" where
  "cpu_cfs_quota_write_s64 B cpus g cfs_quota_us s = tg_set_cfs_quota B cpus g cfs_quota_us s"

definition cpu_cfs_period_read_u64 :: "nat \<Rightarrow> 'y grp \<Rightarrow> u64" where
  "cpu_cfs_period_read_u64 g s = tg_get_cfs_period g s"

definition cpu_cfs_period_write_u64 :: "'y bw_env \<Rightarrow> nat list \<Rightarrow> nat \<Rightarrow> u64 \<Rightarrow> 'y grp \<Rightarrow> (int \<times> 'y grp) option" where
  "cpu_cfs_period_write_u64 B cpus g cfs_period_us s = tg_set_cfs_period B cpus g cfs_period_us s"

definition cpu_stats_show :: "nat \<Rightarrow> 'y grp \<Rightarrow> (string \<times> u64) list" where
  "cpu_stats_show g s =
     [(''nr_periods'', scast (nr_periods (bw_of s g))), (''nr_throttled'', scast (nr_throttled (bw_of s g))),
      (''throttled_time'', throttled_time (bw_of s g))]"

end
