(* ===== verification/Sched_Bandwidth_Props.thy ===== *)
theory Sched_Bandwidth_Props
  imports Sched_Bandwidth
begin

text \<open>
  The budget of a task group.  Every refill of the pool adds at most one quota; slices, returned slack, expired
  runtime and what the timers hand out only move runtime between the pool and the run queues, or lose it.  So the time
  that a group consumes is covered by its refills.
\<close>

section \<open>Signed and unsigned 64-bit sums\<close>

lemma sint_in_range: "- (2 ^ 63) \<le> sint (a :: u64)" "sint a < 2 ^ 63"
  using sint_ge [of a] sint_less [of a] by simp_all

lemma sint_range_eq:
  assumes "- (2 ^ 63) \<le> i" and "i < 2 ^ 63" and "(word_of_int i :: u64) = a"
  shows "sint a = i"
  using assms by (auto simp: signed_of_int signed_take_bit_int_eq_self)

lemma sint_add_64:
  assumes "- (2 ^ 63) \<le> sint a + sint b" and "sint a + sint b < 2 ^ 63"
  shows "sint (a + b :: u64) = sint a + sint b"
  by (rule sint_range_eq [OF assms]) simp

lemma sint_sub_64:
  assumes "- (2 ^ 63) \<le> sint a - sint b" and "sint a - sint b < 2 ^ 63"
  shows "sint (a - b :: u64) = sint a - sint b"
  by (rule sint_range_eq [OF assms]) simp

lemma sint_uint_64: "uint (a :: u64) < 2 ^ 63 \<Longrightarrow> sint a = uint a"
  by (rule sint_range_eq) (simp_all add: order_trans [of _ 0])

lemma uint_of_sint_64:
  assumes "0 \<le> i" and "i < 2 ^ 64" and "(word_of_int i :: u64) = a"
  shows "uint a = i"
  using assms by (auto simp: unsigned_of_int take_bit_int_eq_self)

lemma uint_sub_64:
  assumes "uint b \<le> uint a"
  shows "uint (a - b :: u64) = uint a - uint b"
proof (rule uint_of_sint_64)
  have "uint a - uint b \<le> uint a" by simp
  also have "uint a < 2 ^ 64" using uint_lt2p [of a] by simp
  finally show "uint a - uint b < 2 ^ 64" .
qed (use assms in simp_all)

text \<open>Adding an unsigned amount to a signed counter, and subtracting one.\<close>

lemma sint_add_uint_64:
  assumes "uint (a :: u64) < 2 ^ 63" and "sint r + uint a < 2 ^ 63"
  shows "sint (r + a) = sint r + uint a"
proof -
  have "sint a = uint a" by (rule sint_uint_64 [OF assms(1)])
  moreover have "- (2 ^ 63) \<le> sint r + uint a"
    using sint_in_range(1) [of r] by (rule order_trans) simp
  ultimately show ?thesis using assms(2) sint_add_64 [of r a] by simp
qed

lemma sint_sub_uint_64:
  assumes "uint (a :: u64) < 2 ^ 63" and "- (2 ^ 63) \<le> sint r - uint a"
  shows "sint (r - a) = sint r - uint a"
proof -
  have "sint a = uint a" by (rule sint_uint_64 [OF assms(1)])
  moreover have "sint r - uint a < 2 ^ 63"
    by (rule le_less_trans [OF _ sint_in_range(2) [of r]]) simp
  ultimately show ?thesis using assms(2) sint_sub_64 [of r a] by simp
qed

section \<open>The world around a group\<close>

text \<open>What the budget of group \<open>g\<close> with the run queues \<open>C\<close> depends on: its pool, what its run queues hold, and where
  its entities are.\<close>

definition bw_view :: "nat set \<Rightarrow> nat \<Rightarrow> 'y grp \<Rightarrow> cfs_bandwidth \<times> (nat \<Rightarrow> nat option) \<times> (nat \<Rightarrow> nat) \<times> (nat \<Rightarrow> nat list \<times> nat option) \<times> (nat \<Rightarrow> (nat \<times> u64 \<times> bool) option) \<times> (nat \<Rightarrow> nat option \<times> nat)" where
  "bw_view C g s =
     (bw_of s g, t_se (tg_of s g), t_cfs_rq (tg_of s g), \<lambda>h. (children_of s h, parent_of s h),
      \<lambda>c. if c \<in> C then Some (g_tg (cfs_of s c), runtime_remaining (cfs_of s c), throttled (cfs_of s c)) else None,
      \<lambda>e. (e_parent (ent_of s e), e_cfs_rq (ent_of s e)))"

lemma bw_view_fields:
  assumes "bw_view C g t = bw_view C g s"
  shows "bw_of t g = bw_of s g" "t_se (tg_of t g) = t_se (tg_of s g)"
    "c \<in> C \<Longrightarrow> g_tg (cfs_of t c) = g_tg (cfs_of s c)" "c \<in> C \<Longrightarrow> runtime_remaining (cfs_of t c) = runtime_remaining (cfs_of s c)"
    "e_parent (ent_of t e) = e_parent (ent_of s e)" "e_cfs_rq (ent_of t e) = e_cfs_rq (ent_of s e)"
    "c \<in> C \<Longrightarrow> throttled (cfs_of t c) = throttled (cfs_of s c)"
    "children_of t h = children_of s h" "parent_of t h = parent_of s h" "t_cfs_rq (tg_of t g) = t_cfs_rq (tg_of s g)"
proof -
  have f: "bw_of t g = bw_of s g" "t_se (tg_of t g) = t_se (tg_of s g)"
    "(\<lambda>c. if c \<in> C then Some (g_tg (cfs_of t c), runtime_remaining (cfs_of t c), throttled (cfs_of t c)) else None)
       = (\<lambda>c. if c \<in> C then Some (g_tg (cfs_of s c), runtime_remaining (cfs_of s c), throttled (cfs_of s c)) else None)"
    "(\<lambda>e. (e_parent (ent_of t e), e_cfs_rq (ent_of t e))) = (\<lambda>e. (e_parent (ent_of s e), e_cfs_rq (ent_of s e)))"
    "(\<lambda>h. (children_of t h, parent_of t h)) = (\<lambda>h. (children_of s h, parent_of s h))"
    "t_cfs_rq (tg_of t g) = t_cfs_rq (tg_of s g)"
    using assms by (simp_all add: bw_view_def)
  show "bw_of t g = bw_of s g" "t_se (tg_of t g) = t_se (tg_of s g)" "t_cfs_rq (tg_of t g) = t_cfs_rq (tg_of s g)"
    by (fact f(1), fact f(2), fact f(6))
  show "c \<in> C \<Longrightarrow> g_tg (cfs_of t c) = g_tg (cfs_of s c)" "c \<in> C \<Longrightarrow> runtime_remaining (cfs_of t c) = runtime_remaining (cfs_of s c)"
    "c \<in> C \<Longrightarrow> throttled (cfs_of t c) = throttled (cfs_of s c)"
    using fun_cong [OF f(3), of c] by simp_all
  show "e_parent (ent_of t e) = e_parent (ent_of s e)" "e_cfs_rq (ent_of t e) = e_cfs_rq (ent_of s e)"
    using fun_cong [OF f(4), of e] by simp_all
  show "children_of t h = children_of s h" "parent_of t h = parent_of s h"
    using fun_cong [OF f(5), of h] by simp_all
qed

text \<open>The entities above the group sit in run queues of other groups; their chain ends, and the groups below are a tree.\<close>

definition placed :: "nat set \<Rightarrow> nat \<Rightarrow> 'y grp \<Rightarrow> bool" where
  "placed C g s \<longleftrightarrow> (\<forall>c\<in>C. g_tg (cfs_of s c) = g)
     \<and> (\<forall>cpu es e. for_each_sched_entity s (t_se (tg_of s g) cpu) = Some es \<longrightarrow> e \<in> set es \<longrightarrow> e_cfs_rq (ent_of s e) \<notin> C)
     \<and> (\<forall>cpu. for_each_sched_entity s (t_se (tg_of s g) cpu) \<noteq> None) \<and> (\<exists>tr. root tr = g \<and> tree_ok s tr)"

lemma placed_step:
  assumes "placed C g s" and "t_se (tg_of t g) = t_se (tg_of s g)" and "\<And>c. c \<in> C \<Longrightarrow> g_tg (cfs_of t c) = g_tg (cfs_of s c)"
    and "\<And>e. e_parent (ent_of t e) = e_parent (ent_of s e) \<and> e_cfs_rq (ent_of t e) = e_cfs_rq (ent_of s e)"
    and "\<And>h. children_of t h = children_of s h \<and> parent_of t h = parent_of s h"
  shows "placed C g t"
  using assms unfolding placed_def for_each_sched_entity_def tree_ok_def by simp

lemma placed_view:
  assumes "bw_view C g t = bw_view C g s" and "placed C g s"
  shows "placed C g t"
  by (rule placed_step [OF assms(2)]) (simp_all add: bw_view_fields [OF assms(1)])

text \<open>The throttled run queues of the group are listed once each, and are marked.\<close>

definition listed :: "nat set \<Rightarrow> nat \<Rightarrow> 'y grp \<Rightarrow> bool" where
  "listed C g s \<longleftrightarrow> distinct (throttled_cfs_rq (bw_of s g)) \<and> set (throttled_cfs_rq (bw_of s g)) \<subseteq> C
     \<and> (\<forall>c\<in>set (throttled_cfs_rq (bw_of s g)). throttled (cfs_of s c))"

text \<open>Both are kept by every operation of bandwidth control.\<close>

definition bw_ok :: "nat set \<Rightarrow> nat \<Rightarrow> 'y grp \<Rightarrow> bool" where
  "bw_ok C g s \<longleftrightarrow> placed C g s \<and> listed C g s"

lemma bw_ok_step:
  assumes "bw_ok C g s" and "t_se (tg_of t g) = t_se (tg_of s g)" and "throttled_cfs_rq (bw_of t g) = throttled_cfs_rq (bw_of s g)"
    and "\<And>c. c \<in> C \<Longrightarrow> g_tg (cfs_of t c) = g_tg (cfs_of s c)" and "\<And>c. c \<in> C \<Longrightarrow> throttled (cfs_of t c) = throttled (cfs_of s c)"
    and "\<And>e. e_parent (ent_of t e) = e_parent (ent_of s e) \<and> e_cfs_rq (ent_of t e) = e_cfs_rq (ent_of s e)"
    and "\<And>h. children_of t h = children_of s h \<and> parent_of t h = parent_of s h"
  shows "bw_ok C g t"
proof -
  have "placed C g t" by (rule placed_step) (use assms in \<open>simp_all add: bw_ok_def\<close>)
  moreover have "listed C g t" using assms(1,3,5) by (auto simp: bw_ok_def listed_def)
  ultimately show ?thesis by (simp add: bw_ok_def)
qed

lemma bw_ok_view: "bw_view C g t = bw_view C g s \<Longrightarrow> bw_ok C g s \<Longrightarrow> bw_ok C g t"
  by (rule bw_ok_step) (simp_all add: bw_view_fields [of C g t s])

section \<open>Credit\<close>

text \<open>What the group still may use: the pool and what its run queues hold, debts counted as negative.\<close>

definition credit :: "nat set \<Rightarrow> nat \<Rightarrow> 'y grp \<Rightarrow> int" where
  "credit C g s = uint (b_runtime (bw_of s g)) + (\<Sum>c\<in>C. sint (runtime_remaining (cfs_of s c)))"

text \<open>A limited group whose counters are less than \<open>2 ^ 62\<close> nanoseconds, 146 years, from zero.\<close>

definition sane_pool :: "nat set \<Rightarrow> nat \<Rightarrow> 'y grp \<Rightarrow> bool" where
  "sane_pool C g s \<longleftrightarrow> finite C \<and> uint (quota (bw_of s g)) < 2 ^ 62 \<and> uint (b_runtime (bw_of s g)) < 2 ^ 62"

definition sane :: "nat set \<Rightarrow> nat \<Rightarrow> 'y grp \<Rightarrow> bool" where
  "sane C g s \<longleftrightarrow> sane_pool C g s
     \<and> (\<forall>c\<in>C. - (2 ^ 62) < sint (runtime_remaining (cfs_of s c)) \<and> sint (runtime_remaining (cfs_of s c)) < 2 ^ 62)"

lemma credit_view: "bw_view C g t = bw_view C g s \<Longrightarrow> credit C g t = credit C g s"
  using bw_view_fields(1,4) [of C g t s] by (simp add: credit_def)

lemma view_upd_bw:
  assumes "bw_view C g t = bw_view C g s"
  shows "bw_view C g (upd_bw g f t) = bw_view C g (upd_bw g f s)"
  by (simp add: bw_view_def fun_eq_iff bw_view_fields [OF assms])

lemma sane_pool_view: "bw_view C g t = bw_view C g s \<Longrightarrow> sane_pool C g t = sane_pool C g s"
  using bw_view_fields(1) [of C g t s] by (simp add: sane_pool_def)

lemma sane_limited: "sane_pool C g s \<Longrightarrow> quota (bw_of s g) \<noteq> RUNTIME_INF"
  using RUNTIME_INF_max by (auto simp: sane_pool_def)

lemma credit_cfs:
  assumes "finite C" and "c \<in> C"
  shows "credit C g (upd_cfs c f s) = credit C g s - sint (runtime_remaining (cfs_of s c)) + sint (runtime_remaining (f (cfs_of s c)))"
proof -
  have "(\<Sum>d\<in>C. sint (runtime_remaining (cfs_of (upd_cfs c f s) d))) =
      sint (runtime_remaining (f (cfs_of s c))) + (\<Sum>d\<in>C - {c}. sint (runtime_remaining (cfs_of s d)))"
    using assms by (simp add: sum.remove)
  then show ?thesis using assms by (simp add: credit_def sum.remove)
qed

lemma credit_bw:
  "credit C g (upd_bw g f s) = credit C g s - uint (b_runtime (bw_of s g)) + uint (b_runtime (f (bw_of s g)))"
  by (simp add: credit_def)

lemma slice_small: "uint (sched_cfs_bandwidth_slice s) < 2 ^ 42"
proof -
  have "uint (cfs_bandwidth_slice s) < 2 ^ 32" using uint_lt2p [of "cfs_bandwidth_slice s"] by simp
  then have "uint (ucast (cfs_bandwidth_slice s) :: u64) = uint (cfs_bandwidth_slice s)"
    by (simp add: unsigned_ucast_eq take_bit_int_eq_self)
  then show ?thesis
    using \<open>uint (cfs_bandwidth_slice s) < 2 ^ 32\<close>
    by (simp add: sched_cfs_bandwidth_slice_def NSEC_PER_USEC_def uint_word_ariths)
qed

text \<open>What a throttled run queue is given out of \<open>pool\<close>.\<close>

lemma give_amount:
  fixes r pool :: u64
  assumes "uint pool < 2 ^ 62" and "sint r < 2 ^ 62" and "amount = (if - r + 1 > pool then pool else - r + 1)"
  shows "uint (pool - amount) = uint pool - uint amount" "sint (r + amount) = sint r + uint amount"
    "pool - amount \<noteq> 0 \<Longrightarrow> r + amount = 1" "uint (pool - amount) \<le> uint pool"
proof -
  have le: "uint amount \<le> uint pool" using assms(3) by (simp add: word_le_def word_less_def)
  then show d: "uint (pool - amount) = uint pool - uint amount" by (rule uint_sub_64)
  then show "uint (pool - amount) \<le> uint pool" by simp
  have "uint amount < 2 ^ 62" using le assms(1) by linarith
  then show "sint (r + amount) = sint r + uint amount" using assms(2) by (intro sint_add_uint_64) simp_all
  show "pool - amount \<noteq> 0 \<Longrightarrow> r + amount = 1" using assms(3) by (auto split: if_splits)
qed

lemma fold_remove1_self: "fold remove1 l l = []"
  by (induction l) auto

lemma upd_keeps_view [simp]:
  "bw_view C g (upd_rq r h s) = bw_view C g s" "bw_view C g (resched_curr n s) = bw_view C g s"
  "bw_view C g (upd_else k s) = bw_view C g s"
  by (simp_all add: bw_view_def cong: if_cong)

lemma upd_cfs_keeps_view:
  "(\<And>q. g_tg (f q) = g_tg q) \<Longrightarrow> (\<And>q. runtime_remaining (f q) = runtime_remaining q) \<Longrightarrow>
     (\<And>q. throttled (f q) = throttled q) \<Longrightarrow> bw_view C g (upd_cfs c f s) = bw_view C g s"
  by (auto simp: bw_view_def fun_eq_iff)

text \<open>
  What bandwidth control relies on: operations on the entities of other run queues leave the group's budget and the
  links alone, and so does the clock; cancelling the timer leaves it inactive and, as long as nobody else acts, the
  state as it was.
\<close>

locale bw_world =
  fixes B :: "'y bw_env" and C :: "nat set" and g :: nat
  assumes enqueue_keeps: "q \<notin> C \<Longrightarrow> bw_view C g (op_enqueue_entity (bw_ents B) q e f s) = bw_view C g s"
    and dequeue_keeps: "q \<notin> C \<Longrightarrow> bw_view C g (op_dequeue_entity (bw_ents B) q e f s) = bw_view C g s"
    and clock_keeps: "bw_view C g (op_update_rq_clock (bw_ents B) cpu s) = bw_view C g s"
    and cancel_keeps: "bw_view C g (cancel_period_timer B g s) = bw_view C g s"
    and cancel_inactive: "\<not> period_timer_active B g (elsewhere (cancel_period_timer B g s))"
begin

lemma walk_keeps_view:
  assumes "walk_tg_tree_from children_of parent_of h down up s = Some (r, t)"
    and "\<And>g' s. bw_view C g (snd (down g' s)) = bw_view C g s" and "\<And>g' s. bw_view C g (snd (up g' s)) = bw_view C g s"
  shows "bw_view C g t = bw_view C g s"
  using walk_loop_keeps [of children_of parent_of h down up "Down h" s r t "bw_view C g"] assms
  by (simp add: walk_tg_tree_from_def)

lemma visitors_keep_view:
  "bw_view C g (snd (tg_nop h s)) = bw_view C g s" "bw_view C g (snd (tg_throttle_down cpu h s)) = bw_view C g s"
  "bw_view C g (snd (tg_unthrottle_up cpu h s)) = bw_view C g s"
  by (simp_all add: tg_nop_def tg_throttle_down_def tg_unthrottle_up_def Let_def upd_cfs_keeps_view)

lemma throttle_chain_keeps:
  assumes "\<forall>e\<in>set es. e_cfs_rq (ent_of s e) \<notin> C"
  shows "bw_view C g (snd (throttle_chain (bw_ents B) d es b s)) = bw_view C g s"
  using assms
proof (induction es arbitrary: b s)
  case (Cons e es)
  define s1 where "s1 = (if b then op_dequeue_entity (bw_ents B) (e_cfs_rq (ent_of s e)) e DEQUEUE_SLEEP s else s)"
  define s2 where "s2 = upd_cfs (e_cfs_rq (ent_of s e)) (g_h_nr_running_update (\<lambda>n. n - d)) s1"
  have v: "bw_view C g s2 = bw_view C g s"
    using Cons.prems dequeue_keeps by (simp add: s2_def s1_def upd_cfs_keeps_view)
  then have "\<forall>e\<in>set es. e_cfs_rq (ent_of s2 e) \<notin> C" using Cons.prems bw_view_fields(6) [OF v] by simp
  from Cons.IH [OF this] show ?case using v by (simp add: Let_def s1_def [symmetric] s2_def [symmetric])
qed simp

lemma unthrottle_chain_keeps:
  assumes "\<forall>e\<in>set es. e_cfs_rq (ent_of s e) \<notin> C"
  shows "bw_view C g (snd (unthrottle_chain (bw_ents B) d es b s)) = bw_view C g s"
  using assms
proof (induction es arbitrary: b s)
  case (Cons e es)
  define s1 where "s1 = (if b \<and> \<not> e_on_rq (ent_of s e)
     then op_enqueue_entity (bw_ents B) (e_cfs_rq (ent_of s e)) e ENQUEUE_WAKEUP s else s)"
  define s2 where "s2 = upd_cfs (e_cfs_rq (ent_of s e)) (g_h_nr_running_update (\<lambda>n. n + d)) s1"
  have v: "bw_view C g s2 = bw_view C g s"
    using Cons.prems enqueue_keeps by (simp add: s2_def s1_def upd_cfs_keeps_view)
  then have "\<forall>e\<in>set es. e_cfs_rq (ent_of s2 e) \<notin> C" using Cons.prems bw_view_fields(6) [OF v] by simp
  from Cons.IH [OF this] show ?case using v by (simp add: Let_def s1_def [symmetric] s2_def [symmetric])
qed simp

text \<open>Starting the timer ends, and only marks it as active.\<close>

lemma start_ends:
  assumes "\<not> timer_active (bw_of s g)"
  shows "\<exists>t. start_cfs_bandwidth B g s = Some t \<and> bw_view C g t = bw_view C g (upd_bw g (timer_active_update (\<lambda>_. True)) s)"
proof -
  have idle: "\<exists>t. start_cfs_bandwidth B g s = Some t \<and> bw_view C g t = bw_view C g (upd_bw g (timer_active_update (\<lambda>_. True)) s)"
    if "\<not> period_timer_active B g (elsewhere s)" for s
    using that by (subst start_cfs_bandwidth.simps) simp
  show ?thesis
  proof (cases "period_timer_active B g (elsewhere s)")
    case True
    define s1 where "s1 = cancel_period_timer B g s"
    have v: "bw_view C g s1 = bw_view C g s" by (simp add: s1_def cancel_keeps)
    have "\<not> timer_active (bw_of s1 g)" using assms bw_view_fields(1) [OF v] by simp
    then have "start_cfs_bandwidth B g s = start_cfs_bandwidth B g s1"
      using True by (subst start_cfs_bandwidth.simps) (simp add: s1_def)
    moreover have "bw_view C g (upd_bw g (timer_active_update (\<lambda>_. True)) s1) = bw_view C g (upd_bw g (timer_active_update (\<lambda>_. True)) s)"
      by (rule view_upd_bw [OF v])
    moreover have "\<not> period_timer_active B g (elsewhere s1)" by (simp add: s1_def cancel_inactive)
    ultimately show ?thesis using idle [of s1] by simp
  qed (rule idle)
qed

text \<open>A draw from the pool.\<close>

lemma draw_credit:
  assumes "sane_pool C g s" and "c \<in> C" and "sint (runtime_remaining (cfs_of s c)) \<le> 0"
    and "amount = min (b_runtime (bw_of s g)) (sched_cfs_bandwidth_slice u - runtime_remaining (cfs_of s c))"
  shows "credit C g (upd_cfs c (\<lambda>q. q\<lparr>runtime_remaining := runtime_remaining q + amount, runtime_expires := x q\<rparr>)
       (upd_bw g (\<lambda>b. b\<lparr>b_runtime := b_runtime b - amount, b_idle := False\<rparr>) s)) = credit C g s"
proof -
  have le: "uint amount \<le> uint (b_runtime (bw_of s g))" using assms(4) by (simp add: word_le_def min_def)
  then have small: "uint amount < 2 ^ 62" using assms(1) by (simp add: sane_pool_def)
  have b: "uint (b_runtime (bw_of s g) - amount) = uint (b_runtime (bw_of s g)) - uint amount"
    by (rule uint_sub_64 [OF le])
  have r: "sint (runtime_remaining (cfs_of s c) + amount) = sint (runtime_remaining (cfs_of s c)) + uint amount"
    using small assms(3) by (intro sint_add_uint_64) simp_all
  have "finite C" using assms(1) by (simp add: sane_pool_def)
  then show ?thesis using assms(2) b r by (simp add: credit_cfs credit_bw)
qed

lemma refill_credit:
  assumes "sane_pool C g s"
  shows "credit C g (refill_cfs_bandwidth_runtime B g s) \<le> credit C g s + uint (quota (bw_of s g))"
    and "sane_pool C g (refill_cfs_bandwidth_runtime B g s)"
    and "quota (bw_of (refill_cfs_bandwidth_runtime B g s) g) = quota (bw_of s g)"
    and "cfs_of (refill_cfs_bandwidth_runtime B g s) = cfs_of s"
    and "timer_active (bw_of (refill_cfs_bandwidth_runtime B g s) g) = timer_active (bw_of s g)"
  using sane_limited [OF assms] assms by (simp_all add: refill_cfs_bandwidth_runtime_def credit_bw sane_pool_def)

lemma credit_timer: "credit C g (upd_bw g (timer_active_update f) s) = credit C g s"
  by (simp add: credit_bw)

lemma sane_timer: "sane_pool C g (upd_bw g (timer_active_update f) s) = sane_pool C g s"
  by (simp add: sane_pool_def)

text \<open>Before a draw the pool may be refilled, when its timer was off.\<close>

lemma pool_ready:
  assumes "sane_pool C g s"
  shows "\<exists>s1. (if \<not> timer_active (bw_of s g) then start_cfs_bandwidth B g (refill_cfs_bandwidth_runtime B g s) else Some s) = Some s1
    \<and> sane_pool C g s1 \<and> timer_active (bw_of s1 g) \<and> quota (bw_of s1 g) = quota (bw_of s g)
    \<and> (\<forall>c\<in>C. runtime_remaining (cfs_of s1 c) = runtime_remaining (cfs_of s c) \<and> throttled (cfs_of s1 c) = throttled (cfs_of s c)) \<and> (bw_ok C g s \<longrightarrow> bw_ok C g s1)
    \<and> credit C g s1 \<le> credit C g s + (if timer_active (bw_of s g) then 0 else uint (quota (bw_of s g)))"
proof (cases "timer_active (bw_of s g)")
  case False
  define r where "r = refill_cfs_bandwidth_runtime B g s"
  have "\<not> timer_active (bw_of r g)" using False by (simp add: r_def refill_credit(5) [OF assms])
  from start_ends [OF this] obtain t where t: "start_cfs_bandwidth B g r = Some t"
      "bw_view C g t = bw_view C g (upd_bw g (timer_active_update (\<lambda>_. True)) r)" by blast
  have "sane_pool C g t" using refill_credit(2) [OF assms] by (simp add: sane_pool_view [OF t(2)] sane_timer r_def)
  moreover have "credit C g t \<le> credit C g s + uint (quota (bw_of s g))"
    using refill_credit(1) [OF assms] by (simp add: credit_view [OF t(2)] credit_timer r_def)
  moreover have "timer_active (bw_of t g)" "quota (bw_of t g) = quota (bw_of s g)"
    using refill_credit(3) [OF assms] by (simp_all add: bw_view_fields(1) [OF t(2)] r_def)
  moreover have "runtime_remaining (cfs_of t c) = runtime_remaining (cfs_of s c) \<and> throttled (cfs_of t c) = throttled (cfs_of s c)" if "c \<in> C" for c
    using bw_view_fields(4,7) [OF t(2) that] by (simp add: r_def refill_credit(4) [OF assms])
  moreover have "bw_ok C g t" if "bw_ok C g s"
  proof -
    have "bw_ok C g (upd_bw g (timer_active_update (\<lambda>_. True)) r)"
      by (rule bw_ok_step [OF that]) (simp_all add: r_def refill_cfs_bandwidth_runtime_def)
    then show ?thesis by (rule bw_ok_view [OF t(2)])
  qed
  ultimately show ?thesis using False t(1) by (simp add: r_def)
qed (use assms in simp)

lemma sane_pool_cfs [simp]: "sane_pool C g (upd_cfs c f s) = sane_pool C g s"
  by (simp add: sane_pool_def)

lemma assign_credit:
  assumes "sane_pool C g s" and "c \<in> C" and "g_tg (cfs_of s c) = g" and "sint (runtime_remaining (cfs_of s c)) \<le> 0"
  shows "\<exists>ok t. assign_cfs_rq_runtime B c s = Some (ok, t) \<and> quota (bw_of t g) = quota (bw_of s g) \<and> timer_active (bw_of t g)
    \<and> throttled (cfs_of t c) = throttled (cfs_of s c) \<and> (bw_ok C g s \<longrightarrow> bw_ok C g t)
    \<and> credit C g t \<le> credit C g s + (if timer_active (bw_of s g) then 0 else uint (quota (bw_of s g)))"
proof -
  obtain s1 where s1: "(if \<not> timer_active (bw_of s g) then start_cfs_bandwidth B g (refill_cfs_bandwidth_runtime B g s) else Some s) = Some s1"
      "sane_pool C g s1" "timer_active (bw_of s1 g)" "quota (bw_of s1 g) = quota (bw_of s g)"
      "runtime_remaining (cfs_of s1 c) = runtime_remaining (cfs_of s c)" "bw_ok C g s \<longrightarrow> bw_ok C g s1" "throttled (cfs_of s1 c) = throttled (cfs_of s c)"
      "credit C g s1 \<le> credit C g s + (if timer_active (bw_of s g) then 0 else uint (quota (bw_of s g)))"
    using pool_ready [OF assms(1)] assms(2) by blast
  define amount where "amount = (if b_runtime (bw_of s1 g) > 0
     then min (b_runtime (bw_of s1 g)) (sched_cfs_bandwidth_slice s - runtime_remaining (cfs_of s c)) else 0)"
  define s2 where "s2 = (if b_runtime (bw_of s1 g) > 0
     then upd_bw g (\<lambda>b. b\<lparr>b_runtime := b_runtime b - amount, b_idle := False\<rparr>) s1 else s1)"
  define x where "x = (\<lambda>q :: gcfs. if sint (b_runtime_expires (bw_of s2 g) - runtime_expires q) > 0 then b_runtime_expires (bw_of s2 g) else runtime_expires q)"
  define t where "t = upd_cfs c (\<lambda>q. q\<lparr>runtime_remaining := runtime_remaining q + amount, runtime_expires := x q\<rparr>) s2"
  have fin: "finite C" using assms(1) by (simp add: sane_pool_def)
  have "assign_cfs_rq_runtime B c s = Some (sint (runtime_remaining (cfs_of t c)) > 0, t)"
    using s1(1) sane_limited [OF assms(1)] assms(3)
    by (simp add: assign_cfs_rq_runtime_def Let_def t_def x_def s2_def amount_def cong: if_cong)
  moreover have "quota (bw_of t g) = quota (bw_of s g)" "timer_active (bw_of t g)" "throttled (cfs_of t c) = throttled (cfs_of s c)"
    using s1(3,4,7) by (simp_all add: t_def s2_def)
  moreover have "credit C g t = credit C g s1"
  proof (cases "b_runtime (bw_of s1 g) > 0")
    case True
    then show ?thesis
      using draw_credit [OF s1(2) assms(2), of amount s x] assms(4) s1(5) by (simp add: t_def s2_def amount_def)
  next
    case False
    then show ?thesis by (simp add: t_def s2_def amount_def credit_cfs [OF fin assms(2)])
  qed
  moreover have "bw_ok C g t" if "bw_ok C g s"
    by (rule bw_ok_step [of C g s1]) (use that s1(6) in \<open>simp_all add: t_def s2_def\<close>)
  ultimately show ?thesis using s1(8) by metis
qed

text \<open>Charging \<open>delta\<close> nanoseconds of execution.\<close>

lemma account_credit:
  assumes "sane C g s" and "c \<in> C" and "g_tg (cfs_of s c) = g" and "runtime_enabled (cfs_of s c)" and "uint delta < 2 ^ 62"
  shows "\<exists>t. account_cfs_rq_runtime B c delta s = Some t \<and> quota (bw_of t g) = quota (bw_of s g)
    \<and> throttled (cfs_of t c) = throttled (cfs_of s c) \<and> (bw_ok C g s \<longrightarrow> bw_ok C g t)
    \<and> credit C g t + uint delta \<le> credit C g s + (if timer_active (bw_of s g) \<or> \<not> timer_active (bw_of t g) then 0 else uint (quota (bw_of s g)))"
proof -
  define s0 where "s0 = upd_cfs c (runtime_remaining_update (\<lambda>r. r - delta)) s"
  define s1 where "s1 = expire_cfs_rq_runtime B c s0"
  have fin: "finite C" and pool: "sane_pool C g s" using assms(1) by (simp_all add: sane_def sane_pool_def)
  have "sint (runtime_remaining (cfs_of s c) - delta) = sint (runtime_remaining (cfs_of s c)) - uint delta"
    using assms(1,2,5) by (intro sint_sub_uint_64) (force simp: sane_def)+
  then have c0: "credit C g s0 = credit C g s - uint delta" by (simp add: s0_def credit_cfs [OF fin assms(2)])
  have c1: "credit C g s1 \<le> credit C g s0" "bw_of s1 g = bw_of s g" "g_tg (cfs_of s1 c) = g" "sane_pool C g s1"
      "throttled (cfs_of s1 c) = throttled (cfs_of s c)"
    using assms(3) pool
    by (simp_all add: s1_def expire_cfs_rq_runtime_def Let_def s0_def credit_cfs [OF fin assms(2)])
  have p1: "bw_ok C g s1" if "bw_ok C g s"
    by (rule bw_ok_step [OF that]) (simp_all add: s1_def expire_cfs_rq_runtime_def Let_def s0_def)
  show ?thesis
  proof (cases "sint (runtime_remaining (cfs_of s1 c)) > 0")
    case True
    then have "account_cfs_rq_runtime B c delta s = Some s1"
      using assms(4) by (simp add: account_cfs_rq_runtime_def cfs_bandwidth_used_def raw_account_cfs_rq_runtime_def Let_def s1_def s0_def)
    then show ?thesis using c0 c1 p1 by simp
  next
    case False
    then obtain ok t where t: "assign_cfs_rq_runtime B c s1 = Some (ok, t)" "quota (bw_of t g) = quota (bw_of s1 g)"
        "timer_active (bw_of t g)" "throttled (cfs_of t c) = throttled (cfs_of s1 c)" "bw_ok C g s1 \<longrightarrow> bw_ok C g t"
        "credit C g t \<le> credit C g s1 + (if timer_active (bw_of s1 g) then 0 else uint (quota (bw_of s1 g)))"
      using assign_credit [OF c1(4) assms(2) c1(3)] by auto
    define u where "u = (if \<not> ok \<and> g_curr (cfs_of t c) \<noteq> None then resched_curr (g_rq (cfs_of t c)) t else t)"
    have v: "bw_view C g u = bw_view C g t" by (simp add: u_def)
    have "account_cfs_rq_runtime B c delta s = Some u"
      using assms(4) False t(1)
      by (simp add: account_cfs_rq_runtime_def cfs_bandwidth_used_def raw_account_cfs_rq_runtime_def Let_def s1_def s0_def u_def)
    then show ?thesis
      using c0 c1 t p1 credit_view [OF v] bw_view_fields(1) [OF v] bw_view_fields(7) [OF v assms(2)] bw_ok_view [OF v] by (simp split: if_splits)
  qed
qed

section \<open>Throttling and the timers\<close>

text \<open>Throttling a run queue and letting it go change the marks and the list, but no runtime.\<close>

definition same_budget :: "'y grp \<Rightarrow> 'y grp \<Rightarrow> bool" where
  "same_budget s t \<longleftrightarrow> quota (bw_of t g) = quota (bw_of s g) \<and> b_runtime (bw_of t g) = b_runtime (bw_of s g)
     \<and> b_runtime_expires (bw_of t g) = b_runtime_expires (bw_of s g)
     \<and> timer_active (bw_of t g) = timer_active (bw_of s g) \<and> b_period (bw_of t g) = b_period (bw_of s g)
     \<and> t_cfs_rq (tg_of t g) = t_cfs_rq (tg_of s g)
     \<and> (\<forall>c\<in>C. runtime_remaining (cfs_of t c) = runtime_remaining (cfs_of s c)) \<and> (placed C g s \<longrightarrow> placed C g t)"

lemma same_budget_credit:
  assumes "same_budget s t"
  shows "credit C g t = credit C g s" "sane_pool C g t = sane_pool C g s" "sane C g t = sane C g s"
  using assms by (simp_all add: same_budget_def credit_def sane_def sane_pool_def)

lemma unthrottle_keeps:
  assumes "placed C g s" and "c \<in> C" and "unthrottle_cfs_rq B c s = Some t"
  shows "same_budget s t" and "throttled_cfs_rq (bw_of t g) = remove1 c (throttled_cfs_rq (bw_of s g))"
    and "d \<in> C \<Longrightarrow> throttled (cfs_of t d) = (d \<noteq> c \<and> throttled (cfs_of s d))"
proof -
  have gc: "g_tg (cfs_of s c) = g" using assms(1,2) by (simp add: placed_def)
  define cpu where "cpu = g_rq (cfs_of s c)"
  define s2 where "s2 = upd_bw g (\<lambda>b. b\<lparr>throttled_time := throttled_time b + (q_clock (cpu_rq s cpu) - throttled_clock (cfs_of s c)),
               throttled_cfs_rq := remove1 c (throttled_cfs_rq b)\<rparr>) (upd_cfs c (throttled_update (\<lambda>_. False)) s)"
  obtain es r s3 where es: "for_each_sched_entity s (t_se (tg_of s g) cpu) = Some es"
    and w: "walk_tg_tree_from children_of parent_of g tg_nop (tg_unthrottle_up cpu) (op_update_rq_clock (bw_ents B) cpu s2) = Some (r, s3)"
    using assms(3) gc by (auto simp: unthrottle_cfs_rq_def Let_def cpu_def s2_def split: bind_splits)
  have v3: "bw_view C g s3 = bw_view C g s2"
    using walk_keeps_view [OF w] by (simp add: visitors_keep_view clock_keeps)
  have "\<forall>e\<in>set es. e_cfs_rq (ent_of s3 e) \<notin> C"
    using assms(1) es bw_view_fields(6) [OF v3] by (auto simp: placed_def s2_def)
  from unthrottle_chain_keeps [OF this]
  have v4: "bw_view C g (snd (unthrottle_chain (bw_ents B) d es b s3)) = bw_view C g s2" for d b by (simp add: v3)
  have v: "bw_view C g t = bw_view C g s2"
    using assms(3) es w v3 v4 [of "g_h_nr_running (cfs_of s3 c)" True]
    by (auto simp: gc unthrottle_cfs_rq_def Let_def cpu_def [symmetric] s2_def [symmetric] case_prod_beta split: if_splits)
  have s2: "bw_of s2 g = (bw_of s g)\<lparr>throttled_time := throttled_time (bw_of s g) + (q_clock (cpu_rq s cpu) - throttled_clock (cfs_of s c)),
      throttled_cfs_rq := remove1 c (throttled_cfs_rq (bw_of s g))\<rparr>"
    "\<And>d. runtime_remaining (cfs_of s2 d) = runtime_remaining (cfs_of s d)" "\<And>d. g_tg (cfs_of s2 d) = g_tg (cfs_of s d)"
    "\<And>d. throttled (cfs_of s2 d) = (d \<noteq> c \<and> throttled (cfs_of s d))" "t_se (tg_of s2 g) = t_se (tg_of s g)" "ent_of s2 = ent_of s" "t_cfs_rq (tg_of s2 g) = t_cfs_rq (tg_of s g)"
    "\<And>h. children_of s2 h = children_of s h" "\<And>h. parent_of s2 h = parent_of s h"
    by (simp_all add: s2_def)
  have "placed C g t" if "placed C g s"
    by (rule placed_step [OF that]) (simp_all add: bw_view_fields(2,3,5,6,8,9) [OF v] s2)
  then show "same_budget s t" by (simp add: same_budget_def bw_view_fields(1,4,10) [OF v] s2)
  show "throttled_cfs_rq (bw_of t g) = remove1 c (throttled_cfs_rq (bw_of s g))" by (simp add: bw_view_fields(1) [OF v] s2)
  show "d \<in> C \<Longrightarrow> throttled (cfs_of t d) = (d \<noteq> c \<and> throttled (cfs_of s d))" by (simp add: bw_view_fields(7) [OF v] s2)
qed

lemma throttle_keeps:
  assumes "placed C g s" and "c \<in> C" and "throttle_cfs_rq B c s = Some t"
  shows "same_budget s t" and "throttled_cfs_rq (bw_of t g) = throttled_cfs_rq (bw_of s g) @ [c]"
    and "d \<in> C \<Longrightarrow> throttled (cfs_of t d) = (d = c \<or> throttled (cfs_of s d))"
proof -
  have gc: "g_tg (cfs_of s c) = g" using assms(1,2) by (simp add: placed_def)
  define cpu where "cpu = g_rq (cfs_of s c)"
  obtain es r s1 where es: "for_each_sched_entity s (t_se (tg_of s g) cpu) = Some es"
    and w: "walk_tg_tree_from children_of parent_of g (tg_throttle_down cpu) tg_nop s = Some (r, s1)"
    using assms(3) gc by (auto simp: throttle_cfs_rq_def Let_def cpu_def split: bind_splits)
  have v1: "bw_view C g s1 = bw_view C g s"
    using walk_keeps_view [OF w] by (simp add: visitors_keep_view)
  have "\<forall>e\<in>set es. e_cfs_rq (ent_of s1 e) \<notin> C"
    using assms(1) es bw_view_fields(6) [OF v1] by (auto simp: placed_def)
  from throttle_chain_keeps [OF this]
  have v2: "bw_view C g (snd (throttle_chain (bw_ents B) d es b s1)) = bw_view C g s" for d b by (simp add: v1)
  define s2 where "s2 = snd (throttle_chain (bw_ents B) (g_h_nr_running (cfs_of s1 c)) es True s1)"
  define s3 where "s3 = (if fst (throttle_chain (bw_ents B) (g_h_nr_running (cfs_of s1 c)) es True s1)
     then upd_rq cpu (q_nr_running_update (\<lambda>n. n - g_h_nr_running (cfs_of s1 c))) s2 else s2)"
  have t: "t = upd_bw g (throttled_cfs_rq_update (\<lambda>l. l @ [c]))
      (upd_cfs c (\<lambda>q. q\<lparr>throttled := True, throttled_clock := q_clock (cpu_rq s3 cpu)\<rparr>) s3)"
    using assms(3) es w
    by (cases "fst (throttle_chain (bw_ents B) (g_h_nr_running (cfs_of s1 c)) es True s1)")
      (simp_all add: gc throttle_cfs_rq_def Let_def cpu_def [symmetric] s2_def s3_def case_prod_beta)
  have v: "bw_view C g s2 = bw_view C g s" by (simp add: s2_def v2)
  have f: "quota (bw_of t g) = quota (bw_of s2 g)" "b_runtime (bw_of t g) = b_runtime (bw_of s2 g)"
      "b_runtime_expires (bw_of t g) = b_runtime_expires (bw_of s2 g)" "timer_active (bw_of t g) = timer_active (bw_of s2 g)"
      "b_period (bw_of t g) = b_period (bw_of s2 g)" "t_cfs_rq (tg_of t g) = t_cfs_rq (tg_of s2 g)"
      "\<And>d. runtime_remaining (cfs_of t d) = runtime_remaining (cfs_of s2 d)" "\<And>d. g_tg (cfs_of t d) = g_tg (cfs_of s2 d)"
      "ent_of t = ent_of s2" "t_se (tg_of t g) = t_se (tg_of s2 g)" "\<And>h. children_of t h = children_of s2 h" "\<And>h. parent_of t h = parent_of s2 h"
      "throttled_cfs_rq (bw_of t g) = throttled_cfs_rq (bw_of s2 g) @ [c]"
      "\<And>d. throttled (cfs_of t d) = (d = c \<or> throttled (cfs_of s2 d))"
    by (simp_all add: t s3_def)
  have "placed C g t" if "placed C g s"
    by (rule placed_step [OF that]) (simp_all add: f bw_view_fields(2,3,5,6,8,9) [OF v])
  then show "same_budget s t" by (simp add: same_budget_def f bw_view_fields(1,4,10) [OF v])
  show "throttled_cfs_rq (bw_of t g) = throttled_cfs_rq (bw_of s g) @ [c]" by (simp add: f bw_view_fields(1) [OF v])
  show "d \<in> C \<Longrightarrow> throttled (cfs_of t d) = (d = c \<or> throttled (cfs_of s d))" by (simp add: f bw_view_fields(7) [OF v])
qed

lemma unthrottle_ok:
  assumes "bw_ok C g s" and "c \<in> C" and "unthrottle_cfs_rq B c s = Some t"
  shows "bw_ok C g t"
proof -
  have p: "placed C g s" using assms(1) by (simp add: bw_ok_def)
  note k = unthrottle_keeps [OF p assms(2,3)]
  have "listed C g t" using assms(1) k(2) k(3) by (auto simp: bw_ok_def listed_def)
  then show ?thesis using p k(1) by (simp add: bw_ok_def same_budget_def)
qed

lemma throttle_ok:
  assumes "bw_ok C g s" and "c \<in> C" and "\<not> throttled (cfs_of s c)" and "throttle_cfs_rq B c s = Some t"
  shows "bw_ok C g t"
proof -
  have p: "placed C g s" using assms(1) by (simp add: bw_ok_def)
  note k = throttle_keeps [OF p assms(2,4)]
  have "listed C g t" using assms(1-3) k(2) k(3) by (auto simp: bw_ok_def listed_def)
  then show ?thesis using p k(1) by (simp add: bw_ok_def same_budget_def)
qed

lemma distribute_credit:
  assumes "bw_ok C g s" and "sane C g s" and "distinct cs" and "set cs \<subseteq> C" and "\<forall>c\<in>set cs. throttled (cfs_of s c)"
    and "uint pool < 2 ^ 62" and "distribute_list B cs pool expires s = Some (r, t)"
  shows "uint r + credit C g t = uint pool + credit C g s \<and> quota (bw_of t g) = quota (bw_of s g)
    \<and> b_runtime (bw_of t g) = b_runtime (bw_of s g) \<and> b_runtime_expires (bw_of t g) = b_runtime_expires (bw_of s g)
    \<and> bw_ok C g t \<and> (r \<noteq> 0 \<longrightarrow> throttled_cfs_rq (bw_of t g) = fold remove1 cs (throttled_cfs_rq (bw_of s g)))"
  using assms
proof (induction cs arbitrary: pool s)
  case (Cons c cs)
  define rem where "rem = runtime_remaining (cfs_of s c)"
  define amount where "amount = (if - rem + 1 > pool then pool else - rem + 1)"
  define s1 where "s1 = upd_cfs c (\<lambda>q. q\<lparr>runtime_remaining := runtime_remaining q + amount, runtime_expires := expires\<rparr>) s"
  have c: "c \<in> C" "throttled (cfs_of s c)" using Cons.prems(4,5) by simp_all
  have fin: "finite C" using Cons.prems(2) by (simp add: sane_def sane_pool_def)
  have "sint rem < 2 ^ 62" using Cons.prems(2) c(1) by (simp add: sane_def rem_def)
  note ga = give_amount [OF Cons.prems(6) this amount_def]
  have c1: "credit C g s1 = credit C g s + uint amount"
    using ga(2) by (simp add: s1_def credit_cfs [OF fin c(1)] rem_def)
  have o1: "bw_ok C g s1" by (rule bw_ok_step [OF Cons.prems(1)]) (simp_all add: s1_def)
  then have p1: "placed C g s1" by (simp add: bw_ok_def)
  have f1: "bw_of s1 g = bw_of s g" "\<And>d. throttled (cfs_of s1 d) = throttled (cfs_of s d)" by (simp_all add: s1_def)
  have eq: "distribute_list B (c # cs) pool expires s =
      Option.bind (if sint (runtime_remaining (cfs_of s1 c)) > 0 then unthrottle_cfs_rq B c s1 else Some s1)
        (\<lambda>s2. if pool - amount = 0 then Some (pool - amount, s2) else distribute_list B cs (pool - amount) expires s2)"
    using c(2) by (simp only: distribute_list.simps cfs_rq_throttled_def cfs_bandwidth_used_def Let_def rem_def amount_def s1_def) simp
  obtain s2 where s2: "(if sint (runtime_remaining (cfs_of s1 c)) > 0 then unthrottle_cfs_rq B c s1 else Some s1) = Some s2"
      "(if pool - amount = 0 then Some (pool - amount, s2) else distribute_list B cs (pool - amount) expires s2) = Some (r, t)"
    using Cons.prems(7) unfolding eq by (auto split: bind_splits)
  have b: "same_budget s1 s2" using s2(1) unthrottle_keeps(1) [OF p1 c(1)] by (auto simp: same_budget_def split: if_splits)
  have o2: "bw_ok C g s2" using s2(1) o1 unthrottle_ok [OF o1 c(1)] by (auto split: if_splits)
  note cr = same_budget_credit [OF b]
  show ?case
  proof (cases "pool - amount = 0")
    case True
    then have "r = 0" "t = s2" using s2(2) by simp_all
    moreover have "uint amount = uint pool" using ga(1) True by simp
    ultimately show ?thesis using cr(1) c1 b f1 o2 by (simp add: same_budget_def)
  next
    case False
    have one: "runtime_remaining (cfs_of s1 c) = 1" using ga(3) [OF False] by (simp add: s1_def rem_def)
    then have u: "unthrottle_cfs_rq B c s1 = Some s2" using s2(1) by simp
    have "sane C g s1" using Cons.prems(2) one by (auto simp: sane_def s1_def)
    then have ok2: "sane C g s2" using cr(3) by simp
    have thr: "\<forall>d\<in>set cs. throttled (cfs_of s2 d)"
      using unthrottle_keeps(3) [OF p1 c(1) u] Cons.prems(3,4,5) f1 by auto
    have l2: "throttled_cfs_rq (bw_of s2 g) = remove1 c (throttled_cfs_rq (bw_of s g))"
      using unthrottle_keeps(2) [OF p1 c(1) u] f1 by simp
    have small: "uint (pool - amount) < 2 ^ 62" using ga(4) Cons.prems(6) by linarith
    have "distribute_list B cs (pool - amount) expires s2 = Some (r, t)" using s2(2) False by simp
    from Cons.IH [OF o2 ok2 _ _ thr small this] show ?thesis
      using Cons.prems(3,4) cr(1) c1 b f1 l2 ga(1) by (simp add: same_budget_def)
  qed
qed simp

text \<open>One pass is enough: then the pool is empty or nobody is throttled.\<close>

lemma distribute_loop_once:
  assumes "bw_ok C g s" and "sane C g s" and "uint pool < 2 ^ 62"
    and "distribute_loop B g pool expires s = Some (r, t)"
  shows "uint r + credit C g t = uint pool + credit C g s \<and> quota (bw_of t g) = quota (bw_of s g)
    \<and> b_runtime (bw_of t g) = b_runtime (bw_of s g) \<and> bw_ok C g t \<and> (r = 0 \<or> throttled_cfs_rq (bw_of t g) = [])"
proof (cases "throttled_cfs_rq (bw_of s g) \<noteq> [] \<and> pool > 0")
  case True
  have "distribute_loop B g pool expires s = Option.bind (distribute_cfs_runtime B g pool expires s) (\<lambda>(r, s1). distribute_loop B g r expires s1)"
    using True by (subst distribute_loop.simps) simp
  then obtain r1 s1 where d: "distribute_cfs_runtime B g pool expires s = Some (r1, s1)" and rest: "distribute_loop B g r1 expires s1 = Some (r, t)"
    using assms(4) by (auto split: bind_splits)
  have c: "uint r1 + credit C g s1 = uint pool + credit C g s \<and> quota (bw_of s1 g) = quota (bw_of s g)
    \<and> b_runtime (bw_of s1 g) = b_runtime (bw_of s g) \<and> bw_ok C g s1 \<and> (r1 \<noteq> 0 \<longrightarrow> throttled_cfs_rq (bw_of s1 g) = [])"
    using distribute_credit [OF assms(1,2) _ _ _ assms(3), of "throttled_cfs_rq (bw_of s g)" expires r1 s1] d assms(1)
    by (simp add: bw_ok_def listed_def distribute_cfs_runtime_def fold_remove1_self)
  moreover have "r = r1 \<and> t = s1"
    using rest c by (subst (asm) distribute_loop.simps) (auto split: if_splits)
  ultimately show ?thesis by auto
next
  case False
  then have "distribute_loop B g pool expires s = Some (pool, s)" by (subst distribute_loop.simps) auto
  then show ?thesis using False assms(1,4) by (auto simp: word_gt_0)
qed

lemma period_credit:
  assumes "bw_ok C g s" and "sane C g s" and "do_sched_cfs_period_timer B g overrun s = Some (idle, t)"
  shows "quota (bw_of t g) = quota (bw_of s g) \<and> bw_ok C g t \<and>
     credit C g t \<le> credit C g s + (if idle then 0 else uint (quota (bw_of s g)))"
proof -
  have pool: "sane_pool C g s" using assms(2) by (simp add: sane_def)
  note limited = sane_limited [OF pool]
  define s1 where "s1 = upd_bw g (nr_periods_update (\<lambda>n. n + overrun)) s"
  define s2 where "s2 = refill_cfs_bandwidth_runtime B g s1"
  have s1: "quota (bw_of s1 g) = quota (bw_of s g)" "credit C g s1 = credit C g s" "sane_pool C g s1" "cfs_of s1 = cfs_of s"
    using pool by (simp_all add: s1_def credit_bw sane_pool_def)
  note s2 = refill_credit [OF s1(3), folded s2_def]
  have q2: "b_runtime (bw_of s2 g) = quota (bw_of s g)" using limited by (simp add: s2_def s1_def refill_cfs_bandwidth_runtime_def)
  have o2: "bw_ok C g s1" "bw_ok C g s2"
    using limited by (auto intro!: bw_ok_step [OF assms(1)] simp: s2_def s1_def refill_cfs_bandwidth_runtime_def)
  have upd: "bw_ok C g (upd_bw g f u)" if "bw_ok C g u" "\<And>b. throttled_cfs_rq (f b) = throttled_cfs_rq b" for f u
    by (rule bw_ok_step [OF that(1)]) (simp_all add: that(2))
  show ?thesis
  proof (cases "throttled_cfs_rq (bw_of s g) = []")
    case True
    then show ?thesis
      using assms(3) limited s1 s2 o2
      by (auto intro!: upd simp: do_sched_cfs_period_timer_def Let_def s1_def [symmetric] s2_def [symmetric] credit_bw split: if_splits)
  next
    case False
    define s3 where "s3 = upd_bw g (\<lambda>b. b\<lparr>nr_throttled := nr_throttled b + overrun, b_runtime := 0\<rparr>) s2"
    obtain r s4 where l: "distribute_loop B g (b_runtime (bw_of s2 g)) (b_runtime_expires (bw_of s2 g)) s3 = Some (r, s4)"
      and t: "idle = False" "t = upd_bw g (\<lambda>b. b\<lparr>b_runtime := r, b_idle := False\<rparr>) s4"
      using assms(3) limited False
      by (auto simp: do_sched_cfs_period_timer_def Let_def s1_def [symmetric] s2_def [symmetric] s3_def [symmetric] split: bind_splits)
    have "bw_ok C g s3" unfolding s3_def by (rule upd [OF o2(2)]) simp
    moreover have "sane C g s3" using assms(2) s2 s1 by (simp add: sane_def sane_pool_def s3_def)
    moreover have "uint (b_runtime (bw_of s2 g)) < 2 ^ 62" using q2 pool by (simp add: sane_pool_def)
    ultimately have "uint r + credit C g s4 = uint (b_runtime (bw_of s2 g)) + credit C g s3 \<and> quota (bw_of s4 g) = quota (bw_of s3 g)
        \<and> b_runtime (bw_of s4 g) = b_runtime (bw_of s3 g) \<and> bw_ok C g s4"
      using distribute_loop_once [OF _ _ _ l] by blast
    moreover from this have "bw_ok C g t" unfolding t(2) by (intro upd) simp_all
    ultimately show ?thesis using s2 s1 t by (simp add: credit_bw s3_def)
  qed
qed

lemma slack_credit:
  assumes "bw_ok C g s" and "sane C g s" and "do_sched_cfs_slack_timer B g s = Some t"
  shows "quota (bw_of t g) = quota (bw_of s g) \<and> bw_ok C g t \<and> credit C g t \<le> credit C g s"
proof (cases "t = s")
  case False
  have pool: "sane_pool C g s" using assms(2) by (simp add: sane_def)
  define b where "b = bw_of s g"
  define s0 where "s0 = upd_bw g (b_runtime_update (\<lambda>_. 0)) s"
  obtain r s1 where d: "distribute_cfs_runtime B g (b_runtime b) (b_runtime_expires b) s0 = Some (r, s1)"
    and t: "t = (if b_runtime_expires b = b_runtime_expires (bw_of s1 g) then upd_bw g (b_runtime_update (\<lambda>_. r)) s1 else s1)"
    using assms(3) False by (auto simp: do_sched_cfs_slack_timer_def Let_def b_def s0_def split: if_splits bind_splits)
  have "bw_ok C g s0" by (rule bw_ok_step [OF assms(1)]) (simp_all add: s0_def)
  moreover have "sane C g s0" using assms(2) by (simp add: sane_def sane_pool_def s0_def)
  moreover have "uint (b_runtime b) < 2 ^ 62" using pool by (simp add: sane_pool_def b_def)
  ultimately have "uint r + credit C g s1 = uint (b_runtime b) + credit C g s0 \<and> quota (bw_of s1 g) = quota (bw_of s0 g)
      \<and> b_runtime (bw_of s1 g) = b_runtime (bw_of s0 g) \<and> bw_ok C g s1"
    using distribute_credit [of s0 "throttled_cfs_rq (bw_of s0 g)" "b_runtime b" "b_runtime_expires b" r s1] d assms(1)
    by (simp add: bw_ok_def listed_def distribute_cfs_runtime_def s0_def)
  moreover have "credit C g s0 = credit C g s - uint (b_runtime b)" by (simp add: s0_def credit_bw b_def)
  ultimately have e: "uint r + credit C g s1 = credit C g s" "quota (bw_of s1 g) = quota (bw_of s g)" "b_runtime (bw_of s1 g) = 0" "bw_ok C g s1"
    by (simp_all add: s0_def)
  have "credit C g s1 \<le> credit C g s" using e(1) unsigned_greater_eq [of r, where ?'a = int] by linarith
  moreover have "bw_ok C g t" by (rule bw_ok_step [OF e(4)]) (simp_all add: t)
  ultimately show ?thesis using e t by (simp add: credit_bw)
qed (use assms in simp)

end

end
