(* ===== verification/Sched_Shares_Props.thy ===== *)
theory Sched_Shares_Props
  imports Sched_Shares
begin

text \<open>
  The load of a run queue and the weights of what is queued on it.  A change of shares reweights the entity of the group
  on every processor and every entity above it, in place.
\<close>

section \<open>What reweighting relies on\<close>

text \<open>\<open>update_curr\<close> moves clocks and virtual times, and may cache the inverse of a weight; weights, counts and links stay.\<close>

locale entity_level =
  fixes E :: "'y ent_ops"
  assumes update_curr_keeps:
      "weight (g_load (cfs_of (op_update_curr E c s) d)) = weight (g_load (cfs_of s d))"
      "g_nr_running (cfs_of (op_update_curr E c s) d) = g_nr_running (cfs_of s d)"
      "weight (e_load (ent_of (op_update_curr E c s) e)) = weight (e_load (ent_of s e))"
      "e_on_rq (ent_of (op_update_curr E c s) e) = e_on_rq (ent_of s e)"
      "e_cfs_rq (ent_of (op_update_curr E c s) e) = e_cfs_rq (ent_of s e)"
      "tg_of (op_update_curr E c s) = tg_of s"

text \<open>The entities on run queue \<open>c\<close>; every run queue counts them and adds up their weights.\<close>

definition queued :: "'y grp \<Rightarrow> nat \<Rightarrow> nat set" where
  "queued s c = {e. e_on_rq (ent_of s e) \<and> e_cfs_rq (ent_of s e) = c}"

definition loads_ok :: "'y grp \<Rightarrow> bool" where
  "loads_ok s \<longleftrightarrow> (\<forall>c. finite (queued s c) \<and> weight (g_load (cfs_of s c)) = (\<Sum>e\<in>queued s c. weight (e_load (ent_of s e)))
      \<and> g_nr_running (cfs_of s c) = of_nat (card (queued s c)))"

lemma loads_ok_keeps:
  assumes "loads_ok s" and "\<And>e. e_on_rq (ent_of t e) = e_on_rq (ent_of s e)" "\<And>e. e_cfs_rq (ent_of t e) = e_cfs_rq (ent_of s e)"
    and "\<And>e. weight (e_load (ent_of t e)) = weight (e_load (ent_of s e))"
    and "\<And>c. weight (g_load (cfs_of t c)) = weight (g_load (cfs_of s c))" "\<And>c. g_nr_running (cfs_of t c) = g_nr_running (cfs_of s c)"
  shows "loads_ok t"
proof -
  have "queued t c = queued s c" for c by (simp add: queued_def assms(2,3))
  then show ?thesis using assms(1) by (simp add: loads_ok_def assms(4-6))
qed

lemma group_account_fields:
  "ent_of (group_entity_enqueue c e s) = ent_of s" "ent_of (group_entity_dequeue c e s) = ent_of s"
  "tg_of (group_entity_enqueue c e s) = tg_of s" "tg_of (group_entity_dequeue c e s) = tg_of s"
  "weight (g_load (cfs_of (group_entity_enqueue c e s) d)) = weight (g_load (cfs_of s d)) + (if d = c then weight (e_load (ent_of s e)) else 0)"
  "weight (g_load (cfs_of (group_entity_dequeue c e s) d)) = weight (g_load (cfs_of s d)) - (if d = c then weight (e_load (ent_of s e)) else 0)"
  "g_nr_running (cfs_of (group_entity_enqueue c e s) d) = g_nr_running (cfs_of s d) + (if d = c then 1 else 0)"
  "g_nr_running (cfs_of (group_entity_dequeue c e s) d) = g_nr_running (cfs_of s d) - (if d = c then 1 else 0)"
  by (simp_all add: group_entity_enqueue_def group_entity_dequeue_def Let_def update_load_add_def update_load_sub_def)

context entity_level
begin

lemma update_curr_loads: "loads_ok s \<Longrightarrow> loads_ok (op_update_curr E c s)"
  by (rule loads_ok_keeps) (simp_all add: update_curr_keeps)

text \<open>The state that reweighting leaves, field by field.\<close>

lemma reweight_fields:
  assumes "e_cfs_rq (ent_of s e) = c"
  shows "tg_of (reweight_entity E c e w s) = tg_of s"
    "e_on_rq (ent_of (reweight_entity E c e w s) i) = e_on_rq (ent_of s i)"
    "e_cfs_rq (ent_of (reweight_entity E c e w s) i) = e_cfs_rq (ent_of s i)"
    "weight (e_load (ent_of (reweight_entity E c e w s) i)) = (if i = e then w else weight (e_load (ent_of s i)))"
    "weight (g_load (cfs_of (reweight_entity E c e w s) d)) =
       weight (g_load (cfs_of s d)) + (if d = c \<and> e_on_rq (ent_of s e) then w - weight (e_load (ent_of s e)) else 0)"
    "g_nr_running (cfs_of (reweight_entity E c e w s) d) = g_nr_running (cfs_of s d)"
  by (simp_all add: reweight_entity_def Let_def group_account_fields update_curr_keeps update_load_set_def)

lemma reweight_loads:
  assumes "loads_ok s" and c: "e_cfs_rq (ent_of s e) = c"
  shows "loads_ok (reweight_entity E c e w s)"
proof -
  define t where "t = reweight_entity E c e w s"
  have q: "queued t d = queued s d" for d by (simp add: queued_def t_def reweight_fields [OF c])
  have "(\<Sum>i\<in>queued s d. weight (e_load (ent_of t i))) =
      (\<Sum>i\<in>queued s d. weight (e_load (ent_of s i))) + (if d = c \<and> e_on_rq (ent_of s e) then w - weight (e_load (ent_of s e)) else 0)" for d
  proof (cases "e \<in> queued s d")
    case True
    have "finite (queued s d)" using assms(1) by (simp add: loads_ok_def)
    moreover have "d = c" "e_on_rq (ent_of s e)" using True c by (simp_all add: queued_def)
    moreover have "(\<Sum>i\<in>queued s d - {e}. weight (e_load (ent_of t i))) = (\<Sum>i\<in>queued s d - {e}. weight (e_load (ent_of s i)))"
      by (rule sum.cong) (auto simp: t_def reweight_fields [OF c])
    ultimately show ?thesis using True by (simp add: sum.remove [of _ e] t_def reweight_fields [OF c])
  next
    case False
    then have "\<not> (d = c \<and> e_on_rq (ent_of s e))" using c by (auto simp: queued_def)
    moreover have "(\<Sum>i\<in>queued s d. weight (e_load (ent_of t i))) = (\<Sum>i\<in>queued s d. weight (e_load (ent_of s i)))"
      using False by (intro sum.cong) (auto simp: t_def reweight_fields [OF c])
    ultimately show ?thesis by auto
  qed
  then have "loads_ok t" using assms(1) by (simp add: loads_ok_def q) (simp add: t_def reweight_fields [OF c])
  then show ?thesis by (simp add: t_def)
qed

lemma update_shares_loads:
  assumes "loads_ok s"
  shows "loads_ok (update_cfs_shares E c s)" "tg_of (update_cfs_shares E c s) = tg_of s"
  using assms by (simp_all add: update_cfs_shares_def Let_def reweight_loads reweight_fields(1) split: option.splits)

lemma fold_shares_loads:
  "loads_ok s \<Longrightarrow> loads_ok (fold (\<lambda>e t. update_cfs_shares E (f e t) t) es s) \<and> tg_of (fold (\<lambda>e t. update_cfs_shares E (f e t) t) es s) = tg_of s"
  by (induction es arbitrary: s) (simp_all add: update_shares_loads)

lemma propagate_loads:
  assumes "loads_ok s" and "propagate_shares E g cpu s = Some t"
  shows "loads_ok t" "tg_of t = tg_of s"
  using assms(2) fold_shares_loads [OF assms(1), of "\<lambda>e t. the (e_my_q (ent_of t e))"] by (auto simp: propagate_shares_def)

lemma for_cpus_loads:
  "loads_ok s \<Longrightarrow> for_cpus (propagate_shares E g) cpus s = Some t \<Longrightarrow> loads_ok t \<and> tg_of t = tg_of s"
proof (induction cpus arbitrary: s)
  case (Cons i cpus)
  from Cons.prems(2) obtain u where u: "propagate_shares E g i s = Some u" "for_cpus (propagate_shares E g) cpus u = Some t"
    by (auto split: bind_splits)
  note p = propagate_loads [OF Cons.prems(1) u(1)]
  from Cons.IH [OF p(1) u(2)] p(2) show ?case by simp
qed simp

lemma clamp_range: "lo \<le> hi \<Longrightarrow> lo \<le> clamp v lo hi \<and> clamp v lo hi \<le> hi"
  by (auto simp: clamp_def Let_def)

text \<open>Writing \<open>cpu.shares\<close>.\<close>

lemma set_shares_loads:
  assumes "loads_ok s" and "sched_group_set_shares E cpus g sh s = Some (r, t)"
    and "\<forall>h. MIN_SHARES \<le> shares (tg_of s h) \<and> shares (tg_of s h) \<le> MAX_SHARES"
  shows "loads_ok t \<and> (\<forall>h. MIN_SHARES \<le> shares (tg_of t h) \<and> shares (tg_of t h) \<le> MAX_SHARES)
    \<and> (r = 0 \<longrightarrow> shares (tg_of t g) = clamp sh MIN_SHARES MAX_SHARES)"
proof -
  define v where "v = clamp sh MIN_SHARES MAX_SHARES"
  define s1 where "s1 = upd_tg g (shares_update (\<lambda>_. v)) s"
  have v: "MIN_SHARES \<le> v \<and> v \<le> MAX_SHARES"
    unfolding v_def by (rule clamp_range) (simp add: MIN_SHARES_def MAX_SHARES_def)
  have s1: "loads_ok s1" by (rule loads_ok_keeps [OF assms(1)]) (simp_all add: s1_def)
  have c: "(t = s \<and> r = - EINVAL) \<or> (t = s \<and> r = 0 \<and> shares (tg_of s g) = v)
      \<or> (r = 0 \<and> for_cpus (propagate_shares E g) cpus s1 = Some t)"
    using assms(2) by (auto simp: sched_group_set_shares_def Let_def v_def scale_load_def s1_def split: if_splits)
  then consider "t = s" "r = - EINVAL" | "t = s" "shares (tg_of s g) = v" | "for_cpus (propagate_shares E g) cpus s1 = Some t"
    by blast
  then show ?thesis
  proof cases
    case 1
    then show ?thesis using assms(1,3) by (simp add: EINVAL_def)
  next
    case 2
    then show ?thesis using assms(1,3) by (simp add: v_def)
  next
    case 3
    from for_cpus_loads [OF s1 3] show ?thesis using v assms(3) by (simp add: s1_def v_def)
  qed
qed

end

section \<open>The laws hold for the accounting of this level\<close>

text \<open>
  Entities with \<open>exec_start\<close>, the clock and the timers beside: the running entity's virtual time advances by its weighted
  time, entities are queued by \<open>account_entity_enqueue\<close> with the load tracking.
\<close>

record level_world =
  lw_clock :: u64
  lw_timer :: "nat \<Rightarrow> bool"
  lw_exec_start :: "nat \<Rightarrow> u64"

definition level_update_curr :: "nat \<Rightarrow> level_world grp \<Rightarrow> level_world grp" where
  "level_update_curr c s =
     (case g_curr (cfs_of s c) of
        None \<Rightarrow> s
      | Some e \<Rightarrow>
          let now = q_clock_task (cpu_rq s (g_rq (cfs_of s c)));
              delta = now - lw_exec_start (elsewhere s) e;
              lw = e_load (ent_of s e);
              (dw, lw1) = (if weight lw \<noteq> NICE_0_LOAD then calc_delta_mine delta NICE_0_LOAD lw else (delta, lw))
          in if delta = 0 then s
             else (upd_ent e (\<lambda>en. en\<lparr>e_load := lw1, e_vruntime := e_vruntime en + dw\<rparr>) s)
                    \<lparr>elsewhere := (elsewhere s)\<lparr>lw_exec_start := (lw_exec_start (elsewhere s))(e := now)\<rparr>\<rparr>)"

definition level_enqueue :: "nat \<Rightarrow> nat \<Rightarrow> int \<Rightarrow> 'y grp \<Rightarrow> 'y grp" where
  "level_enqueue q e flags s =
     upd_ent e (e_on_rq_update (\<lambda>_. True)) (group_entity_enqueue q e (enqueue_entity_load_avg q e (flags = ENQUEUE_WAKEUP) s))"

definition level_dequeue :: "nat \<Rightarrow> nat \<Rightarrow> int \<Rightarrow> 'y grp \<Rightarrow> 'y grp" where
  "level_dequeue q e flags s =
     group_entity_dequeue q e (upd_ent e (e_on_rq_update (\<lambda>_. False)) (dequeue_entity_load_avg q e (flags = DEQUEUE_SLEEP) s))"

definition level_ents :: "level_world ent_ops" where
  "level_ents = \<lparr>op_update_curr = level_update_curr, op_enqueue_entity = level_enqueue, op_dequeue_entity = level_dequeue,
     op_update_rq_clock = (\<lambda>cpu s. upd_rq cpu (q_clock_update (\<lambda>_. lw_clock (elsewhere s))) s)\<rparr>"

lemma calc_delta_mine_weight: "weight (snd (calc_delta_mine d w lw)) = weight lw"
  by (simp add: calc_delta_mine_def inv_cached_def Let_def)

interpretation level: entity_level level_ents
  by unfold_locales
    (auto simp: level_ents_def level_update_curr_def Let_def case_prod_beta calc_delta_mine_weight split: option.splits)

section \<open>Property\<close>


text \<open>Group 1 below the root on one processor: its entity 0, queued with weight 1024 beside a task of weight 512.\<close>

definition shared_grp :: "level_world grp" where
  "shared_grp = \<lparr>cfs_of = (\<lambda>c. \<lparr>g_load = \<lparr>weight = (if c = 0 then 1536 else if c = 1 then 2048 else 0), inv_weight = 0\<rparr>,
       g_nr_running = (if c = 0 then 2 else if c = 1 then 1 else 0), g_h_nr_running = 1, g_min_vruntime = 0,
       g_curr = (if c = 0 then Some 0 else None), runnable_load_avg = 0, blocked_load_avg = 0, decay_counter = 1, removed_load = 0, last_decay = 0,
       tg_runnable_contrib = 0, tg_load_contrib = 2048, h_load = 0, g_rq = 0, on_list = False,
       g_tg = c, runtime_enabled = False, runtime_expires = 0,
       runtime_remaining = 0, throttled_clock = 0, throttled_clock_task = 0, throttled_clock_task_time = 0, throttled = False, throttle_count = 0\<rparr>),
     tg_of = (\<lambda>g. \<lparr>t_se = (\<lambda>i. if g = 1 then Some 0 else None), t_cfs_rq = (\<lambda>i. g), shares = 1024, t_load_avg = 2048, t_runnable_avg = 0,
       t_rt_bandwidth = \<lparr>rt_period = 0, rt_runtime = 0\<rparr>, t_rt_rq = (\<lambda>_. 0),
       t_parent = (if g = 1 then Some 0 else None), t_children = (if g = 0 then [1] else []),
       t_cfs_bandwidth = \<lparr>b_period = 100000000, quota = - 1, b_runtime = 0, hierarchal_quota = 0, b_runtime_expires = 0, b_idle = False,
         timer_active = False, throttled_cfs_rq = [], nr_periods = 0, nr_throttled = 0, throttled_time = 0\<rparr>\<rparr>),
     ent_of = (\<lambda>e. \<lparr>e_load = \<lparr>weight = (if e = 0 then 1024 else if e = 1 then 512 else 2048), inv_weight = 0\<rparr>, e_on_rq = (e < 3), e_vruntime = 0,
       e_avg = \<lparr>runnable_avg_sum = 0, runnable_avg_period = 0, last_runnable_update = 0, decay_count = 0, load_avg_contrib = 0\<rparr>,
       e_parent = (if e = 2 then Some 0 else None), e_cfs_rq = (if e = 2 then 1 else 0), e_my_q = (if e = 0 then Some 1 else None)\<rparr>),
     cpu_rq = (\<lambda>c. \<lparr>q_nr_running = 2, q_load = \<lparr>weight = 1536, inv_weight = 0\<rparr>, q_clock = 0, q_clock_task = 0, q_cfs = 0,
       q_leaf_cfs_rq_list = [], q_cfs_tasks = [], q_avg = \<lparr>runnable_avg_sum = 0, runnable_avg_period = 0, last_runnable_update = 0, decay_count = 0,
       load_avg_contrib = 0\<rparr>, q_curr = 0, q_idle = 0, h_load_throttle = 0\<rparr>),
     cfs_bandwidth_slice = 5000, g_resched = (\<lambda>_. False), g_jiffies = 0,
     elsewhere = \<lparr>lw_clock = 0, lw_timer = (\<lambda>_. False), lw_exec_start = (\<lambda>_. 0)\<rparr>\<rparr>"

lemma shared_grp_queued: "queued shared_grp c = (if c = 0 then {0, 1} else if c = 1 then {2} else {})"
  by (auto simp: queued_def shared_grp_def)

lemma shared_grp_ok: "loads_ok shared_grp"
  by (simp add: loads_ok_def shared_grp_queued) (simp add: shared_grp_def)


end
