(* ===== verification/Sched_Bandwidth_Budget.thy ===== *)
theory Sched_Bandwidth_Budget
  imports Sched_Bandwidth_Props Sched_Shares_Props
begin

text \<open>
  Runs of bandwidth control: charging execution time, giving back slack, throttling, and the two timers, in any order
  and mixed with anything else that leaves the budget of the group alone.  Over a run, the time consumed is covered by the
  credit at its start and one quota per refill.
\<close>

section \<open>Giving back and throttling\<close>

text \<open>The visitors of throttling leave the links of the groups alone, so the walk is the traversal of the tree.\<close>

interpretation throttle_walk: walk children_of parent_of "tg_throttle_down cpu" tg_nop for cpu
  by unfold_locales (simp_all add: tg_throttle_down_def tg_nop_def Let_def)

interpretation unthrottle_walk: walk children_of parent_of tg_nop "tg_unthrottle_up cpu" for cpu
  by unfold_locales (simp_all add: tg_unthrottle_up_def tg_nop_def Let_def)

context bw_world
begin

text \<open>Throttling and unthrottling end.\<close>

lemma throttle_ends:
  assumes "placed C g s" and "c \<in> C"
  shows "\<exists>t. throttle_cfs_rq B c s = Some t"
proof -
  have gc: "g_tg (cfs_of s c) = g" using assms by (simp add: placed_def)
  obtain es where "for_each_sched_entity s (t_se (tg_of s g) (g_rq (cfs_of s c))) = Some es"
    using assms(1) unfolding placed_def by blast
  moreover obtain tr where "root tr = g" "tree_ok s tr" using assms(1) by (auto simp: placed_def)
  then obtain w where "walk_tg_tree_from children_of parent_of g (tg_throttle_down (g_rq (cfs_of s c))) tg_nop s = Some w"
    using throttle_walk.walk_eq_traverse [of s tr] by (auto simp: tree_ok_def)
  ultimately show ?thesis using gc by (cases w) (simp add: throttle_cfs_rq_def Let_def case_prod_beta)
qed

lemma unthrottle_ends:
  assumes "placed C g s" and "c \<in> C"
  shows "\<exists>t. unthrottle_cfs_rq B c s = Some t"
proof -
  have gc: "g_tg (cfs_of s c) = g" using assms by (simp add: placed_def)
  define cpu where "cpu = g_rq (cfs_of s c)"
  obtain es where es: "for_each_sched_entity s (t_se (tg_of s g) cpu) = Some es"
    using assms(1) unfolding placed_def by blast
  define s2 where "s2 = op_update_rq_clock (bw_ents B) cpu
    (upd_bw g (\<lambda>b. b\<lparr>throttled_time := throttled_time b + (q_clock (cpu_rq s cpu) - throttled_clock (cfs_of s c)),
               throttled_cfs_rq := remove1 c (throttled_cfs_rq b)\<rparr>) (upd_cfs c (throttled_update (\<lambda>_. False)) s))"
  have "placed C g s2" unfolding s2_def
    by (rule placed_view [OF clock_keeps], rule placed_step [OF assms(1)]) simp_all
  then obtain tr where "root tr = g" "tree_ok s2 tr" by (auto simp: placed_def)
  then obtain w where "walk_tg_tree_from children_of parent_of g tg_nop (tg_unthrottle_up cpu) s2 = Some w"
    using unthrottle_walk.walk_eq_traverse [of s2 tr] by (auto simp: tree_ok_def)
  then show ?thesis using es gc
    by (cases w) (simp add: unthrottle_cfs_rq_def Let_def case_prod_beta cpu_def [symmetric] s2_def)
qed

lemma distribute_ends:
  assumes "bw_ok C g s" and "set cs \<subseteq> C"
  shows "\<exists>r t. distribute_list B cs pool expires s = Some (r, t)"
  using assms
proof (induction cs arbitrary: pool s)
  case (Cons c cs)
  define amount where "amount = (if - runtime_remaining (cfs_of s c) + 1 > pool then pool else - runtime_remaining (cfs_of s c) + 1)"
  define s1 where "s1 = upd_cfs c (\<lambda>q. q\<lparr>runtime_remaining := runtime_remaining q + amount, runtime_expires := expires\<rparr>) s"
  have c: "c \<in> C" using Cons.prems(2) by simp
  have o1: "bw_ok C g s1" by (rule bw_ok_step [OF Cons.prems(1)]) (simp_all add: s1_def)
  then have "placed C g s1" by (simp add: bw_ok_def)
  with unthrottle_ends [OF _ c] o1 unthrottle_ok [OF o1 c] obtain s2 where
    s2: "(if sint (runtime_remaining (cfs_of s1 c)) > 0 then unthrottle_cfs_rq B c s1 else Some s1) = Some s2" "bw_ok C g s2"
    by (cases "sint (runtime_remaining (cfs_of s1 c)) > 0") auto
  have next_ends: "\<exists>r t. distribute_list B cs p expires u = Some (r, t)" if "bw_ok C g u" for p u
    using Cons.IH [OF that] Cons.prems(2) by simp
  show ?case
  proof (cases "cfs_rq_throttled c s")
    case True
    have "distribute_list B (c # cs) pool expires s =
        Option.bind (Some s2) (\<lambda>s2. if pool - amount = 0 then Some (pool - amount, s2) else distribute_list B cs (pool - amount) expires s2)"
      using True unfolding s2(1) [symmetric] by (simp only: distribute_list.simps Let_def amount_def s1_def) simp
    then show ?thesis using next_ends [OF s2(2)] by simp
  next
    case False
    then show ?thesis using next_ends [OF Cons.prems(1)] by simp
  qed
qed simp

text \<open>The timer ends, and then it has handed out the whole pool or nobody is throttled.\<close>

lemma distribute_loop_ends:
  assumes "bw_ok C g s" and "sane C g s" and "uint pool < 2 ^ 62"
  shows "\<exists>r t. distribute_loop B g pool expires s = Some (r, t)"
proof (cases "throttled_cfs_rq (bw_of s g) \<noteq> [] \<and> pool > 0")
  case True
  have l: "distinct (throttled_cfs_rq (bw_of s g))" "set (throttled_cfs_rq (bw_of s g)) \<subseteq> C"
      "\<forall>c\<in>set (throttled_cfs_rq (bw_of s g)). throttled (cfs_of s c)"
    using assms(1) by (simp_all add: bw_ok_def listed_def)
  from distribute_ends [OF assms(1) l(2)] obtain r s1 where
    d: "distribute_list B (throttled_cfs_rq (bw_of s g)) pool expires s = Some (r, s1)" by blast
  have "r = 0 \<or> throttled_cfs_rq (bw_of s1 g) = []"
    using distribute_credit [OF assms(1,2) l assms(3) d] by (auto simp: fold_remove1_self)
  then have "distribute_loop B g r expires s1 = Some (r, s1)" by (subst distribute_loop.simps) auto
  then show ?thesis using True d by (subst distribute_loop.simps) (simp add: distribute_cfs_runtime_def)
next
  case False
  then show ?thesis by (subst distribute_loop.simps) auto
qed

lemma period_ends:
  assumes "bw_ok C g s" and "sane C g s"
  shows "\<exists>idle t. do_sched_cfs_period_timer B g overrun s = Some (idle, t) \<and> (b_runtime (bw_of t g) = 0 \<or> throttled_cfs_rq (bw_of t g) = [])"
proof (cases "throttled_cfs_rq (bw_of s g) = []")
  case True
  have "quota (bw_of s g) \<noteq> RUNTIME_INF" using assms(2) sane_limited [of C g s] by (simp add: sane_def)
  then show ?thesis using True by (auto simp: do_sched_cfs_period_timer_def Let_def refill_cfs_bandwidth_runtime_def)
next
  case False
  have pool: "sane_pool C g s" using assms(2) by (simp add: sane_def)
  note limited = sane_limited [OF pool]
  define s2 where "s2 = refill_cfs_bandwidth_runtime B g (upd_bw g (nr_periods_update (\<lambda>n. n + overrun)) s)"
  define s3 where "s3 = upd_bw g (\<lambda>b. b\<lparr>nr_throttled := nr_throttled b + overrun, b_runtime := 0\<rparr>) s2"
  have f: "b_runtime (bw_of s2 g) = quota (bw_of s g)" "cfs_of s3 = cfs_of s" "quota (bw_of s3 g) = quota (bw_of s g)" "b_runtime (bw_of s3 g) = 0"
    using limited by (simp_all add: s3_def s2_def refill_cfs_bandwidth_runtime_def)
  have o3: "bw_ok C g s3"
    by (rule bw_ok_step [OF assms(1)]) (use limited in \<open>simp_all add: s3_def s2_def refill_cfs_bandwidth_runtime_def\<close>)
  have n3: "sane C g s3" using assms(2) f by (simp add: sane_def sane_pool_def)
  have small: "uint (b_runtime (bw_of s2 g)) < 2 ^ 62" using pool f(1) by (simp add: sane_pool_def)
  from distribute_loop_ends [OF o3 n3 small] obtain r s4 where
    l: "distribute_loop B g (b_runtime (bw_of s2 g)) (b_runtime_expires (bw_of s2 g)) s3 = Some (r, s4)" by blast
  have "r = 0 \<or> throttled_cfs_rq (bw_of s4 g) = []" using distribute_loop_once [OF o3 n3 small l] by blast
  then show ?thesis using False limited l
    by (auto simp: do_sched_cfs_period_timer_def Let_def s2_def [symmetric] s3_def [symmetric])
qed

lemma slack_bandwidth_view: "bw_view C g (start_cfs_slack_bandwidth B g s) = bw_view C g s"
  by (simp add: start_cfs_slack_bandwidth_def)

text \<open>Slack goes to the pool, or is lost when it belongs to an earlier period.\<close>

lemma raw_return_credit:
  assumes "bw_ok C g s" and "sane C g s" and "c \<in> C"
  shows "quota (bw_of (raw_return_cfs_rq_runtime B c s) g) = quota (bw_of s g)
    \<and> bw_ok C g (raw_return_cfs_rq_runtime B c s) \<and> credit C g (raw_return_cfs_rq_runtime B c s) \<le> credit C g s"
proof -
  have gc: "g_tg (cfs_of s c) = g" using assms(1,3) by (simp add: bw_ok_def placed_def)
  have fin: "finite C" using assms(2) by (simp add: sane_def sane_pool_def)
  define slack where "slack = runtime_remaining (cfs_of s c) - min_cfs_rq_runtime"
  show ?thesis
  proof (cases "sint slack \<le> 0")
    case True
    then show ?thesis using assms(1) by (simp add: raw_return_cfs_rq_runtime_def Let_def slack_def)
  next
    case False
    have m: "sint min_cfs_rq_runtime = 1000000" by (simp add: min_cfs_rq_runtime_def NSEC_PER_MSEC_def)
    have rr: "- (2 ^ 62) < sint (runtime_remaining (cfs_of s c))" "sint (runtime_remaining (cfs_of s c)) < 2 ^ 62"
      using assms(2,3) by (simp_all add: sane_def)
    have s0: "sint slack = sint (runtime_remaining (cfs_of s c)) - 1000000"
      using sint_sub_64 [of "runtime_remaining (cfs_of s c)" min_cfs_rq_runtime] rr by (simp add: slack_def m)
    have "(word_of_int (sint slack) :: u64) = slack" "sint slack < 2 ^ 64" using sint_in_range(2) [of slack] by simp_all
    then have sl: "uint slack = sint slack" using False by (intro uint_of_sint_64) simp_all
    define t where "t = upd_bw g (b_runtime_update (\<lambda>r. r + slack)) s"
    define s1 where "s1 = (if quota (bw_of s g) \<noteq> RUNTIME_INF \<and> runtime_expires (cfs_of s c) = b_runtime_expires (bw_of s g)
       then if b_runtime (bw_of t g) > sched_cfs_bandwidth_slice t \<and> throttled_cfs_rq (bw_of t g) \<noteq> []
            then start_cfs_slack_bandwidth B g t else t
       else s)"
    have r: "raw_return_cfs_rq_runtime B c s = upd_cfs c (runtime_remaining_update (\<lambda>r. r - slack)) s1"
      using False by (simp add: raw_return_cfs_rq_runtime_def Let_def gc slack_def [symmetric] t_def [symmetric] s1_def)
    have "bw_view C g s1 = bw_view C g t \<or> bw_view C g s1 = bw_view C g s"
      by (simp add: s1_def slack_bandwidth_view)
    then obtain u where v: "bw_view C g s1 = bw_view C g u" and u: "u = t \<or> u = s" by blast
    have pool: "uint (b_runtime (bw_of s g) + slack) = uint (b_runtime (bw_of s g)) + uint slack"
    proof (rule uint_of_sint_64)
      have "uint (b_runtime (bw_of s g)) < 2 ^ 62" using assms(2) by (simp add: sane_def sane_pool_def)
      then show "uint (b_runtime (bw_of s g)) + uint slack < 2 ^ 64" using sl s0 rr by simp
    qed simp_all
    have ct: "credit C g t = credit C g s + uint slack" "bw_ok C g t" "quota (bw_of t g) = quota (bw_of s g)"
      "runtime_remaining (cfs_of t c) = runtime_remaining (cfs_of s c)"
      using pool by (auto simp: t_def credit_bw intro!: bw_ok_step [OF assms(1)])
    have c1: "credit C g s1 \<le> credit C g s + uint slack" "bw_ok C g s1" "quota (bw_of s1 g) = quota (bw_of s g)"
        "runtime_remaining (cfs_of s1 c) = runtime_remaining (cfs_of s c)"
      using u ct assms(1) unsigned_greater_eq [of slack, where ?'a = int] bw_ok_view [OF v]
      by (auto simp: credit_view [OF v] bw_view_fields(1) [OF v] bw_view_fields(4) [OF v assms(3)])
    have "sint (runtime_remaining (cfs_of s c) - slack) = sint (runtime_remaining (cfs_of s c)) - uint slack"
      using sl s0 rr by (intro sint_sub_uint_64) simp_all
    then have "credit C g (raw_return_cfs_rq_runtime B c s) \<le> credit C g s"
      using c1 by (simp add: r credit_cfs [OF fin assms(3)])
    moreover have "bw_ok C g (raw_return_cfs_rq_runtime B c s)"
      by (rule bw_ok_step [OF c1(2)]) (simp_all add: r)
    ultimately show ?thesis using c1(3) by (simp add: r)
  qed
qed

lemma return_credit:
  assumes "bw_ok C g s" and "sane C g s" and "c \<in> C"
  shows "quota (bw_of (return_cfs_rq_runtime B c s) g) = quota (bw_of s g)
    \<and> bw_ok C g (return_cfs_rq_runtime B c s) \<and> credit C g (return_cfs_rq_runtime B c s) \<le> credit C g s"
  using raw_return_credit [OF assms] assms(1) by (simp add: return_cfs_rq_runtime_def)

lemma check_credit:
  assumes "bw_ok C g s" and "c \<in> C" and "check_cfs_rq_runtime B c s = Some t"
  shows "quota (bw_of t g) = quota (bw_of s g) \<and> bw_ok C g t \<and> credit C g t = credit C g s"
proof (cases "t = s")
  case False
  then have k: "throttle_cfs_rq B c s = Some t" "\<not> throttled (cfs_of s c)"
    using assms(3) by (auto simp: check_cfs_rq_runtime_def cfs_rq_throttled_def cfs_bandwidth_used_def split: if_splits)
  have p: "placed C g s" using assms(1) by (simp add: bw_ok_def)
  from throttle_keeps(1) [OF p assms(2) k(1)] have b: "same_budget s t" .
  then have "quota (bw_of t g) = quota (bw_of s g)" by (simp add: same_budget_def)
  then show ?thesis using throttle_ok [OF assms(1,2) k(2,1)] same_budget_credit(1) [OF b] by simp
qed (use assms(1) in simp)

lemma check_enqueue_credit:
  assumes "bw_ok C g s" and "sane C g s" and "c \<in> C" and "check_enqueue_throttle B c s = Some t"
  shows "quota (bw_of t g) = quota (bw_of s g) \<and> bw_ok C g t
    \<and> credit C g t \<le> credit C g s + (if timer_active (bw_of s g) \<or> \<not> timer_active (bw_of t g) then 0 else uint (quota (bw_of s g)))"
proof (cases "t = s")
  case False
  then have en: "runtime_enabled (cfs_of s c)" "\<not> throttled (cfs_of s c)"
    using assms(4) by (auto simp: check_enqueue_throttle_def cfs_rq_throttled_def cfs_bandwidth_used_def split: if_splits)
  have gc: "g_tg (cfs_of s c) = g" using assms(1,3) by (simp add: bw_ok_def placed_def)
  from account_credit [OF assms(2,3) gc en(1), of 0] assms(1) obtain s1 where
    s1: "account_cfs_rq_runtime B c 0 s = Some s1" "quota (bw_of s1 g) = quota (bw_of s g)"
      "throttled (cfs_of s1 c) = throttled (cfs_of s c)" "bw_ok C g s1"
      "credit C g s1 \<le> credit C g s + (if timer_active (bw_of s g) \<or> \<not> timer_active (bw_of s1 g) then 0 else uint (quota (bw_of s g)))"
    by auto
  have "t = s1 \<or> throttle_cfs_rq B c s1 = Some t"
    using assms(4) False s1(1) by (auto simp: check_enqueue_throttle_def split: if_splits)
  then show ?thesis
  proof
    assume "t = s1"
    then show ?thesis using s1 by simp
  next
    assume k: "throttle_cfs_rq B c s1 = Some t"
    have p: "placed C g s1" using s1(4) by (simp add: bw_ok_def)
    from throttle_keeps(1) [OF p assms(3) k] have b: "same_budget s1 t" .
    then have "quota (bw_of t g) = quota (bw_of s1 g)" "timer_active (bw_of t g) = timer_active (bw_of s1 g)"
      by (simp_all add: same_budget_def)
    then show ?thesis
      using throttle_ok [OF s1(4) assms(3) _ k] s1 en(2) same_budget_credit(1) [OF b] by simp
  qed
qed (use assms(1) in simp)

end

section \<open>Runs\<close>

text \<open>
  One step of bandwidth control on the run queues \<open>C\<close> of group \<open>g\<close>, with the nanoseconds that tasks of the group ran
  and the refills of the pool.  A draw refills the pool when it finds the timer stopped; the timer refills it unless it
  finds the group idle.  The last rule is everything else in the kernel.
\<close>

definition refilled :: "nat \<Rightarrow> 'y grp \<Rightarrow> 'y grp \<Rightarrow> nat" where
  "refilled g s t = (if timer_active (bw_of s g) \<or> \<not> timer_active (bw_of t g) then 0 else 1)"

inductive bw_step :: "'y bw_env \<Rightarrow> nat set \<Rightarrow> nat \<Rightarrow> 'y grp \<Rightarrow> int \<Rightarrow> nat \<Rightarrow> 'y grp \<Rightarrow> bool"
  for B C g where
  charge: "c \<in> C \<Longrightarrow> runtime_enabled (cfs_of s c) \<Longrightarrow> uint delta < 2 ^ 62 \<Longrightarrow> account_cfs_rq_runtime B c delta s = Some t \<Longrightarrow>
    bw_step B C g s (uint delta) (refilled g s t) t"
| wake: "c \<in> C \<Longrightarrow> check_enqueue_throttle B c s = Some t \<Longrightarrow> bw_step B C g s 0 (refilled g s t) t"
| put: "c \<in> C \<Longrightarrow> check_cfs_rq_runtime B c s = Some t \<Longrightarrow> bw_step B C g s 0 0 t"
| give_back: "c \<in> C \<Longrightarrow> bw_step B C g s 0 0 (return_cfs_rq_runtime B c s)"
| period: "do_sched_cfs_period_timer B g overrun s = Some (idle, t) \<Longrightarrow> bw_step B C g s 0 (if idle then 0 else 1) t"
| slack: "do_sched_cfs_slack_timer B g s = Some t \<Longrightarrow> bw_step B C g s 0 0 t"
| other: "bw_view C g t = bw_view C g s \<Longrightarrow> bw_step B C g s 0 0 t"

text \<open>A run whose counters stay within \<open>2 ^ 62\<close> nanoseconds.\<close>

inductive bw_run :: "'y bw_env \<Rightarrow> nat set \<Rightarrow> nat \<Rightarrow> 'y grp \<Rightarrow> int \<Rightarrow> nat \<Rightarrow> 'y grp \<Rightarrow> bool"
  for B C g s where
  start: "bw_run B C g s 0 0 s"
| step: "bw_run B C g s used refills t \<Longrightarrow> sane C g t \<Longrightarrow> bw_step B C g t u r t' \<Longrightarrow>
    bw_run B C g s (used + u) (refills + r) t'"

context bw_world
begin

lemma step_credit:
  assumes "bw_step B C g s u r t" and "bw_ok C g s" and "sane C g s"
  shows "quota (bw_of t g) = quota (bw_of s g) \<and> bw_ok C g t \<and> u + credit C g t \<le> credit C g s + int r * uint (quota (bw_of s g))"
  using assms
proof (cases rule: bw_step.cases)
  case (charge c delta)
  then have "g_tg (cfs_of s c) = g" using assms(2) by (simp add: bw_ok_def placed_def)
  from account_credit [OF assms(3) charge(3) this charge(4,5)] show ?thesis using charge assms(2) by (auto simp: refilled_def)
next
  case (wake c)
  from check_enqueue_credit [OF assms(2,3) wake(3,4)] show ?thesis using wake by (auto simp: refilled_def)
next
  case (put c)
  from check_credit [OF assms(2) put(3,4)] show ?thesis using put by simp
next
  case (give_back c)
  from return_credit [OF assms(2,3) give_back(4)] show ?thesis using give_back by simp
next
  case (period overrun idle)
  from period_credit [OF assms(2,3) period(3)] show ?thesis using period by auto
next
  case slack
  from slack_credit [OF assms(2,3) slack(3)] show ?thesis using slack by simp
next
  case other
  show ?thesis using bw_ok_view [OF other(3) assms(2)] credit_view [OF other(3)] bw_view_fields(1) [OF other(3)] other by simp
qed

lemma run_credit:
  assumes "bw_run B C g s used refills t" and "bw_ok C g s"
  shows "quota (bw_of t g) = quota (bw_of s g) \<and> bw_ok C g t
    \<and> used + credit C g t \<le> credit C g s + int refills * uint (quota (bw_of s g))"
  using assms(1)
proof (induction rule: bw_run.induct)
  case (step used refills t u r t')
  then show ?case using step_credit [OF step(3) _ step(2)] by (force simp: algebra_simps)
qed (use assms(2) in simp)

end

section \<open>The laws hold for the accounting of the group level\<close>

text \<open>
  An environment from the definitions of the group level: the entity operations \<open>level_ents\<close>, with the timer of a group as
  a flag beside the clock.
\<close>

definition level_env :: "level_world bw_env" where
  "level_env =
     \<lparr>sched_clock_now = lw_clock, tick_nsec = 1000000,
      period_timer_active = (\<lambda>g y. lw_timer y g), period_callback_running = (\<lambda>g y. False),
      period_expires_remaining = (\<lambda>g y. 0), period_forward = (\<lambda>g p y. (0, y)),
      start_period_timer = (\<lambda>g p y. y\<lparr>lw_timer := (lw_timer y)(g := True)\<rparr>), start_slack_timer = (\<lambda>g p y. y),
      cancel_period_timer = (\<lambda>g. upd_else (\<lambda>y. y\<lparr>lw_timer := (lw_timer y)(g := False)\<rparr>)), cancel_slack_timer = (\<lambda>g s. s),
      bw_ents = level_ents\<rparr>"

named_theorems keeps_view \<open>operations of load tracking that leave the budget and the links alone\<close>

lemma upd_tg_keeps_view:
  "(\<And>q. t_cfs_bandwidth (f q) = t_cfs_bandwidth q \<and> t_se (f q) = t_se q \<and> t_cfs_rq (f q) = t_cfs_rq q \<and> t_children (f q) = t_children q \<and> t_parent (f q) = t_parent q) \<Longrightarrow>
     bw_view C g (upd_tg h f s) = bw_view C g s"
  by (auto simp: bw_view_def fun_eq_iff)

lemma upd_ent_keeps_view:
  "(\<And>q. e_parent (f q) = e_parent q \<and> e_cfs_rq (f q) = e_cfs_rq q) \<Longrightarrow> bw_view C g (upd_ent e f s) = bw_view C g s"
  by (auto simp: bw_view_def fun_eq_iff)

lemma avg_keeps_view [keeps_view]: "bw_view C g (upd_avg e f s) = bw_view C g s"
  by (simp add: upd_avg_def upd_ent_keeps_view)

lemma contrib_keeps_view [keeps_view]:
  "bw_view C g (subtract_blocked_load_contrib c l s) = bw_view C g s"
  "bw_view C g (update_tg_runnable_avg sa c s) = bw_view C g s"
  "bw_view C g (update_group_entity_contrib e c s) = bw_view C g s"
  "bw_view C g (update_task_entity_contrib e s) = bw_view C g s"
  "bw_view C g (update_cfs_rq_tg_load_contrib c b s) = bw_view C g s"
  by (simp_all add: subtract_blocked_load_contrib_def update_tg_runnable_avg_def update_group_entity_contrib_def
      update_task_entity_contrib_def update_cfs_rq_tg_load_contrib_def Let_def keeps_view upd_cfs_keeps_view upd_tg_keeps_view)

lemma entity_keeps_view [keeps_view]:
  "bw_view C g (snd (update_entity_load_avg_contrib e s)) = bw_view C g s"
  "bw_view C g (update_entity_load_avg e b s) = bw_view C g s"
  "bw_view C g (snd (synchronize_entity_decay e s)) = bw_view C g s"
  "bw_view C g (update_cfs_rq_blocked_load c b s) = bw_view C g s"
  by (simp_all add: update_entity_load_avg_contrib_def update_entity_load_avg_def synchronize_entity_decay_def
      update_cfs_rq_blocked_load_def Let_def case_prod_beta keeps_view upd_cfs_keeps_view split: option.splits)

lemma queue_keeps_view [keeps_view]:
  "bw_view C g (enqueue_entity_load_avg c e b s) = bw_view C g s"
  "bw_view C g (dequeue_entity_load_avg c e b s) = bw_view C g s"
  by (simp_all add: enqueue_entity_load_avg_def dequeue_entity_load_avg_def Let_def case_prod_beta keeps_view upd_cfs_keeps_view)

lemma account_keeps_view [keeps_view]:
  "bw_view C g (group_entity_enqueue c e s) = bw_view C g s"
  "bw_view C g (group_entity_dequeue c e s) = bw_view C g s"
  by (simp_all add: group_entity_enqueue_def group_entity_dequeue_def Let_def upd_cfs_keeps_view)

lemma level_keeps_view:
  "bw_view C g (level_enqueue q e f s) = bw_view C g s" "bw_view C g (level_dequeue q e f s) = bw_view C g s"
  by (simp_all add: level_enqueue_def level_dequeue_def keeps_view upd_ent_keeps_view)

interpretation level_bw: bw_world level_env C g for C g
  by unfold_locales (simp_all add: level_env_def level_ents_def level_keeps_view)

section \<open>Properties\<close>



text \<open>C21: Walking the tree of groups with jumps between the loop and the visitors is the recursive traversal: every
  group's \<open>down\<close> before those of its children, its \<open>up\<close> after them, up to the first visitor that fails.\<close>

theorem group_walk_is_traversal:
  assumes "walk children_of parent_of down up" and "tree_ok s tree"
  shows "walk_tg_tree_from children_of parent_of (root tree) down up s = Some (traverse down up tree s)"
  using walk.walk_eq_traverse [OF assms(1)] assms(2) by (simp add: tree_ok_def)

section \<open>A limited group\<close>

text \<open>Group 1 below the root, with two processors: run queue 1 has run out and is throttled, run queue 2 is running.  The
  quota is 10 ms.\<close>

definition limited_grp :: "level_world grp" where
  "limited_grp = \<lparr>cfs_of = (\<lambda>c. \<lparr>g_load = \<lparr>weight = 1024, inv_weight = 0\<rparr>, g_nr_running = 1, g_h_nr_running = 1, g_min_vruntime = 0,
       g_curr = None, runnable_load_avg = 0, blocked_load_avg = 0, decay_counter = 1, removed_load = 0, last_decay = 0,
       tg_runnable_contrib = 0, tg_load_contrib = 0, h_load = 0, g_rq = c - 1, on_list = False,
       g_tg = (if c = 1 \<or> c = 2 then 1 else 0), runtime_enabled = True, runtime_expires = 0,
       runtime_remaining = (if c = 1 then - 300000 else 4000000), throttled_clock = 0,
       throttled_clock_task = 0, throttled_clock_task_time = 0, throttled = (c = 1), throttle_count = (if c = 1 then 1 else 0)\<rparr>),
     tg_of = (\<lambda>g. \<lparr>t_se = (\<lambda>i. if g = 1 then Some i else None), t_cfs_rq = (\<lambda>i. if g = 1 then i + 1 else i + 3), shares = 1024, t_load_avg = 0, t_runnable_avg = 0,
       t_rt_bandwidth = \<lparr>rt_period = 1000000000, rt_runtime = (if g = 0 then 950000000 else 0)\<rparr>, t_rt_rq = (\<lambda>_. 0),
       t_parent = (if g = 1 then Some 0 else None), t_children = (if g = 0 then [1] else []),
       t_cfs_bandwidth = \<lparr>b_period = 100000000, quota = 10000000, b_runtime = 0, hierarchal_quota = 0, b_runtime_expires = 100, b_idle = False,
         timer_active = True, throttled_cfs_rq = (if g = 1 then [1] else []), nr_periods = 0, nr_throttled = 0, throttled_time = 0\<rparr>\<rparr>),
     ent_of = (\<lambda>e. \<lparr>e_load = \<lparr>weight = 1024, inv_weight = 0\<rparr>, e_on_rq = (e \<noteq> 0), e_vruntime = 0,
       e_avg = \<lparr>runnable_avg_sum = 2000, runnable_avg_period = 2999, last_runnable_update = 0, decay_count = 0, load_avg_contrib = 0\<rparr>,
       e_parent = None, e_cfs_rq = e + 3, e_my_q = Some (e + 1)\<rparr>),
     cpu_rq = (\<lambda>c. \<lparr>q_nr_running = 0, q_load = \<lparr>weight = 0, inv_weight = 0\<rparr>, q_clock = 0, q_clock_task = 0, q_cfs = c + 3,
       q_leaf_cfs_rq_list = [], q_cfs_tasks = [], q_avg = \<lparr>runnable_avg_sum = 0, runnable_avg_period = 0, last_runnable_update = 0, decay_count = 0,
       load_avg_contrib = 0\<rparr>, q_curr = 0, q_idle = 0, h_load_throttle = 0\<rparr>),
     cfs_bandwidth_slice = 5000, g_resched = (\<lambda>_. False), g_jiffies = 0, elsewhere = \<lparr>lw_clock = 50, lw_timer = (\<lambda>_. True), lw_exec_start = (\<lambda>_. 0)\<rparr>\<rparr>"

lemma limited_grp_tree: "tree_ok limited_grp (Group 1 [])" "tree_ok limited_grp (Group 0 [Group 1 []])"
  by (simp_all add: tree_ok_def limited_grp_def)

lemma limited_grp_ok: "bw_ok {1, 2} 1 limited_grp"
proof -
  have "for_each_sched_entity limited_grp (Some e) = Some [e]" for e
    by (simp add: for_each_sched_entity_def entity_chain.simps [of _ "Some e"] entity_chain.simps [of _ None] limited_grp_def)
  moreover have "t_se (tg_of limited_grp 1) i = Some i" "e_cfs_rq (ent_of limited_grp i) = i + 3" for i
    by (simp_all add: limited_grp_def)
  moreover have "g_tg (cfs_of limited_grp c) = 1" if "c \<in> {1, 2}" for c using that by (auto simp: limited_grp_def)
  moreover have "\<exists>tr. root tr = 1 \<and> tree_ok limited_grp tr" using limited_grp_tree(1) by (intro exI [of _ "Group 1 []"]) simp
  ultimately have "placed {1, 2} 1 limited_grp" by (auto simp: placed_def)
  moreover have "listed {1, 2} 1 limited_grp" by (simp add: listed_def limited_grp_def)
  ultimately show ?thesis by (simp add: bw_ok_def)
qed

lemma limited_grp_sane: "sane {1, 2} 1 limited_grp"
  by (simp add: sane_def sane_pool_def limited_grp_def)

lemma limited_grp_fields:
  "quota (bw_of limited_grp 1) = 10000000" "credit {1, 2} 1 limited_grp = 3700000" "timer_active (bw_of limited_grp 1)"
  "runtime_enabled (cfs_of limited_grp 2)" "g_tg (cfs_of limited_grp 2) = 1"
  by (simp_all add: credit_def limited_grp_def)



theorem group_walk_is_traversal_witness:
  "walk_tg_tree_from children_of parent_of 0 (tg_throttle_down 0) tg_nop limited_grp =
     Some (traverse (tg_throttle_down 0) tg_nop (Group 0 [Group 1 []]) limited_grp)"
  using group_walk_is_traversal [OF throttle_walk.walk_axioms limited_grp_tree(2)] by simp

end
