(* ===== verification/Sched_Files_Props.thy ===== *)
theory Sched_Files_Props
  imports Sched_Files Sched_Bandwidth_Budget
begin

text \<open>
  Which bandwidth settings are accepted, and what an accepted one leaves.  Both tests walk the tree of groups with the
  setting under test in place of the group's own; here they are stated on the tree.
\<close>

section \<open>Real-time bandwidth\<close>

interpretation rt_walk: walk children_of parent_of "tg_rt_schedulable R d" tg_nop for R d
  by unfold_locales (simp_all add: tg_rt_schedulable_def tg_nop_def Let_def case_prod_beta)

definition rt_ratio :: "'y grp \<Rightarrow> nat \<Rightarrow> u64" where
  "rt_ratio s g = to_ratio (rt_period (rt_bw_of s g)) (rt_runtime (rt_bw_of s g))"

text \<open>A group fits: its runtime is at most its period, it has runtime if it has real-time tasks, it gets no more than the
  global limit, and its children together get no more than it does.\<close>

definition rt_fits :: "rt_env \<Rightarrow> 'y grp \<Rightarrow> nat \<Rightarrow> bool" where
  "rt_fits R s g \<longleftrightarrow> (rt_runtime (rt_bw_of s g) \<noteq> RUNTIME_INF \<longrightarrow> rt_runtime (rt_bw_of s g) \<le> rt_period (rt_bw_of s g))
     \<and> (rt_bandwidth_enabled R \<and> tg_has_rt_tasks R g \<longrightarrow> rt_runtime (rt_bw_of s g) \<noteq> 0)
     \<and> rt_ratio s g \<le> to_ratio (global_rt_period R) (global_rt_runtime R)
     \<and> (\<Sum>c\<leftarrow>children_of s g. rt_ratio s c) \<le> rt_ratio s g"

definition with_rt :: "nat list \<Rightarrow> nat \<Rightarrow> u64 \<Rightarrow> u64 \<Rightarrow> 'y grp \<Rightarrow> 'y grp" where
  "with_rt cpus g period runtime = upd_tg g (\<lambda>t. t\<lparr>t_rt_bandwidth := \<lparr>rt_period = period, rt_runtime = runtime\<rparr>,
     t_rt_rq := fold (\<lambda>i q. q(i := runtime)) cpus (t_rt_rq t)\<rparr>)"

lemma with_rt_setting:
  "rt_setting \<lparr>d_tg = Some g, d_rt_period = period, d_rt_runtime = runtime\<rparr> h s =
     (rt_period (rt_bw_of (with_rt cpus g period runtime s) h), rt_runtime (rt_bw_of (with_rt cpus g period runtime s) h))"
  by (simp add: rt_setting_def with_rt_def)

lemma with_rt_children: "children_of (with_rt cpus g period runtime s) h = children_of s h"
  by (simp add: with_rt_def)

lemma schedulable_fits:
  assumes "\<And>h. rt_setting d h s = (rt_period (rt_bw_of t h), rt_runtime (rt_bw_of t h))" and "children_of t h = children_of s h"
  shows "fst (tg_rt_schedulable R d h s) = 0 \<longleftrightarrow> rt_fits R t h" "fst (tg_rt_schedulable R d h s) \<in> {0, - EINVAL, - EBUSY}"
proof -
  have "(\<Sum>c\<leftarrow>children_of s h. case rt_setting d c s of (p, r) \<Rightarrow> to_ratio p r) = (\<Sum>c\<leftarrow>children_of t h. rt_ratio t c)"
    by (simp add: assms rt_ratio_def)
  then show "fst (tg_rt_schedulable R d h s) = 0 \<longleftrightarrow> rt_fits R t h" "fst (tg_rt_schedulable R d h s) \<in> {0, - EINVAL, - EBUSY}"
    using assms(1) [of h]
    by (auto simp: tg_rt_schedulable_def rt_fits_def rt_ratio_def [of t h] Let_def not_le EINVAL_def EBUSY_def)
qed

lemma rt_walk_result:
  assumes "tree_ok s tree" and "root tree = root_task_group"
    and "\<And>h. rt_setting d h s = (rt_period (rt_bw_of t h), rt_runtime (rt_bw_of t h))" and "\<And>h. children_of t h = children_of s h"
  shows "\<exists>err. walk_tg_tree (tg_rt_schedulable R d) tg_nop s = Some (err, s) \<and> err \<in> {0, - EINVAL, - EBUSY}
    \<and> (err = 0 \<longleftrightarrow> (\<forall>h\<in>set (nodes tree). rt_fits R t h))"
proof -
  have "snd (tg_rt_schedulable R d g u) = u" for g and u :: "'a grp"
    by (simp add: tg_rt_schedulable_def Let_def case_prod_beta)
  note l = traverse_looks(1) [of "tg_rt_schedulable R d" tree s, OF this]
  have "walk_tg_tree (tg_rt_schedulable R d) tg_nop s = Some (traverse (tg_rt_schedulable R d) tg_nop tree s)"
    using rt_walk.walk_eq_traverse [of s tree] assms(1,2) by (simp add: walk_tg_tree_def tree_ok_def)
  then have "walk_tg_tree (tg_rt_schedulable R d) tg_nop s = Some (fst (traverse (tg_rt_schedulable R d) tg_nop tree s), s)"
    using l by (simp add: prod_eq_iff)
  moreover have "fst (traverse (tg_rt_schedulable R d) tg_nop tree s) \<in> {0, - EINVAL, - EBUSY}"
  proof -
    obtain h where "fst (traverse (tg_rt_schedulable R d) tg_nop tree s) \<in> {0, fst (tg_rt_schedulable R d h s)}" using l by blast
    then show ?thesis using schedulable_fits(2) [OF assms(3) assms(4), of R h] by auto
  qed
  ultimately show ?thesis using l schedulable_fits(1) [OF assms(3) assms(4)] by blast
qed

text \<open>Writes keep the periods away from zero.\<close>

lemma rt_files_period:
  assumes "\<forall>h. rt_period (rt_bw_of s h) \<noteq> 0"
    and "cpu_rt_runtime_write R cpus g v s = Some (r, t) \<or> cpu_rt_period_write_uint R cpus g v s = Some (r, t)"
    and "tree_ok s tree" and "root tree = root_task_group"
  shows "\<forall>h. rt_period (rt_bw_of t h) \<noteq> 0"
proof -
  have set: "\<forall>h. rt_period (rt_bw_of u h) \<noteq> 0" if "tg_set_rt_bandwidth R cpus g p q s = Some (r, u)" "p \<noteq> 0" for p q u
  proof -
    obtain err where "walk_tg_tree (tg_rt_schedulable R \<lparr>d_tg = Some g, d_rt_period = p, d_rt_runtime = q\<rparr>) tg_nop s = Some (err, s)"
      using rt_walk_result [OF assms(3,4) with_rt_setting [where cpus = cpus] with_rt_children, of R] by blast
    then have "u = s \<or> u = with_rt cpus g p q s"
      using that(1) by (auto simp: tg_set_rt_bandwidth_def raw_rt_schedulable_def with_rt_def split: if_splits)
    then show ?thesis using assms(1) that(2) by (auto simp: with_rt_def split: if_splits)
  qed
  have rw: "\<forall>h. rt_period (rt_bw_of t h) \<noteq> 0" if "cpu_rt_runtime_write R cpus g v s = Some (r, t)"
    using that assms(1) set by (auto simp: cpu_rt_runtime_write_def sched_group_set_rt_runtime_def)
  have "\<forall>h. rt_period (rt_bw_of t h) \<noteq> 0" if "cpu_rt_period_write_uint R cpus g v s = Some (r, t)"
    using that assms(1) set
    by (auto simp: cpu_rt_period_write_uint_def sched_group_set_rt_period_def Let_def split: if_splits)
  then show ?thesis using assms(2) rw by blast
qed

section \<open>Quotas of the fair class\<close>

interpretation cfs_walk: walk children_of parent_of "tg_cfs_schedulable_down d" tg_nop for d
  by unfold_locales (auto simp: tg_cfs_schedulable_down_def tg_nop_def Let_def split: option.splits)

abbreviation hq :: "'y grp \<Rightarrow> nat \<Rightarrow> u64" where
  "hq s g \<equiv> hierarchal_quota (bw_of s g)"

text \<open>The walk changes the hierarchical quotas and nothing else.\<close>

definition strip_hq :: "'y grp \<Rightarrow> 'y grp" where
  "strip_hq s = s\<lparr>tg_of := \<lambda>g. t_cfs_bandwidth_update (hierarchal_quota_update (\<lambda>_. 0)) (tg_of s g)\<rparr>"

lemma strip_hq_bw [simp]: "strip_hq (upd_bw g (hierarchal_quota_update f) s) = strip_hq s"
  by (simp add: strip_hq_def upd_bw_def upd_tg_def fun_eq_iff)

lemma strip_hq_visit: "strip_hq (snd (tg_cfs_schedulable_down d g s)) = strip_hq s"
  by (auto simp: tg_cfs_schedulable_down_def Let_def split: option.splits)

lemma strip_hq_tg:
  assumes "strip_hq t = strip_hq s"
  shows "tg_of t g = t_cfs_bandwidth_update (hierarchal_quota_update (\<lambda>_. hq t g)) (tg_of s g)"
proof -
  have "tg_of (strip_hq t) g = tg_of (strip_hq s) g" by (simp add: assms)
  then have e: "t_cfs_bandwidth_update (hierarchal_quota_update (\<lambda>_. 0)) (tg_of t g) = t_cfs_bandwidth_update (hierarchal_quota_update (\<lambda>_. 0)) (tg_of s g)"
    by (simp add: strip_hq_def)
  have "tg_of t g = t_cfs_bandwidth_update (hierarchal_quota_update (\<lambda>_. hq t g)) (t_cfs_bandwidth_update (hierarchal_quota_update (\<lambda>_. 0)) (tg_of t g))"
    by simp
  also have "\<dots> = t_cfs_bandwidth_update (hierarchal_quota_update (\<lambda>_. hq t g)) (tg_of s g)"
    unfolding e by simp
  finally show ?thesis .
qed

lemma strip_hq_fields:
  assumes "strip_hq t = strip_hq s"
  shows "children_of t g = children_of s g" "parent_of t g = parent_of s g" "quota (bw_of t g) = quota (bw_of s g)"
    "b_period (bw_of t g) = b_period (bw_of s g)" "t_se (tg_of t g) = t_se (tg_of s g)" "t_cfs_rq (tg_of t g) = t_cfs_rq (tg_of s g)"
    "throttled_cfs_rq (bw_of t g) = throttled_cfs_rq (bw_of s g)" "cfs_of t = cfs_of s" "ent_of t = ent_of s"
proof -
  obtain h where "tg_of t g = t_cfs_bandwidth_update (hierarchal_quota_update (\<lambda>_. h)) (tg_of s g)"
    using strip_hq_tg [OF assms] by blast
  then show "children_of t g = children_of s g" "parent_of t g = parent_of s g" "quota (bw_of t g) = quota (bw_of s g)"
    "b_period (bw_of t g) = b_period (bw_of s g)" "t_se (tg_of t g) = t_se (tg_of s g)" "t_cfs_rq (tg_of t g) = t_cfs_rq (tg_of s g)"
    "throttled_cfs_rq (bw_of t g) = throttled_cfs_rq (bw_of s g)" by simp_all
  show "cfs_of t = cfs_of s" "ent_of t = ent_of s"
    using arg_cong [OF assms, of cfs_of] arg_cong [OF assms, of ent_of] by (simp_all add: strip_hq_def)
qed

lemma normalize_strip: "strip_hq t = strip_hq s \<Longrightarrow> normalize_cfs_quota d g t = normalize_cfs_quota d g s"
  by (simp add: normalize_cfs_quota_def tg_get_cfs_period_def tg_get_cfs_quota_def strip_hq_fields [of t s])

text \<open>A group without a quota has that of its parent; one with a quota may not have more than its parent.\<close>

definition fits_under :: "u64 \<Rightarrow> u64 \<Rightarrow> bool" where
  "fits_under h q \<longleftrightarrow> q = RUNTIME_INF \<or> h = RUNTIME_INF \<or> sint q \<le> sint h"

definition inherit :: "u64 \<Rightarrow> u64 \<Rightarrow> u64" where
  "inherit h q = (if q = RUNTIME_INF then h else q)"

fun cfs_fits :: "(nat \<Rightarrow> u64) \<Rightarrow> u64 \<Rightarrow> group_tree \<Rightarrow> bool" and cfs_fits_list :: "(nat \<Rightarrow> u64) \<Rightarrow> u64 \<Rightarrow> group_tree list \<Rightarrow> bool" where
  "cfs_fits q h (Group g ts) \<longleftrightarrow> fits_under h (q g) \<and> cfs_fits_list q (inherit h (q g)) ts"
| "cfs_fits_list q h [] \<longleftrightarrow> True"
| "cfs_fits_list q h (t # ts) \<longleftrightarrow> cfs_fits q h t \<and> cfs_fits_list q h ts"

lemma visit_below:
  assumes "parent_of s g = Some p"
  shows "tg_cfs_schedulable_down d g s =
    (if fits_under (hq s p) (normalize_cfs_quota d g s)
     then (0, upd_bw g (hierarchal_quota_update (\<lambda>_. inherit (hq s p) (normalize_cfs_quota d g s))) s) else (- EINVAL, s))"
  using assms by (auto simp: tg_cfs_schedulable_down_def fits_under_def inherit_def Let_def not_less)

text \<open>Below a group whose hierarchical quota is settled, the traversal succeeds exactly when everything fits.\<close>

lemma cfs_traverse:
  "linked (children_of s) (parent_of s) t \<Longrightarrow> parent_of s (root t) = Some p \<Longrightarrow> p \<notin> set (nodes t) \<Longrightarrow> distinct (nodes t) \<Longrightarrow>
     fst (traverse (tg_cfs_schedulable_down d) tg_nop t s) = (if cfs_fits (\<lambda>g. normalize_cfs_quota d g s) (hq s p) t then 0 else - EINVAL)
     \<and> (\<forall>g. g \<notin> set (nodes t) \<longrightarrow> hq (snd (traverse (tg_cfs_schedulable_down d) tg_nop t s)) g = hq s g)"
  "linked_list (children_of s) (parent_of s) p ts \<Longrightarrow> p \<notin> set (nodes_list ts) \<Longrightarrow> distinct (nodes_list ts) \<Longrightarrow>
     fst (traverse_list (tg_cfs_schedulable_down d) tg_nop ts s) = (if cfs_fits_list (\<lambda>g. normalize_cfs_quota d g s) (hq s p) ts then 0 else - EINVAL)
     \<and> (\<forall>g. g \<notin> set (nodes_list ts) \<longrightarrow> hq (snd (traverse_list (tg_cfs_schedulable_down d) tg_nop ts s)) g = hq s g)"
proof (induction t and ts arbitrary: s p and s p rule: nodes_nodes_list.induct)
  case (1 g ts)
  define q where "q = normalize_cfs_quota d g s"
  define s1 where "s1 = upd_bw g (hierarchal_quota_update (\<lambda>_. inherit (hq s p) q)) s"
  have k: "strip_hq s1 = strip_hq s" by (simp add: s1_def)
  note f = strip_hq_fields(1,2) [OF k]
  have n: "(\<lambda>g. normalize_cfs_quota d g s1) = (\<lambda>g. normalize_cfs_quota d g s)" using normalize_strip [OF k] by (rule ext)
  have "children_of s1 = children_of s" "parent_of s1 = parent_of s" using f by (auto simp: fun_eq_iff)
  then have ih: "fst (traverse_list (tg_cfs_schedulable_down d) tg_nop ts s1) =
        (if cfs_fits_list (\<lambda>g. normalize_cfs_quota d g s) (inherit (hq s p) q) ts then 0 else - EINVAL)
     \<and> (\<forall>h. h \<notin> set (nodes_list ts) \<longrightarrow> hq (snd (traverse_list (tg_cfs_schedulable_down d) tg_nop ts s1)) h = hq s1 h)"
    using 1(1) [of s1 g] 1(2,5) n by (simp add: s1_def)
  have "parent_of s g = Some p" using 1(3) by simp
  note v = visit_below [OF this, of d, folded q_def, folded s1_def]
  have tr: "traverse (tg_cfs_schedulable_down d) tg_nop (Group g ts) s =
      (if fits_under (hq s p) q then traverse_list (tg_cfs_schedulable_down d) tg_nop ts s1 else (- EINVAL, s))"
    unfolding traverse_nop v by (simp add: EINVAL_def)
  have "hq s1 h = hq s h" if "h \<noteq> g" for h using that by (simp add: s1_def)
  then show ?case using ih unfolding tr by (simp add: q_def [symmetric])
next
  case 2
  show ?case by simp
next
  case (3 t ts)
  define s1 where "s1 = snd (traverse (tg_cfs_schedulable_down d) tg_nop t s)"
  have k: "strip_hq s1 = strip_hq s"
    unfolding s1_def by (rule traverse_keeps) (simp_all add: strip_hq_visit tg_nop_def)
  note f = strip_hq_fields(1,2) [OF k]
  have l: "children_of s1 = children_of s" "parent_of s1 = parent_of s" using f by (auto simp: fun_eq_iff)
  have n: "(\<lambda>g. normalize_cfs_quota d g s1) = (\<lambda>g. normalize_cfs_quota d g s)" using normalize_strip [OF k] by (rule ext)
  have t: "fst (traverse (tg_cfs_schedulable_down d) tg_nop t s) = (if cfs_fits (\<lambda>g. normalize_cfs_quota d g s) (hq s p) t then 0 else - EINVAL)"
      "\<forall>g. g \<notin> set (nodes t) \<longrightarrow> hq s1 g = hq s g"
    using 3(1) [of s p] 3(3-5) by (simp_all add: s1_def)
  have ts: "fst (traverse_list (tg_cfs_schedulable_down d) tg_nop ts s1) =
        (if cfs_fits_list (\<lambda>g. normalize_cfs_quota d g s) (hq s p) ts then 0 else - EINVAL)
     \<and> (\<forall>g. g \<notin> set (nodes_list ts) \<longrightarrow> hq (snd (traverse_list (tg_cfs_schedulable_down d) tg_nop ts s1)) g = hq s1 g)"
    using 3(2) [of s1 p] 3(3-5) l n t(2) by simp
  show ?case
  proof (cases "cfs_fits (\<lambda>g. normalize_cfs_quota d g s) (hq s p) t")
    case True
    then have "traverse_list (tg_cfs_schedulable_down d) tg_nop (t # ts) s = traverse_list (tg_cfs_schedulable_down d) tg_nop ts s1"
      using t(1) by (simp add: case_prod_beta s1_def)
    then show ?thesis using True ts t(2) by simp
  next
    case False
    then have "traverse_list (tg_cfs_schedulable_down d) tg_nop (t # ts) s = (- EINVAL, s1)"
      using t(1) by (simp add: case_prod_beta s1_def EINVAL_def)
    then show ?thesis using False t(2) by simp
  qed
qed

lemma cfs_walk_result:
  assumes "tree_ok s tree" and "root tree = root_task_group" and "parent_of s root_task_group = None"
  shows "\<exists>t. walk_tg_tree (tg_cfs_schedulable_down d) tg_nop s =
      Some (if cfs_fits_list (\<lambda>g. normalize_cfs_quota d g s) RUNTIME_INF (subgroups tree) then 0 else - EINVAL, t) \<and> strip_hq t = strip_hq s"
proof -
  obtain ts where tree: "tree = Group root_task_group ts" using assms(2) by (cases tree) simp
  define s1 where "s1 = upd_bw root_task_group (hierarchal_quota_update (\<lambda>_. RUNTIME_INF)) s"
  have k: "strip_hq s1 = strip_hq s" by (simp add: s1_def)
  have l: "children_of s1 = children_of s" "parent_of s1 = parent_of s" using strip_hq_fields(1,2) [OF k] by (auto simp: fun_eq_iff)
  have n: "(\<lambda>g. normalize_cfs_quota d g s1) = (\<lambda>g. normalize_cfs_quota d g s)" using normalize_strip [OF k] by (rule ext)
  have r: "fst (traverse_list (tg_cfs_schedulable_down d) tg_nop ts s1) =
      (if cfs_fits_list (\<lambda>g. normalize_cfs_quota d g s) RUNTIME_INF ts then 0 else - EINVAL)"
    using cfs_traverse(2) [of s1 root_task_group ts d] assms(1) l n by (simp add: tree tree_ok_def s1_def)
  have "walk_tg_tree (tg_cfs_schedulable_down d) tg_nop s = Some (traverse (tg_cfs_schedulable_down d) tg_nop tree s)"
    using cfs_walk.walk_eq_traverse [of s tree] assms(1,2) by (simp add: walk_tg_tree_def tree_ok_def)
  moreover have "strip_hq (snd (traverse (tg_cfs_schedulable_down d) tg_nop tree s)) = strip_hq s"
    by (rule traverse_keeps) (simp_all add: strip_hq_visit tg_nop_def)
  moreover have "tg_cfs_schedulable_down d root_task_group s = (0, s1)"
    using assms(3) by (simp add: tg_cfs_schedulable_down_def s1_def)
  then have "traverse (tg_cfs_schedulable_down d) tg_nop tree s = traverse_list (tg_cfs_schedulable_down d) tg_nop ts s1"
    unfolding tree traverse_nop by simp
  ultimately show ?thesis using r by (simp add: tree prod_eq_iff)
qed

section \<open>Setting a quota\<close>

lemma bw_ok_strip: "strip_hq t = strip_hq s \<Longrightarrow> bw_ok C g s \<Longrightarrow> bw_ok C g t"
  by (rule bw_ok_step) (simp_all add: strip_hq_fields [of t s])

context bw_world
begin

text \<open>Every run queue of the group ends up without runtime and free to run.\<close>

lemma reset_runtime_ends:
  assumes "bw_ok C g s" and "\<forall>i\<in>set cpus. t_cfs_rq (tg_of s g) i \<in> C"
  shows "\<exists>t. reset_runtime B g en cpus s = Some t \<and> bw_ok C g t \<and> quota (bw_of t g) = quota (bw_of s g)
    \<and> b_period (bw_of t g) = b_period (bw_of s g) \<and> b_runtime (bw_of t g) = b_runtime (bw_of s g)
    \<and> (\<forall>c\<in>C. runtime_remaining (cfs_of t c) = (if c \<in> t_cfs_rq (tg_of s g) ` set cpus then 0 else runtime_remaining (cfs_of s c))
         \<and> throttled (cfs_of t c) = (throttled (cfs_of s c) \<and> c \<notin> t_cfs_rq (tg_of s g) ` set cpus))"
  using assms
proof (induction cpus arbitrary: s)
  case (Cons i cpus)
  define c where "c = t_cfs_rq (tg_of s g) i"
  define s1 where "s1 = upd_cfs c (\<lambda>q. q\<lparr>runtime_enabled := en, runtime_remaining := 0\<rparr>) s"
  have c: "c \<in> C" using Cons.prems(2) by (simp add: c_def)
  have o1: "bw_ok C g s1" by (rule bw_ok_step [OF Cons.prems(1)]) (simp_all add: s1_def)
  then have p1: "placed C g s1" by (simp add: bw_ok_def)
  obtain s2 where s2: "(if throttled (cfs_of s1 c) then unthrottle_cfs_rq B c s1 else Some s1) = Some s2"
    using unthrottle_ends [OF p1 c] by (cases "throttled (cfs_of s1 c)") auto
  have o2: "bw_ok C g s2" using s2 o1 unthrottle_ok [OF o1 c] by (auto split: if_splits)
  have b: "same_budget s1 s2" using s2 unthrottle_keeps(1) [OF p1 c] by (auto simp: same_budget_def split: if_splits)
  have thr: "throttled (cfs_of s2 d) = (throttled (cfs_of s d) \<and> d \<noteq> c)" if "d \<in> C" for d
    using s2 unthrottle_keeps(3) [OF p1 c _ that] by (auto simp: s1_def split: if_splits)
  have f: "t_cfs_rq (tg_of s2 g) = t_cfs_rq (tg_of s g)" "quota (bw_of s2 g) = quota (bw_of s g)" "b_period (bw_of s2 g) = b_period (bw_of s g)"
      "b_runtime (bw_of s2 g) = b_runtime (bw_of s g)" "\<And>d. d \<in> C \<Longrightarrow> runtime_remaining (cfs_of s2 d) = (if d = c then 0 else runtime_remaining (cfs_of s d))"
    using b by (simp_all add: same_budget_def s1_def)
  have "reset_runtime B g en (i # cpus) s = reset_runtime B g en cpus s2"
  proof -
    have "throttled (cfs_of s1 c) = throttled (cfs_of s c)" by (simp add: s1_def)
    then show ?thesis
      using s2 by (cases "throttled (cfs_of s c)") (simp_all add: Let_def c_def [symmetric] s1_def [symmetric])
  qed
  moreover from Cons.IH [OF o2] Cons.prems(2) f(1) obtain t where t: "reset_runtime B g en cpus s2 = Some t" "bw_ok C g t"
      "quota (bw_of t g) = quota (bw_of s2 g)" "b_period (bw_of t g) = b_period (bw_of s2 g)" "b_runtime (bw_of t g) = b_runtime (bw_of s2 g)"
      "\<forall>d\<in>C. runtime_remaining (cfs_of t d) = (if d \<in> t_cfs_rq (tg_of s g) ` set cpus then 0 else runtime_remaining (cfs_of s2 d))
         \<and> throttled (cfs_of t d) = (throttled (cfs_of s2 d) \<and> d \<notin> t_cfs_rq (tg_of s g) ` set cpus)" by auto
  ultimately show ?case using f thr by (auto simp: c_def)
qed simp

lemma set_bandwidth_result:
  assumes "bw_ok C g s" and "C = t_cfs_rq (tg_of s g) ` set cpus" and "g \<noteq> root_task_group"
    and "tree_ok s tree" and "root tree = root_task_group" and "parent_of s root_task_group = None"
    and "min_cfs_quota_period \<le> q" and "min_cfs_quota_period \<le> period" and "period \<le> max_cfs_quota_period"
    and d: "d = (if q \<noteq> RUNTIME_INF then \<lparr>c_tg = g, c_period = period div NSEC_PER_USEC, c_quota = q div NSEC_PER_USEC\<rparr>
               else \<lparr>c_tg = g, c_period = period, c_quota = q\<rparr>)"
  shows "if cfs_fits_list (\<lambda>h. normalize_cfs_quota d h s) RUNTIME_INF (subgroups tree)
    then \<exists>t. tg_set_cfs_bandwidth B cpus g period q s = Some (0, t) \<and> bw_ok C g t \<and> quota (bw_of t g) = q \<and> b_period (bw_of t g) = period
      \<and> (q \<noteq> RUNTIME_INF \<longrightarrow> b_runtime (bw_of t g) = q) \<and> throttled_cfs_rq (bw_of t g) = []
      \<and> (\<forall>c\<in>C. runtime_remaining (cfs_of t c) = 0 \<and> \<not> throttled (cfs_of t c))
    else \<exists>t. tg_set_cfs_bandwidth B cpus g period q s = Some (- EINVAL, t) \<and> strip_hq t = strip_hq s"
proof -
  obtain s1 where w: "raw_cfs_schedulable g period q s =
      Some (if cfs_fits_list (\<lambda>g. normalize_cfs_quota d g s) RUNTIME_INF (subgroups tree) then 0 else - EINVAL, s1)" "strip_hq s1 = strip_hq s"
    using cfs_walk_result [OF assms(4-6), of d] by (auto simp: raw_cfs_schedulable_def Let_def d)
  have guards: "\<not> (q < min_cfs_quota_period \<or> period < min_cfs_quota_period)" "\<not> period > max_cfs_quota_period"
    using assms(7-9) by (simp_all add: not_less)
  show ?thesis
  proof (cases "cfs_fits_list (\<lambda>h. normalize_cfs_quota d h s) RUNTIME_INF (subgroups tree)")
    case False
    then show ?thesis using w guards assms(3) by (simp add: tg_set_cfs_bandwidth_def EINVAL_def)
  next
    case True
    define s2 where "s2 = refill_cfs_bandwidth_runtime B g (upd_bw g (\<lambda>b. b\<lparr>b_period := period, quota := q\<rparr>) s1)"
    have o1: "bw_ok C g s1" by (rule bw_ok_strip [OF w(2) assms(1)])
    have o2: "bw_ok C g s2"
      by (rule bw_ok_step [OF o1]) (simp_all add: s2_def refill_cfs_bandwidth_runtime_def)
    have f2: "quota (bw_of s2 g) = q" "b_period (bw_of s2 g) = period" "q \<noteq> RUNTIME_INF \<longrightarrow> b_runtime (bw_of s2 g) = q"
        "t_cfs_rq (tg_of s2 g) = t_cfs_rq (tg_of s g)"
      using strip_hq_fields(6) [OF w(2)] by (simp_all add: s2_def refill_cfs_bandwidth_runtime_def)
    define off where "off = upd_bw g (timer_active_update (\<lambda>_. False)) s2"
    obtain s3 where s3: "(if q \<noteq> RUNTIME_INF \<and> timer_active (bw_of s2 g) then start_cfs_bandwidth B g off else Some s2) = Some s3"
        "bw_ok C g s3" "quota (bw_of s3 g) = q" "b_period (bw_of s3 g) = period" "q \<noteq> RUNTIME_INF \<longrightarrow> b_runtime (bw_of s3 g) = q"
        "t_cfs_rq (tg_of s3 g) = t_cfs_rq (tg_of s g)"
    proof (cases "q \<noteq> RUNTIME_INF \<and> timer_active (bw_of s2 g)")
      case on: True
      have "\<not> timer_active (bw_of off g)" by (simp add: off_def)
      from start_ends [OF this] obtain t where t: "start_cfs_bandwidth B g off = Some t"
          "bw_view C g t = bw_view C g (upd_bw g (timer_active_update (\<lambda>_. True)) off)" by blast
      have "bw_ok C g (upd_bw g (timer_active_update (\<lambda>_. True)) off)" by (rule bw_ok_step [OF o2]) (simp_all add: off_def)
      then have "bw_ok C g t" by (rule bw_ok_view [OF t(2)])
      then show ?thesis using that [of t] t(1) on f2 bw_view_fields(1,10) [OF t(2)] by (simp add: off_def)
    next
      case False
      then show ?thesis using that [of s2] o2 f2 by auto
    qed
    have "\<forall>i\<in>set cpus. t_cfs_rq (tg_of s3 g) i \<in> C" using assms(2) s3(6) by simp
    from reset_runtime_ends [OF s3(2) this] s3(6) assms(2) obtain t where
      t: "reset_runtime B g (q \<noteq> RUNTIME_INF) cpus s3 = Some t" "bw_ok C g t" "quota (bw_of t g) = q" "b_period (bw_of t g) = period"
        "b_runtime (bw_of t g) = b_runtime (bw_of s3 g)"
        "\<forall>c\<in>C. runtime_remaining (cfs_of t c) = 0 \<and> \<not> throttled (cfs_of t c)"
      using s3(3,4) by force
    have "tg_set_cfs_bandwidth B cpus g period q s = Some (0, t)"
      using guards assms(3) w(1) True s3(1) t(1)
      by (cases "q \<noteq> RUNTIME_INF \<and> timer_active (bw_of s2 g)") (auto simp: tg_set_cfs_bandwidth_def Let_def s2_def [symmetric] off_def [symmetric])
    moreover have "throttled_cfs_rq (bw_of t g) = []"
      using t(2,6) by (cases "throttled_cfs_rq (bw_of t g)") (auto simp: bw_ok_def listed_def)
    ultimately show ?thesis using True t s3(5) by simp
  qed
qed

end

section \<open>Properties\<close>


definition sample_rt :: rt_env where
  "sample_rt = \<lparr>sysctl_sched_rt_period = 1000000, sysctl_sched_rt_runtime = 950000,
     def_rt_bandwidth = \<lparr>rt_period = 1000000000, rt_runtime = 950000000\<rparr>, rt_threads = [(50, 0), (120, 0)], rq_rt_tg = (\<lambda>_. 0)\<rparr>"

lemma sample_rt_fits: "\<forall>h\<in>set (nodes (Group 0 [Group 1 []])). rt_fits sample_rt (with_rt [0] 1 1000000000 400000000 limited_grp) h"
  by (simp add: rt_fits_def with_rt_def limited_grp_def rt_ratio_def to_ratio_def RUNTIME_INF_def sample_rt_def
      global_rt_period_def global_rt_runtime_def NSEC_PER_USEC_def)



lemma limited_grp_rqs: "{1, 2} = t_cfs_rq (tg_of limited_grp 1) ` set [0, 1]" "parent_of limited_grp root_task_group = None"
  by (auto simp: limited_grp_def root_task_group_def)

lemma quota_range: "min_cfs_quota_period \<le> 20000000" "(20000000 :: u64) \<noteq> RUNTIME_INF" "min_cfs_quota_period \<le> 100000000"
    "(100000000 :: u64) \<le> max_cfs_quota_period"
  by (simp_all add: min_cfs_quota_period_def max_cfs_quota_period_def NSEC_PER_MSEC_def RUNTIME_INF_def)


text \<open>C22: What is written to \<open>cpu.cfs_quota_us\<close> is read back.  A number of microseconds from 1000 that does not overflow
  64 bits in nanoseconds, when the write succeeds, is what the file holds then, and the period is what it was; -1 takes
  the limit off and is read as -1.\<close>

theorem quota_file_roundtrip:
  assumes "bw_world B C g" and "bw_ok C g s" and "C = t_cfs_rq (tg_of s g) ` set cpus"
    and "tree_ok s tree" and "root tree = root_task_group" and "parent_of s root_task_group = None"
    and "us = - 1 \<or> uint us \<le> 18446744073709551" and "cpu_cfs_quota_write_s64 B cpus g us s = Some (0, t)"
  shows "cpu_cfs_quota_read_s64 g t = us \<and> cpu_cfs_period_read_u64 g t = cpu_cfs_period_read_u64 g s"
proof -
  define q where "q = (if sint us < 0 then RUNTIME_INF else us * NSEC_PER_USEC)"
  have w: "tg_set_cfs_bandwidth B cpus g (b_period (bw_of s g)) q s = Some (0, t)"
    using assms(8) by (simp add: cpu_cfs_quota_write_s64_def tg_set_cfs_quota_def q_def)
  then have g: "g \<noteq> root_task_group" "min_cfs_quota_period \<le> q" "min_cfs_quota_period \<le> b_period (bw_of s g)" "b_period (bw_of s g) \<le> max_cfs_quota_period"
    by (auto simp: tg_set_cfs_bandwidth_def EINVAL_def not_less split: if_splits)
  from bw_world.set_bandwidth_result [OF assms(1-3) g(1) assms(4-6) g(2-4) refl] w
  have t: "quota (bw_of t g) = q" "b_period (bw_of t g) = b_period (bw_of s g)" by (auto simp: EINVAL_def split: if_splits)
  have "(if q = RUNTIME_INF then - 1 else q div NSEC_PER_USEC) = us"
  proof (cases "us = - 1")
    case True
    then show ?thesis by (simp add: q_def)
  next
    case False
    then have us: "uint us \<le> 18446744073709551" using assms(7) by simp
    then have "sint us = uint us" by (intro sint_uint_64) simp
    then have q: "q = us * 1000" by (simp add: q_def NSEC_PER_USEC_def not_less)
    have "uint (us * 1000) = uint us * 1000" using us by (simp add: uint_word_ariths)
    then have "uint q = uint us * 1000" by (simp add: q)
    moreover from this have "q \<noteq> RUNTIME_INF" using us RUNTIME_INF_max by auto
    ultimately show ?thesis by (simp add: NSEC_PER_USEC_def word_uint_eq_iff uint_div_distrib)
  qed
  then show ?thesis using t by (auto simp: cpu_cfs_quota_read_s64_def cpu_cfs_period_read_u64_def tg_get_cfs_quota_def tg_get_cfs_period_def)
qed

theorem quota_file_roundtrip_witness:
  "\<exists>t. cpu_cfs_quota_write_s64 level_env [0, 1] 1 20000 limited_grp = Some (0, t) \<and> cpu_cfs_quota_read_s64 1 t = 20000"
proof -
  have fits: "cfs_fits_list (\<lambda>h. normalize_cfs_quota d h limited_grp) RUNTIME_INF (subgroups (Group 0 [Group 1 []]))" for d
    by (simp add: fits_under_def)
  have "\<exists>t. tg_set_cfs_bandwidth level_env [0, 1] 1 100000000 20000000 limited_grp = Some (0, t)"
    using level_bw.set_bandwidth_result [OF limited_grp_ok limited_grp_rqs(1) _ limited_grp_tree(2) _ limited_grp_rqs(2) quota_range(1,3,4) refl]
      fits by (force simp: root_task_group_def)
  moreover have "b_period (bw_of limited_grp 1) = 100000000" by (simp add: limited_grp_def)
  ultimately obtain t where t: "cpu_cfs_quota_write_s64 level_env [0, 1] 1 20000 limited_grp = Some (0, t)"
    by (auto simp: cpu_cfs_quota_write_s64_def tg_set_cfs_quota_def NSEC_PER_USEC_def)
  have "cpu_cfs_quota_read_s64 1 t = 20000"
    using quota_file_roundtrip [OF level_bw.bw_world_axioms limited_grp_ok limited_grp_rqs(1) limited_grp_tree(2) _ limited_grp_rqs(2) _ t]
    by (simp add: root_task_group_def)
  then show ?thesis using t by blast
qed



end
