(* ===== verification/Sched_Create.thy ===== *)
theory Sched_Create
  imports Sched_Bandwidth
begin

text \<open>
  Making and unmaking task groups: \<open>sched_create_group\<close> and \<open>sched_destroy_group\<close> of \<open>kernel/sched/core.c\<close> with
  the run queues and entities of \<open>kernel/sched/fair.c\<close>, and moving a task to another group.

  The memory allocator answers each request with a number that is not in use, or not at all; it is the record \<open>galloc\<close>.
  Memory from it is zeroed.  The real-time part of a group (\<open>rt.c\<close>) is not in the repository: \<open>new_rt\<close> is the bandwidth
  that it starts with, if its allocation succeeds.
\<close>

record galloc =
  new_tg :: "nat option"
  new_arrays :: bool
  new_cfs_rq :: "nat \<Rightarrow> nat option"
  new_se :: "nat \<Rightarrow> nat option"
  new_rt :: "rt_bandwidth option"

definition zero_avg :: sched_avg where
  "zero_avg = \<lparr>runnable_avg_sum = 0, runnable_avg_period = 0, last_runnable_update = 0, decay_count = 0, load_avg_contrib = 0\<rparr>"

definition zero_cfs :: gcfs where
  "zero_cfs = \<lparr>g_load = \<lparr>weight = 0, inv_weight = 0\<rparr>, g_nr_running = 0, g_h_nr_running = 0, g_min_vruntime = 0, g_curr = None,
     runnable_load_avg = 0, blocked_load_avg = 0, decay_counter = 0, removed_load = 0, last_decay = 0, tg_runnable_contrib = 0,
     tg_load_contrib = 0, h_load = 0, g_rq = 0, on_list = False, g_tg = 0, runtime_enabled = False, runtime_expires = 0,
     runtime_remaining = 0, throttled_clock = 0, throttled_clock_task = 0, throttled_clock_task_time = 0, throttled = False,
     throttle_count = 0\<rparr>"

definition zero_ent :: gent where
  "zero_ent = \<lparr>e_load = \<lparr>weight = 0, inv_weight = 0\<rparr>, e_on_rq = False, e_vruntime = 0, e_avg = zero_avg, e_parent = None,
     e_cfs_rq = 0, e_my_q = None\<rparr>"

definition zero_tg :: tgroup where
  "zero_tg = \<lparr>t_se = (\<lambda>_. None), t_cfs_rq = (\<lambda>_. 0), shares = 0, t_load_avg = 0, t_runnable_avg = 0,
     t_rt_bandwidth = \<lparr>rt_period = 0, rt_runtime = 0\<rparr>, t_rt_rq = (\<lambda>_. 0), t_parent = None, t_children = [],
     t_cfs_bandwidth = \<lparr>b_period = 0, quota = 0, b_runtime = 0, hierarchal_quota = 0, b_runtime_expires = 0, b_idle = False,
       timer_active = False, throttled_cfs_rq = [], nr_periods = 0, nr_throttled = 0, throttled_time = 0\<rparr>\<rparr>"

section \<open>Run queues and entities of a group\<close>

definition group_init_cfs_rq :: "nat \<Rightarrow> 'y grp \<Rightarrow> 'y grp" where
  "group_init_cfs_rq c = upd_cfs c (\<lambda>q. q\<lparr>g_min_vruntime := - push_bit 20 1, decay_counter := 1, removed_load := 0\<rparr>)"

text \<open>The root group's entities are null.\<close>

definition init_tg_cfs_entry :: "nat \<Rightarrow> nat \<Rightarrow> nat option \<Rightarrow> nat \<Rightarrow> nat option \<Rightarrow> 'y grp \<Rightarrow> 'y grp" where
  "init_tg_cfs_entry g c ent cpu parent s =
     (let s1 = init_cfs_rq_runtime c (upd_cfs c (\<lambda>q. q\<lparr>g_tg := g, g_rq := cpu\<rparr>) s);
          s2 = upd_tg g (\<lambda>t. t\<lparr>t_cfs_rq := (t_cfs_rq t)(cpu := c), t_se := (t_se t)(cpu := ent)\<rparr>) s1
      in case ent of
           None \<Rightarrow> s2
         | Some e \<Rightarrow>
             upd_ent e (\<lambda>en. en\<lparr>e_cfs_rq := (case parent of None \<Rightarrow> q_cfs (cpu_rq s2 cpu) | Some p \<Rightarrow> the (e_my_q (ent_of s2 p))),
               e_my_q := Some c, e_load := update_load_set 0 (e_load en), e_parent := parent\<rparr>) s2)"

text \<open>One round per processor; whether all of them got their memory.\<close>

fun alloc_cpus :: "galloc \<Rightarrow> nat \<Rightarrow> nat \<Rightarrow> nat list \<Rightarrow> 'y grp \<Rightarrow> bool \<times> 'y grp" where
  "alloc_cpus A g parent [] s = (True, s)"
| "alloc_cpus A g parent (i # is) s =
     (case (new_cfs_rq A i, new_se A i) of
        (Some c, Some e) \<Rightarrow>
          (let s1 = s\<lparr>cfs_of := (cfs_of s)(c := zero_cfs), ent_of := (ent_of s)(e := zero_ent)\<rparr>
           in alloc_cpus A g parent is
                (init_tg_cfs_entry g c (Some e) i (t_se (tg_of s1 parent) i) (group_init_cfs_rq c s1)))
      | _ \<Rightarrow> (False, s))"

text \<open>The first flag tells whether the group's timers have been initialised, the second is the result.\<close>

definition alloc_fair_sched_group :: "galloc \<Rightarrow> nat \<Rightarrow> nat \<Rightarrow> nat list \<Rightarrow> 'y grp \<Rightarrow> bool \<times> bool \<times> 'y grp" where
  "alloc_fair_sched_group A g parent cpus s =
     (if \<not> new_arrays A then (False, False, s)
      else (True, alloc_cpus A g parent cpus (init_cfs_bandwidth g (upd_tg g (shares_update (\<lambda>_. NICE_0_LOAD)) s))))"

text \<open>Cancelling a timer that was never initialised does not return.\<close>

definition free_fair_sched_group :: "'y bw_env \<Rightarrow> bool \<Rightarrow> nat \<Rightarrow> 'y grp \<Rightarrow> 'y grp option" where
  "free_fair_sched_group B initialised g s = (if initialised then Some (destroy_cfs_bandwidth B g s) else None)"

section \<open>Groups\<close>

definition free_sched_group :: "'y bw_env \<Rightarrow> bool \<Rightarrow> nat \<Rightarrow> 'y grp \<Rightarrow> 'y grp option" where
  "free_sched_group B initialised g s = free_fair_sched_group B initialised g s"

definition sched_create_group :: "galloc \<Rightarrow> 'y bw_env \<Rightarrow> nat list \<Rightarrow> nat \<Rightarrow> 'y grp \<Rightarrow> ((int + nat) \<times> 'y grp) option" where
  "sched_create_group A B cpus parent s =
     (case new_tg A of
        None \<Rightarrow> Some (Inl (- ENOMEM), s)
      | Some g \<Rightarrow>
          (case alloc_fair_sched_group A g parent cpus (s\<lparr>tg_of := (tg_of s)(g := zero_tg)\<rparr>) of
             (initialised, ok, s1) \<Rightarrow>
               if \<not> ok \<or> new_rt A = None
               then map_option (Pair (Inl (- ENOMEM))) (free_sched_group B initialised g s1)
               else Some (Inr g,
                      upd_tg parent (t_children_update (\<lambda>l. g # l))
                        (upd_tg g (\<lambda>t. t\<lparr>t_rt_bandwidth := the (new_rt A), t_parent := Some parent, t_children := []\<rparr>) s1))))"

definition free_sched_group_rcu :: "'y bw_env \<Rightarrow> nat \<Rightarrow> 'y grp \<Rightarrow> 'y grp option" where
  "free_sched_group_rcu B g s = free_sched_group B True g s"

text \<open>The callback runs later.  \<open>siblings\<close> links the group to its parent's children.\<close>

definition sched_destroy_group :: "nat list \<Rightarrow> nat \<Rightarrow> 'y grp \<Rightarrow> 'y grp" where
  "sched_destroy_group cpus g s =
     (let s1 = fold (\<lambda>i. unregister_fair_sched_group g i) cpus s
      in case t_parent (tg_of s1 g) of
           None \<Rightarrow> s1
         | Some p \<Rightarrow> upd_tg p (t_children_update (remove1 g)) s1)"

definition cpu_cgroup_css_alloc :: "galloc \<Rightarrow> 'y bw_env \<Rightarrow> nat list \<Rightarrow> nat option \<Rightarrow> 'y grp \<Rightarrow> ((int + nat) \<times> 'y grp) option" where
  "cpu_cgroup_css_alloc A B cpus parent s =
     (case parent of
        None \<Rightarrow> Some (Inr root_task_group, s)
      | Some p \<Rightarrow> sched_create_group A B cpus p s)"

definition cpu_cgroup_css_free :: "nat list \<Rightarrow> nat \<Rightarrow> 'y grp \<Rightarrow> 'y grp" where
  "cpu_cgroup_css_free cpus g s = sched_destroy_group cpus g s"

section \<open>Moving a task\<close>

text \<open>To the run queue of group \<open>g\<close> on processor \<open>cpu\<close>.\<close>

definition set_task_rq :: "nat \<Rightarrow> nat \<Rightarrow> nat \<Rightarrow> 'y grp \<Rightarrow> 'y grp" where
  "set_task_rq e g cpu s =
     upd_ent e (\<lambda>en. en\<lparr>e_cfs_rq := t_cfs_rq (tg_of s g) cpu, e_parent := t_se (tg_of s g) cpu\<rparr>) s"

text \<open>The task's entity \<open>e\<close>; whether it has never run or is being woken.\<close>

definition task_move_group_fair :: "nat \<Rightarrow> bool \<Rightarrow> bool \<Rightarrow> nat \<Rightarrow> nat \<Rightarrow> bool \<Rightarrow> 'y grp \<Rightarrow> 'y grp" where
  "task_move_group_fair e never_ran waking g cpu queued_now s =
     (if queued_now \<or> never_ran \<or> waking then set_task_rq e g cpu s
      else
        let old = g_min_vruntime (cfs_of s (e_cfs_rq (ent_of s e)));
            s1 = set_task_rq e g cpu (upd_ent e (\<lambda>en. en\<lparr>e_vruntime := e_vruntime en - old\<rparr>) s);
            c = e_cfs_rq (ent_of s1 e);
            q = cfs_of s1 c
        in upd_cfs c (blocked_load_avg_update (\<lambda>x. x + load_avg_contrib (avg_of s1 e)))
             (upd_avg e (decay_count_update (\<lambda>_. decay_counter q))
               (upd_ent e (\<lambda>en. en\<lparr>e_vruntime := e_vruntime en + g_min_vruntime q\<rparr>) s1)))"

end
