(* ===== verification/Sched_Create_Props.thy ===== *)
theory Sched_Create_Props
  imports Sched_Create Sched_Bandwidth_Budget
begin

text \<open>
  The groups stay a tree, whatever groups are made and removed, and a new group is in the state that bandwidth control
  relies on.
\<close>

section \<open>Leaves of trees\<close>

text \<open>A new leaf comes first among its siblings.\<close>

fun add_leaf :: "nat \<Rightarrow> nat \<Rightarrow> group_tree \<Rightarrow> group_tree" and add_leaf_list :: "nat \<Rightarrow> nat \<Rightarrow> group_tree list \<Rightarrow> group_tree list" where
  "add_leaf p g (Group h ts) = (if h = p then Group h (Group g [] # ts) else Group h (add_leaf_list p g ts))"
| "add_leaf_list p g [] = []"
| "add_leaf_list p g (t # ts) = add_leaf p g t # add_leaf_list p g ts"

fun del_leaf :: "nat \<Rightarrow> group_tree \<Rightarrow> group_tree" and del_leaf_list :: "nat \<Rightarrow> group_tree list \<Rightarrow> group_tree list" where
  "del_leaf g (Group h ts) = Group h (del_leaf_list g ts)"
| "del_leaf_list g [] = []"
| "del_leaf_list g (t # ts) = (if root t = g then ts else del_leaf g t # del_leaf_list g ts)"

lemma root_add_leaf [simp]: "root (add_leaf p g t) = root t"
  by (cases t) simp

lemma root_del_leaf [simp]: "root (del_leaf g t) = root t"
  by (cases t) simp

lemma map_root_add_leaf [simp]: "map root (add_leaf_list p g ts) = map root ts"
  by (induction ts) simp_all

lemma linked_cong:
  "(\<forall>h\<in>set (nodes t). ch' h = ch h) \<Longrightarrow> (\<forall>h\<in>set (nodes_list (subgroups t)). pa' h = pa h) \<Longrightarrow> linked ch' pa' t = linked ch pa t"
  "(\<forall>h\<in>set (nodes_list ts). ch' h = ch h \<and> pa' h = pa h) \<Longrightarrow> linked_list ch' pa' g ts = linked_list ch pa g ts"
proof (induction t and ts rule: linked_linked_list.induct)
  case (3 ch pa g t ts)
  have "\<forall>h\<in>set (nodes_list (subgroups t)). pa' h = pa h" using 3(3) by (cases t) auto
  then show ?case using 3 by auto
qed auto

lemma add_leaf_absent:
  "p \<notin> set (nodes t) \<Longrightarrow> add_leaf p g t = t" "p \<notin> set (nodes_list ts) \<Longrightarrow> add_leaf_list p g ts = ts"
  by (induction t and ts rule: nodes_nodes_list.induct) auto

lemma del_leaf_absent:
  "g \<notin> set (nodes_list (subgroups t)) \<Longrightarrow> del_leaf g t = t" "g \<notin> set (nodes_list ts) \<Longrightarrow> del_leaf_list g ts = ts"
proof (induction t and ts rule: nodes_nodes_list.induct)
  case (3 t ts)
  moreover have "g \<noteq> root t" "g \<notin> set (nodes_list (subgroups t))" using 3(3) by (cases t; auto)+
  ultimately show ?case by simp
qed auto

lemma nodes_add_leaf:
  "p \<in> set (nodes t) \<Longrightarrow> distinct (nodes t) \<Longrightarrow> g \<notin> set (nodes t) \<Longrightarrow>
     set (nodes (add_leaf p g t)) = insert g (set (nodes t)) \<and> distinct (nodes (add_leaf p g t))"
  "p \<in> set (nodes_list ts) \<Longrightarrow> distinct (nodes_list ts) \<Longrightarrow> g \<notin> set (nodes_list ts) \<Longrightarrow>
     set (nodes_list (add_leaf_list p g ts)) = insert g (set (nodes_list ts)) \<and> distinct (nodes_list (add_leaf_list p g ts))"
proof (induction t and ts rule: nodes_nodes_list.induct)
  case (3 t ts)
  show ?case
  proof (cases "p \<in> set (nodes t)")
    case True
    then have "p \<notin> set (nodes_list ts)" using 3(4) by auto
    then show ?thesis using 3 True by (auto simp: add_leaf_absent)
  next
    case False
    then show ?thesis using 3 by (auto simp: add_leaf_absent)
  qed
qed auto

lemma linked_add_leaf:
  assumes "ch' p = g # ch p" and "ch' g = []" and "\<And>h. h \<noteq> p \<Longrightarrow> h \<noteq> g \<Longrightarrow> ch' h = ch h" and "pa' g = Some p" and "\<And>h. h \<noteq> g \<Longrightarrow> pa' h = pa h"
  shows "linked ch pa t \<Longrightarrow> p \<in> set (nodes t) \<Longrightarrow> distinct (nodes t) \<Longrightarrow> g \<notin> set (nodes t) \<Longrightarrow> linked ch' pa' (add_leaf p g t)"
    "linked_list ch pa h ts \<Longrightarrow> p \<in> set (nodes_list ts) \<Longrightarrow> distinct (nodes_list ts) \<Longrightarrow> g \<notin> set (nodes_list ts) \<Longrightarrow>
       linked_list ch' pa' h (add_leaf_list p g ts)"
proof (induction t and ts arbitrary: and h rule: nodes_nodes_list.induct)
  case (1 k ts)
  show ?case
  proof (cases "k = p")
    case True
    have "h \<noteq> p \<and> h \<noteq> g" if "h \<in> set (nodes_list ts)" for h using that True 1(4,5) by auto
    then have "linked_list ch' pa' p ts = linked_list ch pa p ts"
      using assms(3,5) by (intro linked_cong(2)) simp
    then show ?thesis using True 1(2) assms(1,2,4) by simp
  next
    case False
    then show ?thesis using 1 assms(3) by simp
  qed
next
  case 2
  then show ?case by simp
next
  case (3 t ts)
  have r: "pa' (root t) = Some h" using 3(3,6) assms(5) [of "root t"] root_in_nodes [of t] by force
  show ?case
  proof (cases "p \<in> set (nodes t)")
    case True
    then have p: "p \<notin> set (nodes_list ts)" using 3(5) by auto
    have "k \<noteq> p \<and> k \<noteq> g" if "k \<in> set (nodes_list ts)" for k using that p 3(6) by auto
    then have "\<forall>k\<in>set (nodes_list ts). ch' k = ch k \<and> pa' k = pa k" using assms(3,5) by simp
    then have "linked_list ch' pa' h ts" using linked_cong(2) [of ts ch' ch pa' pa h] 3(3) by simp
    then show ?thesis using 3(1) True 3(3-6) r p by (simp add: add_leaf_absent)
  next
    case False
    have "k \<noteq> p \<and> k \<noteq> g" if "k \<in> set (nodes t)" for k using that False 3(6) by auto
    moreover have "set (nodes_list (subgroups t)) \<subseteq> set (nodes t)" by (cases t) auto
    ultimately have "\<forall>k\<in>set (nodes t). ch' k = ch k" "\<forall>k\<in>set (nodes_list (subgroups t)). pa' k = pa k"
      using assms(3,5) by (simp, blast)
    then have "linked ch' pa' t" using linked_cong(1) [of t ch' ch pa' pa] 3(3) by simp
    then show ?thesis using 3(2) [of h] False 3(3-6) r by (simp add: add_leaf_absent)
  qed
qed

text \<open>The children of a group of a tree are in the tree.\<close>

lemma linked_children:
  "linked ch pa t \<Longrightarrow> k \<in> set (nodes t) \<Longrightarrow> set (ch k) \<subseteq> set (nodes_list (subgroups t))"
  "linked_list ch pa h ts \<Longrightarrow> k \<in> set (nodes_list ts) \<Longrightarrow> set (ch k) \<subseteq> set (nodes_list ts)"
proof (induction t and ts arbitrary: and h rule: nodes_nodes_list.induct)
  case (1 g ts)
  have "root u \<in> set (nodes_list ts)" if "u \<in> set ts" for u
    using that root_in_nodes [of u] unfolding set_nodes_list by blast
  then show ?case using 1 by auto
next
  case (3 t ts)
  have "set (nodes_list (subgroups t)) \<subseteq> set (nodes t)" by (cases t) auto
  then show ?case using 3 by force
qed simp

lemma nodes_del_leaf:
  "g \<in> set (nodes_list (subgroups t)) \<Longrightarrow> linked ch pa t \<Longrightarrow> distinct (nodes t) \<Longrightarrow> ch g = [] \<Longrightarrow>
     set (nodes (del_leaf g t)) = set (nodes t) - {g} \<and> distinct (nodes (del_leaf g t))"
  "g \<in> set (nodes_list ts) \<Longrightarrow> linked_list ch pa h ts \<Longrightarrow> distinct (nodes_list ts) \<Longrightarrow> ch g = [] \<Longrightarrow>
     set (nodes_list (del_leaf_list g ts)) = set (nodes_list ts) - {g} \<and> distinct (nodes_list (del_leaf_list g ts))"
proof (induction t and ts arbitrary: and h rule: nodes_nodes_list.induct)
  case (1 k ts)
  then show ?case by auto
next
  case (3 t ts)
  show ?case
  proof (cases "root t = g")
    case True
    then have "nodes t = [g]" using 3(4,6) by (cases t) auto
    then show ?thesis using True 3(5) by auto
  next
    case False
    show ?thesis
    proof (cases "g \<in> set (nodes t)")
      case True
      then have "g \<in> set (nodes_list (subgroups t))" "g \<notin> set (nodes_list ts)" using False 3(5) by (cases t; auto)+
      then show ?thesis using 3(1) 3(4-6) False by (auto simp: del_leaf_absent)
    next
      case out: False
      then have "g \<in> set (nodes_list ts)" "g \<notin> set (nodes_list (subgroups t))" using 3(3) by (cases t; auto)+
      then show ?thesis using 3(2) [of h] 3(4-6) False out by (auto simp: del_leaf_absent)
    qed
  qed
qed simp

lemma map_root_del_leaf: "map root (del_leaf_list g ts) = remove1 g (map root ts)"
  by (induction ts) auto

lemma linked_del_leaf:
  assumes "ch g = []"
  shows "g \<in> set (nodes_list (subgroups t)) \<Longrightarrow> linked ch pa t \<Longrightarrow> distinct (nodes t) \<Longrightarrow> (\<forall>k\<in>set (nodes t). ch' k = remove1 g (ch k)) \<Longrightarrow>
       linked ch' pa (del_leaf g t)"
    "g \<in> set (nodes_list ts) \<Longrightarrow> linked_list ch pa h ts \<Longrightarrow> distinct (nodes_list ts) \<Longrightarrow> (\<forall>k\<in>set (nodes_list ts). ch' k = remove1 g (ch k)) \<Longrightarrow>
       linked_list ch' pa h (del_leaf_list g ts)"
proof (induction t and ts arbitrary: and h rule: nodes_nodes_list.induct)
  case (1 k ts)
  then show ?case by (auto simp: map_root_del_leaf)
next
  case (3 t ts)
  have rest: "linked_list ch' pa h ts" if "g \<notin> set (nodes_list ts)"
  proof -
    have "ch' k = ch k" if "k \<in> set (nodes_list ts)" for k
    proof -
      have "g \<notin> set (ch k)" using linked_children(2) [of ch pa h ts k] 3(4) that \<open>g \<notin> set (nodes_list ts)\<close> by auto
      then show ?thesis using 3(6) that by (simp add: remove1_idem)
    qed
    then show ?thesis using linked_cong(2) [of ts ch' ch pa pa h] 3(4) by simp
  qed
  have same: "linked ch' pa t" if "g \<notin> set (nodes_list (subgroups t))"
  proof -
    have "ch' k = ch k" if "k \<in> set (nodes t)" for k
    proof -
      have "g \<notin> set (ch k)" using linked_children(1) [of ch pa t k] 3(4) that \<open>g \<notin> set (nodes_list (subgroups t))\<close> by auto
      then show ?thesis using 3(6) that by (simp add: remove1_idem)
    qed
    then show ?thesis using linked_cong(1) [of t ch' ch pa pa] 3(4) by simp
  qed
  show ?case
  proof (cases "root t = g")
    case True
    then show ?thesis using rest 3(5) root_in_nodes [of t] by auto
  next
    case False
    show ?thesis
    proof (cases "g \<in> set (nodes t)")
      case True
      then have i: "g \<in> set (nodes_list (subgroups t))" "g \<notin> set (nodes_list ts)" using False 3(5) by (cases t; auto)+
      then show ?thesis using 3(1) 3(4-6) False rest by (simp add: del_leaf_absent)
    next
      case out: False
      then have "g \<in> set (nodes_list ts)" "g \<notin> set (nodes_list (subgroups t))" using 3(3) by (cases t; auto)+
      then show ?thesis using 3(2) [of h] 3(4-6) False same by (simp add: del_leaf_absent)
    qed
  qed
qed simp

section \<open>Creating and removing groups\<close>

text \<open>What the rounds for the processors leave alone.\<close>

lemma init_entry_fields:
  "t_children (tg_of (init_tg_cfs_entry g c en i par s) h) = t_children (tg_of s h)"
  "t_parent (tg_of (init_tg_cfs_entry g c en i par s) h) = t_parent (tg_of s h)"
  "t_cfs_bandwidth (tg_of (init_tg_cfs_entry g c en i par s) h) = t_cfs_bandwidth (tg_of s h)"
  "h \<noteq> g \<Longrightarrow> tg_of (init_tg_cfs_entry g c en i par s) h = tg_of s h"
  "cpu_rq (init_tg_cfs_entry g c en i par s) = cpu_rq s"
  by (simp_all add: init_tg_cfs_entry_def init_cfs_rq_runtime_def Let_def split: option.splits)

lemma alloc_cpus_links:
  "t_children (tg_of (snd (alloc_cpus A g p is s)) h) = t_children (tg_of s h)"
  "t_parent (tg_of (snd (alloc_cpus A g p is s)) h) = t_parent (tg_of s h)"
  by (induction "is" arbitrary: s) (auto simp: init_entry_fields group_init_cfs_rq_def Let_def split: option.splits)

lemma create_links:
  assumes "sched_create_group A B cpus p s = Some (Inr g, t)" and "g \<noteq> p"
  shows "children_of t p = g # children_of s p" "children_of t g = []" "parent_of t g = Some p" "new_tg A = Some g"
    "h \<noteq> g \<Longrightarrow> parent_of t h = parent_of s h" "h \<noteq> p \<Longrightarrow> h \<noteq> g \<Longrightarrow> children_of t h = children_of s h"
proof -
  define s0 where "s0 = init_cfs_bandwidth g (upd_tg g (shares_update (\<lambda>_. NICE_0_LOAD)) (s\<lparr>tg_of := (tg_of s)(g := zero_tg)\<rparr>))"
  show n: "new_tg A = Some g"
    using assms(1) by (auto simp: sched_create_group_def split: option.splits prod.splits if_splits)
  have t: "t = upd_tg p (t_children_update (\<lambda>l. g # l))
      (upd_tg g (\<lambda>t. t\<lparr>t_rt_bandwidth := the (new_rt A), t_parent := Some p, t_children := []\<rparr>) (snd (alloc_cpus A g p cpus s0)))"
    using assms(1) n
    by (auto simp: sched_create_group_def alloc_fair_sched_group_def s0_def split: option.splits prod.splits if_splits)
  have s0: "children_of s0 h = children_of s h" "parent_of s0 h = parent_of s h" if "h \<noteq> g" for h
    using that by (simp_all add: s0_def init_cfs_bandwidth_def)
  show "children_of t p = g # children_of s p" "children_of t g = []" "parent_of t g = Some p"
    "h \<noteq> g \<Longrightarrow> parent_of t h = parent_of s h" "h \<noteq> p \<Longrightarrow> h \<noteq> g \<Longrightarrow> children_of t h = children_of s h"
    using assms(2) by (simp_all add: t alloc_cpus_links s0)
qed

lemma destroy_links:
  "parent_of (sched_destroy_group cpus g s) h = parent_of s h"
  "children_of (sched_destroy_group cpus g s) h = (if parent_of s g = Some h then remove1 g (children_of s h) else children_of s h)"
proof -
  have "tg_of (fold (unregister_fair_sched_group g) cpus s) = tg_of s"
    by (induction cpus arbitrary: s) (simp_all add: unregister_fair_sched_group_def list_del_leaf_cfs_rq_def)
  then show "parent_of (sched_destroy_group cpus g s) h = parent_of s h"
    "children_of (sched_destroy_group cpus g s) h = (if parent_of s g = Some h then remove1 g (children_of s h) else children_of s h)"
    by (auto simp: sched_destroy_group_def Let_def split: option.splits)
qed

text \<open>The groups in use and the state.  A new group is made below one in use, with a number not in use; the cgroup file
  system removes a group only when it has no children, and never the root.\<close>

inductive group_step :: "'y bw_env \<Rightarrow> nat list \<Rightarrow> nat set \<times> 'y grp \<Rightarrow> nat set \<times> 'y grp \<Rightarrow> bool" for B cpus where
  create: "p \<in> L \<Longrightarrow> g \<notin> L \<Longrightarrow> sched_create_group A B cpus p s = Some (Inr g, t) \<Longrightarrow> group_step B cpus (L, s) (insert g L, t)"
| destroy: "g \<in> L \<Longrightarrow> g \<noteq> root_task_group \<Longrightarrow> children_of s g = [] \<Longrightarrow> group_step B cpus (L, s) (L - {g}, sched_destroy_group cpus g s)"
| other: "(\<And>h. children_of t h = children_of s h) \<Longrightarrow> (\<And>h. parent_of t h = parent_of s h) \<Longrightarrow> group_step B cpus (L, s) (L, t)"

definition group_inv :: "nat set \<Rightarrow> 'y grp \<Rightarrow> bool" where
  "group_inv L s \<longleftrightarrow> (\<exists>tree. tree_ok s tree \<and> root tree = root_task_group \<and> set (nodes tree) = L) \<and> parent_of s root_task_group = None"

lemma linked_parent: "linked ch pa t \<Longrightarrow> k \<in> set (nodes t) \<Longrightarrow> c \<in> set (ch k) \<Longrightarrow> pa c = Some k"
  "linked_list ch pa h ts \<Longrightarrow> k \<in> set (nodes_list ts) \<Longrightarrow> c \<in> set (ch k) \<Longrightarrow> pa c = Some k"
proof (induction t and ts arbitrary: and h rule: nodes_nodes_list.induct)
  case (1 g ts)
  have "linked_list ch pa g ts \<Longrightarrow> u \<in> set ts \<Longrightarrow> pa (root u) = Some g" for u by (induction ts) auto
  then show ?case using 1 by auto
qed auto

lemma group_step_inv:
  assumes "group_step B cpus (L, s) (L', t)" and "group_inv L s"
  shows "group_inv L' t"
proof -
  obtain tree where tr: "linked (children_of s) (parent_of s) tree" "distinct (nodes tree)" "root tree = root_task_group" "set (nodes tree) = L"
    and top: "parent_of s root_task_group = None"
    using assms(2) by (auto simp: group_inv_def tree_ok_def)
  have rL: "root_task_group \<in> L" using root_in_nodes [of tree] tr(3,4) by simp
  from assms(1) show ?thesis
  proof (cases rule: group_step.cases)
    case (create p g A)
    then have "g \<noteq> p" by auto
    note l = create_links [OF create(4) this]
    have "linked (children_of t) (parent_of t) (add_leaf p g tree)"
      by (rule linked_add_leaf(1) [OF l(1,2) l(6) l(3,5) tr(1)]) (use create tr in auto)
    moreover have "set (nodes (add_leaf p g tree)) = L' \<and> distinct (nodes (add_leaf p g tree))"
      using nodes_add_leaf(1) [of p tree g] create tr by simp
    moreover have "parent_of t root_task_group = None" using l(5) [of root_task_group] rL create(3) top by auto
    ultimately show ?thesis unfolding group_inv_def tree_ok_def using tr(3) by (intro conjI exI [of _ "add_leaf p g tree"]) simp_all
  next
    case (destroy g)
    have sub: "g \<in> set (nodes_list (subgroups tree))" using destroy(3,4) tr(3,4) by (cases tree) auto
    have ch: "\<forall>k\<in>set (nodes tree). children_of t k = remove1 g (children_of s k)"
    proof
      fix k assume k: "k \<in> set (nodes tree)"
      have "g \<notin> set (children_of s k)" if "parent_of s g \<noteq> Some k" using linked_parent(1) [OF tr(1) k] that by blast
      then show "children_of t k = remove1 g (children_of s k)" by (auto simp: destroy(2) destroy_links remove1_idem)
    qed
    have pa: "parent_of t = parent_of s" by (auto simp: fun_eq_iff destroy(2) destroy_links)
    have "linked (children_of t) (parent_of t) (del_leaf g tree)"
      unfolding pa by (rule linked_del_leaf(1) [OF destroy(5) sub tr(1,2) ch])
    moreover have "set (nodes (del_leaf g tree)) = L' \<and> distinct (nodes (del_leaf g tree))"
      using nodes_del_leaf(1) [OF sub tr(1,2) destroy(5)] destroy(1) tr(4) by simp
    moreover have "parent_of t root_task_group = None" using top fun_cong [OF pa, of root_task_group] by simp
    ultimately show ?thesis
      unfolding group_inv_def tree_ok_def using tr(3) by (intro conjI exI [of _ "del_leaf g tree"]) simp_all
  next
    case other
    then have "children_of t = children_of s" "parent_of t = parent_of s" "parent_of t root_task_group = parent_of s root_task_group"
      by (auto simp: fun_eq_iff)
    then show ?thesis using assms(2) other(1) by (simp add: group_inv_def tree_ok_def)
  qed
qed

section \<open>A new group\<close>

lemma entity_chain_steps:
  "entity_chain par None = Some []"
  "entity_chain par (Some i) = Option.bind (entity_chain par (par i)) (\<lambda>is. Some (i # is))"
  by (subst entity_chain.simps, simp)+

lemma entity_chain_cong: "entity_chain par e = Some es \<Longrightarrow> \<forall>i\<in>set es. par' i = par i \<Longrightarrow> entity_chain par' e = Some es"
proof (induction es arbitrary: e)
  case Nil
  then have "e = None" by (cases e) (auto simp: entity_chain_steps split: bind_splits)
  then show ?case by (simp add: entity_chain_steps)
next
  case (Cons i es)
  then have e: "e = Some i \<and> entity_chain par (par i) = Some es"
    by (cases e) (auto simp: entity_chain_steps split: bind_splits)
  then have "entity_chain par' (par' i) = Some es" using Cons by simp
  then show ?case using e by (simp add: entity_chain_steps)
qed

text \<open>The run queue and the entity of processor \<open>i\<close>, once it has had its round.\<close>

definition cpu_ready :: "galloc \<Rightarrow> nat \<Rightarrow> nat \<Rightarrow> 'y grp \<Rightarrow> nat \<Rightarrow> 'y grp \<Rightarrow> bool" where
  "cpu_ready A g p s i t \<longleftrightarrow> (\<exists>c e. new_cfs_rq A i = Some c \<and> new_se A i = Some e \<and> t_cfs_rq (tg_of t g) i = c \<and> t_se (tg_of t g) i = Some e
     \<and> g_tg (cfs_of t c) = g \<and> \<not> throttled (cfs_of t c) \<and> \<not> runtime_enabled (cfs_of t c) \<and> e_parent (ent_of t e) = t_se (tg_of s p) i
     \<and> e_cfs_rq (ent_of t e) = (case t_se (tg_of s p) i of None \<Rightarrow> q_cfs (cpu_rq s i) | Some q \<Rightarrow> the (e_my_q (ent_of s q))))"

lemma alloc_cpus_ready:
  assumes "alloc_cpus A g p is s = (True, t)" and "distinct is" and "inj_on (new_cfs_rq A) (set is)" and "inj_on (new_se A) (set is)"
    and "g \<noteq> p" and "\<forall>i\<in>set is. \<forall>q. t_se (tg_of s p) i = Some q \<longrightarrow> Some q \<notin> new_se A ` set is"
  shows "(\<forall>i\<in>set is. cpu_ready A g p s i t) \<and> (\<forall>i. i \<notin> set is \<longrightarrow> t_se (tg_of t g) i = t_se (tg_of s g) i \<and> t_cfs_rq (tg_of t g) i = t_cfs_rq (tg_of s g) i)
    \<and> (\<forall>c. Some c \<notin> new_cfs_rq A ` set is \<longrightarrow> cfs_of t c = cfs_of s c) \<and> (\<forall>e. Some e \<notin> new_se A ` set is \<longrightarrow> ent_of t e = ent_of s e)
    \<and> bw_of t g = bw_of s g \<and> tg_of t p = tg_of s p"
  using assms
proof (induction "is" arbitrary: s)
  case (Cons i "is")
  obtain c e where ce: "new_cfs_rq A i = Some c" "new_se A i = Some e"
    using Cons.prems(1) by (auto split: option.splits)
  define s0 where "s0 = group_init_cfs_rq c (s\<lparr>cfs_of := (cfs_of s)(c := zero_cfs), ent_of := (ent_of s)(e := zero_ent)\<rparr>)"
  define s1 where "s1 = init_tg_cfs_entry g c (Some e) i (t_se (tg_of s p) i) s0"
  have rest: "alloc_cpus A g p is s1 = (True, t)"
    using Cons.prems(1) ce by (simp add: s1_def s0_def Let_def group_init_cfs_rq_def)
  have new: "Some c \<notin> new_cfs_rq A ` set is" "Some e \<notin> new_se A ` set is"
    using Cons.prems(2-4) ce by (auto simp: inj_on_def)
  have s1: "tg_of s1 p = tg_of s p" "bw_of s1 g = bw_of s g" "cpu_rq s1 = cpu_rq s"
      "\<And>d. d \<noteq> c \<Longrightarrow> cfs_of s1 d = cfs_of s d" "\<And>d. d \<noteq> e \<Longrightarrow> ent_of s1 d = ent_of s d"
      "\<And>j. j \<noteq> i \<Longrightarrow> t_se (tg_of s1 g) j = t_se (tg_of s g) j \<and> t_cfs_rq (tg_of s1 g) j = t_cfs_rq (tg_of s g) j"
    using Cons.prems(5)
    by (simp_all add: s1_def s0_def init_tg_cfs_entry_def init_cfs_rq_runtime_def group_init_cfs_rq_def Let_def)
  have pq: "q \<noteq> e" if "j \<in> set (i # is)" "t_se (tg_of s p) j = Some q" for j q using Cons.prems(6) ce(2) that by force
  have own: "cpu_ready A g p s i s1"
    using ce Cons.prems(5) pq [of i]
    by (auto simp: cpu_ready_def s1_def s0_def init_tg_cfs_entry_def init_cfs_rq_runtime_def group_init_cfs_rq_def zero_cfs_def Let_def split: option.splits)
  have ih: "(\<forall>j\<in>set is. cpu_ready A g p s1 j t) \<and> (\<forall>j. j \<notin> set is \<longrightarrow> t_se (tg_of t g) j = t_se (tg_of s1 g) j \<and> t_cfs_rq (tg_of t g) j = t_cfs_rq (tg_of s1 g) j)
    \<and> (\<forall>d. Some d \<notin> new_cfs_rq A ` set is \<longrightarrow> cfs_of t d = cfs_of s1 d) \<and> (\<forall>d. Some d \<notin> new_se A ` set is \<longrightarrow> ent_of t d = ent_of s1 d)
    \<and> bw_of t g = bw_of s1 g \<and> tg_of t p = tg_of s1 p"
    using Cons.prems(2-6) s1(1) by (intro Cons.IH [OF rest]) (auto simp: inj_on_def)
  have "cpu_ready A g p s i t" using own ih ce new Cons.prems(2) by (simp add: cpu_ready_def)
  moreover have "cpu_ready A g p s j t" if "j \<in> set is" for j
  proof -
    have same: "(case t_se (tg_of s1 p) j of None \<Rightarrow> q_cfs (cpu_rq s1 j) | Some q \<Rightarrow> the (e_my_q (ent_of s1 q)))
        = (case t_se (tg_of s p) j of None \<Rightarrow> q_cfs (cpu_rq s j) | Some q \<Rightarrow> the (e_my_q (ent_of s q)))"
      using s1(1,3,5) pq [of j] that by (auto split: option.splits)
    have "cpu_ready A g p s1 j t" using ih that by blast
    then show ?thesis unfolding cpu_ready_def same by (simp add: s1(1))
  qed
  ultimately show ?case using ih s1 ce by auto
qed simp

text \<open>The memory of a new group is not in use: not by the parent's run queues and entities, nor twice.\<close>

definition new_queues :: "galloc \<Rightarrow> nat list \<Rightarrow> nat set" where
  "new_queues A cpus = {c. \<exists>i\<in>set cpus. new_cfs_rq A i = Some c}"

definition unused :: "galloc \<Rightarrow> nat list \<Rightarrow> nat \<Rightarrow> 'y grp \<Rightarrow> bool" where
  "unused A cpus p s \<longleftrightarrow> distinct cpus \<and> inj_on (new_cfs_rq A) (set cpus) \<and> inj_on (new_se A) (set cpus)
     \<and> (\<forall>i\<in>set cpus. \<forall>q. t_se (tg_of s p) i = Some q \<longrightarrow> Some q \<notin> new_se A ` set cpus)
     \<and> (\<forall>i\<in>set cpus. (case t_se (tg_of s p) i of None \<Rightarrow> q_cfs (cpu_rq s i) | Some q \<Rightarrow> the (e_my_q (ent_of s q))) \<notin> new_queues A cpus)
     \<and> (\<forall>i\<in>set cpus. \<exists>es. for_each_sched_entity s (t_se (tg_of s p) i) = Some es
          \<and> (\<forall>e\<in>set es. e_cfs_rq (ent_of s e) \<notin> new_queues A cpus \<and> Some e \<notin> new_se A ` set cpus))"

lemma create_state:
  assumes "sched_create_group A B cpus p s = Some (Inr g, t)" and "g \<noteq> p" and "unused A cpus p s"
  shows "(\<forall>i\<in>set cpus. cpu_ready A g p s i t) \<and> (\<forall>i. i \<notin> set cpus \<longrightarrow> t_se (tg_of t g) i = None)
    \<and> (\<forall>e. Some e \<notin> new_se A ` set cpus \<longrightarrow> ent_of t e = ent_of s e)
    \<and> throttled_cfs_rq (bw_of t g) = [] \<and> quota (bw_of t g) = RUNTIME_INF"
proof -
  define s0 where "s0 = init_cfs_bandwidth g (upd_tg g (shares_update (\<lambda>_. NICE_0_LOAD)) (s\<lparr>tg_of := (tg_of s)(g := zero_tg)\<rparr>))"
  define u where "u = snd (alloc_cpus A g p cpus s0)"
  have n: "new_tg A = Some g" using create_links(4) [OF assms(1,2)] .
  have a: "alloc_cpus A g p cpus s0 = (True, u)" and t: "t = upd_tg p (t_children_update (\<lambda>l. g # l))
      (upd_tg g (\<lambda>t. t\<lparr>t_rt_bandwidth := the (new_rt A), t_parent := Some p, t_children := []\<rparr>) u)"
    using assms(1) n
    by (auto simp: sched_create_group_def alloc_fair_sched_group_def s0_def u_def prod_eq_iff split: option.splits prod.splits if_splits)
  have s0: "tg_of s0 p = tg_of s p" "cpu_rq s0 = cpu_rq s" "ent_of s0 = ent_of s" "\<And>i. t_se (tg_of s0 g) i = None"
      "throttled_cfs_rq (bw_of s0 g) = []" "quota (bw_of s0 g) = RUNTIME_INF"
    using assms(2) by (simp_all add: s0_def init_cfs_bandwidth_def zero_tg_def)
  have "(\<forall>i\<in>set cpus. cpu_ready A g p s0 i u) \<and> (\<forall>i. i \<notin> set cpus \<longrightarrow> t_se (tg_of u g) i = t_se (tg_of s0 g) i \<and> t_cfs_rq (tg_of u g) i = t_cfs_rq (tg_of s0 g) i)
    \<and> (\<forall>c. Some c \<notin> new_cfs_rq A ` set cpus \<longrightarrow> cfs_of u c = cfs_of s0 c) \<and> (\<forall>e. Some e \<notin> new_se A ` set cpus \<longrightarrow> ent_of u e = ent_of s0 e)
    \<and> bw_of u g = bw_of s0 g \<and> tg_of u p = tg_of s0 p"
    using assms(3) s0(1) by (intro alloc_cpus_ready [OF a _ _ _ assms(2)]) (auto simp: unused_def)
  moreover have "cpu_ready A g p s i t" if "cpu_ready A g p s0 i u" for i
    using that assms(2) unfolding cpu_ready_def s0(1-3) by (simp add: t)
  ultimately show ?thesis using s0 assms(2) by (simp add: t)
qed

section \<open>Properties\<close>

text \<open>C17: The task groups stay a tree.  Starting with the root group alone, whatever groups are made below groups in use
  and removed when they have no children, in any order and between anything that leaves the links alone, the links of the
  groups in use describe a tree below the root, and each group in use is in it once.  So every walk over it ends.\<close>

theorem groups_stay_a_tree:
  assumes "(group_step B cpus)\<^sup>*\<^sup>* ({root_task_group}, s) (L, t)" and "children_of s root_task_group = []" and "parent_of s root_task_group = None"
  shows "\<exists>tree. tree_ok t tree \<and> root tree = root_task_group \<and> set (nodes tree) = L"
proof -
  have "tree_ok s (Group root_task_group [])" using assms(2) by (simp add: tree_ok_def)
  then have "group_inv {root_task_group} s"
    using assms(3) unfolding group_inv_def by (intro conjI exI [of _ "Group root_task_group []"]) simp_all
  with assms(1) have "group_inv (fst (L, t)) (snd (L, t))"
    by (induction rule: rtranclp_induct) (auto intro: group_step_inv)
  then show ?thesis by (auto simp: group_inv_def)
qed


section \<open>Without memory, and an instance\<close>

text \<open>With memory, a group is made.  When the arrays of a new group cannot be allocated, the error path cancels timers that
  were never initialised, and does not return.\<close>

lemma alloc_cpus_enough: "\<forall>i\<in>set is. new_cfs_rq A i \<noteq> None \<and> new_se A i \<noteq> None \<Longrightarrow> fst (alloc_cpus A g p is s)"
  by (induction "is" arbitrary: s) (auto simp: Let_def)

lemma create_enough:
  assumes "new_tg A = Some g" "new_arrays A" "\<forall>i\<in>set cpus. new_cfs_rq A i \<noteq> None \<and> new_se A i \<noteq> None" "new_rt A \<noteq> None"
  shows "\<exists>t. sched_create_group A B cpus p s = Some (Inr g, t)"
  using assms alloc_cpus_enough [OF assms(3)]
  by (auto simp: sched_create_group_def alloc_fair_sched_group_def case_prod_beta)

lemma create_without_arrays_hangs:
  "new_tg A = Some g \<Longrightarrow> \<not> new_arrays A \<Longrightarrow> sched_create_group A B cpus p s = None"
  by (simp add: sched_create_group_def alloc_fair_sched_group_def free_sched_group_def free_fair_sched_group_def)

definition sample_alloc :: galloc where
  "sample_alloc = \<lparr>new_tg = Some 2, new_arrays = True, new_cfs_rq = (\<lambda>i. Some (i + 10)), new_se = (\<lambda>i. Some (i + 20)),
     new_rt = Some \<lparr>rt_period = 1000000000, rt_runtime = 0\<rparr>\<rparr>"

lemma sample_alloc_creates: "\<exists>t. sched_create_group sample_alloc level_env [0, 1] p s = Some (Inr 2, t)"
  by (rule create_enough) (simp_all add: sample_alloc_def)

lemma sample_alloc_unused: "unused sample_alloc [0, 1] 1 limited_grp"
proof -
  have "for_each_sched_entity limited_grp (Some e) = Some [e]" for e
    by (simp add: for_each_sched_entity_def entity_chain_steps limited_grp_def)
  moreover have "t_se (tg_of limited_grp 1) i = Some i" "e_my_q (ent_of limited_grp i) = Some (i + 1)" "e_cfs_rq (ent_of limited_grp i) = i + 3" for i
    by (simp_all add: limited_grp_def)
  moreover have "i \<in> set [0, 1] \<Longrightarrow> i < 2" for i :: nat by auto
  ultimately show ?thesis
    by (auto simp: unused_def inj_on_def new_queues_def sample_alloc_def)
qed


definition lone_grp :: "level_world grp" where
  "lone_grp = upd_tg 0 (t_children_update (\<lambda>_. [])) limited_grp"

theorem groups_stay_a_tree_witness:
  "\<exists>t tree. (group_step level_env [0, 1])\<^sup>*\<^sup>* ({root_task_group}, lone_grp) ({2, root_task_group}, t)
     \<and> tree_ok t tree \<and> root tree = root_task_group \<and> set (nodes tree) = {2, root_task_group}"
proof -
  obtain t where t: "sched_create_group sample_alloc level_env [0, 1] root_task_group lone_grp = Some (Inr 2, t)"
    using sample_alloc_creates by blast
  have "group_step level_env [0, 1] ({root_task_group}, lone_grp) (insert 2 {root_task_group}, t)"
    by (rule group_step.create [OF _ _ t]) (simp_all add: root_task_group_def)
  then have steps: "(group_step level_env [0, 1])\<^sup>*\<^sup>* ({root_task_group}, lone_grp) ({2, root_task_group}, t)" by blast
  have "children_of lone_grp root_task_group = []" "parent_of lone_grp root_task_group = None"
    by (simp_all add: lone_grp_def root_task_group_def limited_grp_def)
  from groups_stay_a_tree [OF steps this] steps show ?thesis by blast
qed

end
