(* ===== verification/Sched_Acct.thy ===== *)
theory Sched_Acct
  imports Sched_Create_Props Sysctl_Lib
begin

text \<open>
  CPU accounting of control groups (\<open>CONFIG_CGROUP_CPUACCT\<close>) in \<open>kernel/sched/core.c\<close>: time is charged to the group
  of a task and to all groups above it, per processor, and the control files read and reset the sums.
\<close>

section \<open>State\<close>

record kernel_cpustat =
  cputime_user :: u64
  cputime_nice :: u64
  cputime_system :: u64
  cputime_softirq :: u64
  cputime_irq :: u64

record cpuacct =
  ca_parent :: "nat option"
  cpuusage :: "nat \<Rightarrow> u64"
  cpustat :: "nat \<Rightarrow> kernel_cpustat"

record acct =
  ca_of :: "nat \<Rightarrow> cpuacct"
  cpuacct_active :: bool

definition zero_ca :: "nat option \<Rightarrow> cpuacct" where
  "zero_ca p = \<lparr>ca_parent = p, cpuusage = (\<lambda>_. 0),
     cpustat = (\<lambda>_. \<lparr>cputime_user = 0, cputime_nice = 0, cputime_system = 0, cputime_softirq = 0, cputime_irq = 0\<rparr>)\<rparr>"

definition root_cpuacct :: nat where "root_cpuacct = 0"

section \<open>Operations\<close>

text \<open>The answers of the allocator for the group and its two per-processor areas.\<close>

definition cpuacct_css_alloc :: "nat option \<Rightarrow> bool \<Rightarrow> bool \<Rightarrow> nat option \<Rightarrow> acct \<Rightarrow> (int + nat) \<times> acct" where
  "cpuacct_css_alloc new_ca usage_ok stat_ok parent s =
     (case parent of
        None \<Rightarrow> (Inr root_cpuacct, s)
      | Some p \<Rightarrow>
          (case new_ca of
             None \<Rightarrow> (Inl (- ENOMEM), s)
           | Some ca \<Rightarrow>
               if \<not> usage_ok \<or> \<not> stat_ok then (Inl (- ENOMEM), s)
               else (Inr ca, s\<lparr>ca_of := (ca_of s)(ca := zero_ca (Some p))\<rparr>)))"

definition parent_ca :: "nat \<Rightarrow> acct \<Rightarrow> nat option" where
  "parent_ca ca s = ca_parent (ca_of s ca)"

definition cpuacct_cpuusage_read :: "nat \<Rightarrow> nat \<Rightarrow> acct \<Rightarrow> u64" where
  "cpuacct_cpuusage_read ca cpu s = cpuusage (ca_of s ca) cpu"

definition cpuacct_cpuusage_write :: "nat \<Rightarrow> nat \<Rightarrow> u64 \<Rightarrow> acct \<Rightarrow> acct" where
  "cpuacct_cpuusage_write ca cpu val s =
     s\<lparr>ca_of := (ca_of s)(ca := (ca_of s ca)\<lparr>cpuusage := (cpuusage (ca_of s ca))(cpu := val)\<rparr>)\<rparr>"

definition cpuusage_read :: "nat list \<Rightarrow> nat \<Rightarrow> acct \<Rightarrow> u64" where
  "cpuusage_read present ca s = fold (\<lambda>i total. total + cpuacct_cpuusage_read ca i s) present 0"

definition cpuusage_write :: "nat list \<Rightarrow> nat \<Rightarrow> u64 \<Rightarrow> acct \<Rightarrow> int \<times> acct" where
  "cpuusage_write present ca reset s =
     (if reset \<noteq> 0 then (- EINVAL, s) else (0, fold (\<lambda>i. cpuacct_cpuusage_write ca i 0) present s))"

definition cpuacct_percpu_seq_read :: "nat list \<Rightarrow> nat \<Rightarrow> acct \<Rightarrow> string" where
  "cpuacct_percpu_seq_read present ca s =
     concat (map (\<lambda>i. show_nat (unat (cpuacct_cpuusage_read ca i s)) @ '' '') present) @ [CHR 0x0A]"

definition cpuacct_stats_show :: "(u64 \<Rightarrow> u64) \<Rightarrow> nat list \<Rightarrow> nat \<Rightarrow> acct \<Rightarrow> (string \<times> u64) list" where
  "cpuacct_stats_show cputime64_to_clock_t online ca s =
     [(''user'', cputime64_to_clock_t (fold (\<lambda>i val. let k = cpustat (ca_of s ca) i in val + cputime_user k + cputime_nice k) online 0)),
      (''system'', cputime64_to_clock_t (fold (\<lambda>i val. let k = cpustat (ca_of s ca) i
         in val + cputime_system k + cputime_irq k + cputime_softirq k) online 0))]"

text \<open>The groups from \<open>ca\<close> up; \<open>None\<close> when the chain of parents does not end.\<close>

definition ca_chain :: "nat \<Rightarrow> acct \<Rightarrow> nat list option" where
  "ca_chain ca s = entity_chain (\<lambda>i. parent_ca i s) (Some ca)"

definition cpuacct_charge :: "nat \<Rightarrow> nat \<Rightarrow> u64 \<Rightarrow> acct \<Rightarrow> acct option" where
  "cpuacct_charge ca cpu cputime s =
     (if \<not> cpuacct_active s then Some s
      else map_option (\<lambda>cas. fold (\<lambda>c t. cpuacct_cpuusage_write c cpu (cpuacct_cpuusage_read c cpu t + cputime) t) cas s) (ca_chain ca s))"

section \<open>Usage is the sum of the charges\<close>

lemma entity_chain_suffix:
  "entity_chain par e = Some es \<Longrightarrow> j \<in> set es \<Longrightarrow> \<exists>zs. entity_chain par (Some j) = Some zs \<and> length zs \<le> length es"
proof (induction es arbitrary: e)
  case (Cons i es)
  then have e: "e = Some i" "entity_chain par (par i) = Some es"
    by (cases e; force simp: entity_chain_steps split: bind_splits)+
  show ?case
  proof (cases "j = i")
    case True
    then show ?thesis using Cons.prems(1) e(1) by auto
  next
    case False
    then show ?thesis using Cons.IH [OF e(2)] Cons.prems(2) by force
  qed
qed simp

lemma entity_chain_distinct: "entity_chain par e = Some es \<Longrightarrow> distinct es"
proof (induction es arbitrary: e)
  case (Cons i es)
  then have e: "e = Some i" "entity_chain par (par i) = Some es"
    by (cases e; force simp: entity_chain_steps split: bind_splits)+
  have "i \<notin> set es" using entity_chain_suffix [OF e(2), of i] Cons.prems e(1) by auto
  then show ?case using Cons.IH [OF e(2)] by simp
qed simp

lemma fold_charge:
  assumes "distinct cas"
  shows "ca_of (fold (\<lambda>c t. cpuacct_cpuusage_write c cpu (cpuacct_cpuusage_read c cpu t + x) t) cas s) g =
      (if g \<in> set cas then (ca_of s g)\<lparr>cpuusage := (cpuusage (ca_of s g))(cpu := cpuusage (ca_of s g) cpu + x)\<rparr> else ca_of s g)
    \<and> cpuacct_active (fold (\<lambda>c t. cpuacct_cpuusage_write c cpu (cpuacct_cpuusage_read c cpu t + x) t) cas s) = cpuacct_active s"
  using assms
  by (induction cas arbitrary: s) (auto simp: cpuacct_cpuusage_write_def cpuacct_cpuusage_read_def)

lemma charge_usage:
  assumes "cpuacct_charge ca cpu x s = Some t" and "cpuacct_active s"
  shows "\<exists>cas. ca_chain ca s = Some cas \<and> cpuacct_active t \<and> (\<forall>c. parent_ca c t = parent_ca c s)
    \<and> cpuusage (ca_of t g) = (if g \<in> set cas then (cpuusage (ca_of s g))(cpu := cpuusage (ca_of s g) cpu + x) else cpuusage (ca_of s g))"
proof -
  obtain cas where c: "ca_chain ca s = Some cas"
      "t = fold (\<lambda>c t. cpuacct_cpuusage_write c cpu (cpuacct_cpuusage_read c cpu t + x) t) cas s"
    using assms by (auto simp: cpuacct_charge_def)
  have "distinct cas" using c(1) entity_chain_distinct unfolding ca_chain_def by blast
  note f = fold_charge [OF this, of cpu x s, folded c(2)]
  show ?thesis using c(1) f [of g] assms(2) f by (auto simp: parent_ca_def)
qed

lemma usage_sum: "cpuusage_read present g s = (\<Sum>i\<leftarrow>present. cpuusage (ca_of s g) i)"
proof -
  have "fold (\<lambda>i total. total + f i) is a = a + (\<Sum>i\<leftarrow>is. f i)" for f :: "nat \<Rightarrow> u64" and "is" a
    by (induction "is" arbitrary: a) (simp_all add: add.assoc)
  then show ?thesis by (simp add: cpuusage_read_def cpuacct_cpuusage_read_def)
qed

lemma sum_list_fun_upd:
  "distinct is \<Longrightarrow> sum_list (map (f(c := f c + x)) is) = sum_list (map f is) + (if c \<in> set is then x else (0 :: u64))"
proof (induction "is")
  case (Cons i "is")
  then show ?case by (cases "i = c") (auto simp: algebra_simps)
qed simp

text \<open>A charge is the group of the task, its processor and the time.\<close>

fun charges :: "(nat \<times> nat \<times> u64) list \<Rightarrow> acct \<Rightarrow> acct option" where
  "charges [] s = Some s"
| "charges ((ca, cpu, x) # cs) s = Option.bind (cpuacct_charge ca cpu x s) (charges cs)"

text \<open>Whether group \<open>g\<close> is \<open>ca\<close> or above it.\<close>

definition is_above :: "acct \<Rightarrow> nat \<Rightarrow> nat \<Rightarrow> bool" where
  "is_above s g ca \<longleftrightarrow> (case ca_chain ca s of None \<Rightarrow> False | Some cas \<Rightarrow> g \<in> set cas)"

text \<open>C24: The usage file of a group reads the time used by its tasks and those of the groups below.  After any sequence of
  charges it shows what it showed before plus the sum of the times that were charged, on the processors it adds up, to
  the group itself or to a group below it.\<close>

theorem usage_is_sum_of_charges:
  assumes "charges cs s = Some t" and "cpuacct_active s" and "distinct present"
  shows "cpuusage_read present g t =
    cpuusage_read present g s + (\<Sum>(ca, cpu, x)\<leftarrow>cs. if cpu \<in> set present \<and> is_above s g ca then x else 0)"
  using assms(1,2)
proof (induction cs arbitrary: s)
  case (Cons ch cs)
  obtain ca cpu x where ch: "ch = (ca, cpu, x)" by (cases ch)
  from Cons.prems(1) obtain u where u: "cpuacct_charge ca cpu x s = Some u" "charges cs u = Some t"
    by (auto simp: ch split: bind_splits)
  from charge_usage [OF u(1) Cons.prems(2), of g] obtain cas where c: "ca_chain ca s = Some cas" "cpuacct_active u"
      "\<forall>c. parent_ca c u = parent_ca c s"
      "cpuusage (ca_of u g) = (if g \<in> set cas then (cpuusage (ca_of s g))(cpu := cpuusage (ca_of s g) cpu + x) else cpuusage (ca_of s g))"
    by blast
  have "ca_chain c u = ca_chain c s" for c using c(3) by (simp add: ca_chain_def)
  then have ab: "is_above u g c = is_above s g c" for c by (simp add: is_above_def)
  have "cpuusage_read present g u = cpuusage_read present g s + (if cpu \<in> set present \<and> is_above s g ca then x else 0)"
    unfolding usage_sum c(4) using sum_list_fun_upd [OF assms(3), of "cpuusage (ca_of s g)" cpu x] c(1)
    by (simp add: is_above_def)
  then show ?case using Cons.IH [OF u(2) c(2)] ab by (simp add: ch add.assoc)
qed simp

definition sample_acct :: acct where
  "sample_acct = \<lparr>ca_of = (\<lambda>c. zero_ca (if c = 0 then None else Some (c - 1))), cpuacct_active = True\<rparr>"

text \<open>Groups 1 and 2 below the root, 2 below 1.\<close>

theorem usage_is_sum_of_charges_witness:
  "\<exists>t. charges [(2, 0, 70), (1, 1, 5), (0, 0, 900)] sample_acct = Some t \<and> cpuusage_read [0, 1] 1 t = 75"
proof -
  have p: "parent_ca c s = (if c = 0 then None else Some (c - 1))" if "\<forall>c. parent_ca c s = parent_ca c sample_acct" for c s
    using that by (simp add: parent_ca_def sample_acct_def zero_ca_def)
  have ch: "ca_chain 0 s = Some [0]" "ca_chain 1 s = Some [1, 0]" "ca_chain 2 s = Some [2, 1, 0]"
    if "\<forall>c. parent_ca c s = parent_ca c sample_acct" for s
    using p [OF that] by (simp_all add: ca_chain_def entity_chain_steps)
  have a: "cpuacct_active sample_acct" by (simp add: sample_acct_def)
  have step: "\<exists>t. cpuacct_charge c i x s = Some t \<and> cpuacct_active t \<and> (\<forall>c. parent_ca c t = parent_ca c sample_acct)"
    if "c \<in> {0, 1, 2}" "cpuacct_active s" "\<forall>c. parent_ca c s = parent_ca c sample_acct" for c i x s
  proof -
    have "\<exists>t. cpuacct_charge c i x s = Some t" using ch [OF that(3)] that(1,2) by (auto simp: cpuacct_charge_def)
    then show ?thesis using charge_usage [OF _ that(2)] that(3) by fastforce
  qed
  obtain t1 where t1: "cpuacct_charge 2 0 70 sample_acct = Some t1" "cpuacct_active t1" "\<forall>c. parent_ca c t1 = parent_ca c sample_acct"
    using step [of 2 sample_acct 0 70] a by auto
  obtain t2 where t2: "cpuacct_charge 1 1 5 t1 = Some t2" "cpuacct_active t2" "\<forall>c. parent_ca c t2 = parent_ca c sample_acct"
    using step [of 1 t1 1 5] t1 by auto
  obtain t where t: "cpuacct_charge 0 0 900 t2 = Some t" using step [of 0 t2 0 900] t2 by auto
  have cs: "charges [(2, 0, 70), (1, 1, 5), (0, 0, 900)] sample_acct = Some t" using t1(1) t2(1) t by simp
  have "cpuusage_read [0, 1] 1 sample_acct = 0" by (simp add: usage_sum sample_acct_def zero_ca_def)
  then have "cpuusage_read [0, 1] 1 t = 75"
    using usage_is_sum_of_charges [OF cs a, of "[0, 1]" 1] ch [of sample_acct] by (simp add: is_above_def)
  then show ?thesis using cs by blast
qed

end
