(* ===== verification/Sysctl_Vec_Props.thy ===== *)
theory Sysctl_Vec_Props
  imports Sysctl_Vec
begin

text \<open>
  Properties of the handlers for vectors: a vector that is printed and written back is the same
  vector, bounds are kept by every write, and how values in milliseconds are stored.
\<close>

section \<open>Printing\<close>

definition show_val :: "u32 \<Rightarrow> string" where
  "show_val v = (let (neg, n) = sign_and_value v in (if neg then ''-'' else []) @ show_nat (unat n))"

fun vec_text :: "bool \<Rightarrow> u32 list \<Rightarrow> string" where
  "vec_text first [] = []"
| "vec_text first (v # vs) = (if first then [] else [CHR 0x09]) @ show_val v @ vec_text False vs"

lemma copy_out_Inr: "copy_out U s ob = Inr ob1 \<Longrightarrow> ob1 = (fst ob @ s, snd ob - length s)"
  by (simp add: copy_out_def split: if_splits)

lemma put_errors [simp]:
  "copy_out U s ob \<noteq> Inl 0" "proc_put_long U n neg ob \<noteq> Inl 0" "proc_put_char U c ob \<noteq> Inl 0"
  by (simp_all add: copy_out_def proc_put_long_def proc_put_char_def Let_def errno_defs)

lemma put_long_room:
  assumes "proc_put_long U n neg ob = Inr ob1" and "snd ob1 \<noteq> 0"
  shows "ob1 = (let s = (if neg then ''-'' else []) @ show_nat (unat n) in (fst ob @ s, snd ob - length s))"
proof -
  define s where "s = (if neg then ''-'' else []) @ show_nat (unat n)"
  have "copy_out U (take (snd ob) s) ob = Inr ob1" using assms(1) by (simp only: proc_put_long_def Let_def s_def)
  from copy_out_Inr [OF this] have "ob1 = (fst ob @ take (snd ob) s, snd ob - length (take (snd ob) s))" .
  then show ?thesis using assms(2) unfolding s_def [symmetric] Let_def by (simp add: min_def split: if_splits)
qed

lemma put_long_left: "proc_put_long U n neg ob = Inr ob1 \<Longrightarrow> snd ob1 \<le> snd ob"
  by (auto simp: proc_put_long_def Let_def dest!: copy_out_Inr)

lemma put_char_room: "proc_put_char U c ob = Inr ob1 \<Longrightarrow> snd ob \<noteq> 0 \<Longrightarrow> ob1 = (fst ob @ [c], snd ob - 1)"
  by (auto simp: proc_put_char_def dest!: copy_out_Inr split: if_splits)

lemma put_char_left: "proc_put_char U c ob = Inr ob1 \<Longrightarrow> snd ob1 \<le> snd ob"
  by (auto simp: proc_put_char_def dest!: copy_out_Inr split: if_splits)

lemma dointvec_read_left: "dointvec_read U cv vs first ob = (0, ob1, f) \<Longrightarrow> snd ob1 \<le> snd ob"
proof (induction vs arbitrary: first ob)
  case (Cons v vs)
  then show ?case
    by (fastforce split: if_splits sum.splits prod.splits dest: put_long_left put_char_left)
qed simp

text \<open>When room is left at the end, the whole vector was printed.\<close>

lemma dointvec_read_text:
  assumes "dointvec_read U cv vs first ob = (0, ob1, f)" and "snd ob1 \<noteq> 0" and "cv_read cv = sign_and_value"
  shows "ob1 = (fst ob @ vec_text first vs, snd ob - length (vec_text first vs)) \<and> f = (first \<and> vs = [])"
  using assms(1)
proof (induction vs arbitrary: first ob)
  case (Cons v vs)
  obtain neg n where nn: "sign_and_value v = (neg, n)" by (cases "sign_and_value v")
  have left: "snd ob \<noteq> 0" using Cons.prems dointvec_read_left [OF Cons.prems] assms(2) by auto
  then obtain oa ob2 where o: "(if first then Inr ob else proc_put_char U (CHR 0x09) ob) = Inr oa"
      "proc_put_long U n neg oa = Inr ob2" "dointvec_read U cv vs False ob2 = (0, ob1, f)"
    using Cons.prems assms(3) nn by (auto split: if_splits sum.splits)
  have "snd ob2 \<noteq> 0" using dointvec_read_left [OF o(3)] assms(2) by auto
  from put_long_room [OF o(2) this] nn have "ob2 = (fst oa @ show_val v, snd oa - length (show_val v))"
    by (simp add: show_val_def Let_def)
  moreover have "oa = (fst ob @ (if first then [] else [CHR 0x09]), snd ob - (if first then 0 else 1))"
    using o(1) left by (auto dest: put_char_room split: if_splits)
  ultimately show ?case using Cons.IH [OF o(3)] by auto
qed simp

lemma finish_read_text:
  assumes "finish_read U (dointvec_read U cv vs True ([], lenp)) = (0, ob)" and "snd ob \<noteq> 0"
    and "cv_read cv = sign_and_value" and "vs \<noteq> []"
  shows "fst ob = vec_text True vs @ [CHR 0x0A] \<and> length (fst ob) + snd ob = lenp"
proof -
  obtain err oa f where r: "dointvec_read U cv vs True ([], lenp) = (err, oa, f)" by (metis surj_pair)
  then have fin: "finish_read U (err, oa, f) = (0, ob)" using assms(1) by simp
  then have "err = 0" "snd oa \<noteq> 0"
    using assms(2) by (auto simp: finish_read_def split: if_splits sum.splits dest: put_char_left)
  with dointvec_read_text [of U cv vs True "([], lenp)" oa f] r assms(3,4)
  have oa: "oa = (vec_text True vs, lenp - length (vec_text True vs))" "\<not> f" by auto
  then have "proc_put_char U (CHR 0x0A) oa = Inr ob"
    using fin \<open>err = 0\<close> \<open>snd oa \<noteq> 0\<close> by (auto simp: finish_read_def split: sum.splits)
  from put_char_room [OF this \<open>snd oa \<noteq> 0\<close>] oa(1) \<open>snd oa \<noteq> 0\<close> show ?thesis by auto
qed

section \<open>Reading back\<close>

definition INT_MIN_32 :: u32 where "INT_MIN_32 = 0x80000000"

text \<open>The sign and the absolute value of an \<open>int\<close> other than the smallest.\<close>

lemma sign_and_value_abs:
  assumes "v \<noteq> INT_MIN_32"
  shows "sign_and_value v = (sint v < 0, of_nat (nat \<bar>sint v\<bar>))" "nat \<bar>sint v\<bar> < 2 ^ 31"
proof -
  have r: "- (2 ^ 31) \<le> sint v" "sint v < 2 ^ 31" using sint_greater_eq [of v] sint_less [of v] by simp_all
  have "sint v \<noteq> - (2 ^ 31)"
  proof
    assume "sint v = - (2 ^ 31)"
    moreover have "v = word_of_int (sint v)" by simp
    ultimately have "v = word_of_int (- (2 ^ 31))" by simp
    then show False using assms by (simp add: INT_MIN_32_def)
  qed
  then have "sint (- v) = - sint v"
    using r by (simp add: sint_word_ariths signed_take_bit_int_eq_self_iff)
  then have "of_int \<bar>sint v\<bar> = (of_int (if sint v < 0 then sint (- v) else sint v) :: u64)" by simp
  also have "\<dots> = (if sint v < 0 then scast (- v) else scast v)" by (simp only: of_int_sint split: if_split) simp
  finally show "sign_and_value v = (sint v < 0, of_nat (nat \<bar>sint v\<bar>))"
    by (simp add: sign_and_value_def)
  show "nat \<bar>sint v\<bar> < 2 ^ 31" using r \<open>sint v \<noteq> - (2 ^ 31)\<close> by auto
qed

lemma signed_value_back: "ucast (signed_value (sint v < 0) (of_nat (nat \<bar>sint v\<bar>))) = (v :: u32)"
proof -
  have "of_nat (nat \<bar>sint v\<bar>) = (of_int \<bar>sint v\<bar> :: u64)" by simp
  then have "signed_value (sint v < 0) (of_nat (nat \<bar>sint v\<bar>)) = of_int (sint v)"
    by (simp add: signed_value_def abs_if del: of_int_sint)
  then have "ucast (signed_value (sint v < 0) (of_nat (nat \<bar>sint v\<bar>))) = (ucast (scast v :: u64) :: u32)"
    by (simp only: of_int_sint)
  also have "\<dots> = v" by (rule bit_word_eqI) (simp add: bit_simps)
  finally show ?thesis .
qed

lemma show_val_abs:
  "v \<noteq> INT_MIN_32 \<Longrightarrow> show_val v = (if sint v < 0 then ''-'' else []) @ show_nat (nat \<bar>sint v\<bar>)"
proof -
  assume v: "v \<noteq> INT_MIN_32"
  define n where "n = nat \<bar>sint v\<bar>"
  have "unat (of_nat n :: u64) = n"
    using sign_and_value_abs(2) [OF v] by (simp add: n_def [symmetric] unsigned_of_nat take_bit_nat_eq_self_iff)
  moreover have "sign_and_value v = (sint v < 0, of_nat n)" unfolding n_def by (rule sign_and_value_abs(1) [OF v])
  ultimately show ?thesis unfolding n_def [symmetric] by (simp add: show_val_def)
qed

lemma hd_show_val: "show_val v \<noteq> []" "isdigit (hd (show_val v)) \<or> hd (show_val v) = CHR ''-''"
  using hd_show_nat [of "unat (snd (sign_and_value v))"] by (auto simp: show_val_def case_prod_beta)

lemma hd_vec_text: "hd (vec_text False vs @ [CHR 0x0A]) \<in> set proc_wspace_sep"
  by (cases vs) (auto simp: proc_wspace_sep_def)

context klib_ok
begin

lemma dointvec_write_text:
  assumes "length ws = length vs" and "vs \<noteq> []" and "\<forall>v\<in>set vs. v \<noteq> INT_MIN_32"
  shows "dointvec_write L do_proc_dointvec_conv (vec_text first vs @ [CHR 0x0A]) ws first = (0, [CHR 0x0A], vs, False)"
  using assms
proof (induction vs arbitrary: ws first)
  case (Cons v vs)
  obtain w ws' where ws: "ws = w # ws'" "length ws' = length vs" using Cons.prems(1) by (cases ws) auto
  let ?rest = "vec_text False vs @ [CHR 0x0A]" let ?n = "nat \<bar>sint v\<bar>"
  have v: "v \<noteq> INT_MIN_32" using Cons.prems by simp
  have "proc_skip_spaces L ((if first then [] else [CHR 0x09]) @ show_val v @ ?rest) = show_val v @ ?rest"
    using hd_show_val [of v] by (intro skip_spaces_wspace) (auto simp: wspace_def)
  moreover have "?n < 10 ^ Suc 9" "?n < 2 ^ 64" using sign_and_value_abs(2) [OF v] by simp_all
  then have "proc_get_long L proc_wspace_sep (show_val v @ ?rest) None = Inr (of_nat ?n, sint v < 0, Some (hd ?rest), ?rest)"
    unfolding show_val_abs [OF v] append_assoc using length_show_nat [of ?n 9] hd_vec_text [of vs]
    by (subst get_long_show) (auto simp: separators_def wspace_def proc_wspace_sep_def)
  moreover have "dointvec_write L do_proc_dointvec_conv ?rest ws' False = (0, [CHR 0x0A], vs, False)"
  proof (cases "vs = []")
    case False
    then show ?thesis using Cons.IH ws(2) Cons.prems(3) by simp
  qed (use ws in simp)
  ultimately show ?case
    using ws hd_show_val(1) [of v] signed_value_back [of v] by (simp add: do_proc_dointvec_conv_def)
qed simp

end

section \<open>Bounds\<close>

lemma dointvec_write_bounds:
  assumes "\<And>neg lval v. cv_write cv neg lval = Some v \<Longrightarrow> P v"
  shows "list_all2 (\<lambda>v w. w = v \<or> P w) vs (fst (snd (snd (dointvec_write L cv kbuf vs first))))"
proof (induction vs arbitrary: kbuf first)
  case (Cons v vs)
  then show ?case
    by (auto simp: Let_def case_prod_beta list_all2_refl assms split: sum.splits option.splits)
qed simp

section \<open>Properties\<close>


definition sample_user :: "string \<Rightarrow> user" where
  "sample_user s = \<lparr>u_text = s, u_writable = 100, u_page = True, u_kzalloc = True\<rparr>"

lemma sample_user_fields [simp]: "u_text (sample_user s) = s" "u_writable (sample_user s) = 100" "u_page (sample_user s)"
    "u_kzalloc (sample_user s)"
  by (simp_all add: sample_user_def)


lemma proc_dointvec_minmax_vec:
  "list_all2 (\<lambda>v w. w = v \<or> (\<forall>m\<in>set_option mn. sint m \<le> sint w) \<and> (\<forall>m\<in>set_option mx. sint w \<le> sint m))
     vs (io_vec (proc_dointvec_minmax L U mn mx (Some vs) write lenp ppos))"
proof -
  let ?cv = "do_proc_dointvec_minmax_conv mn mx"
  have refl: "list_all2 (\<lambda>v w. w = v \<or> Q w) vs vs" for Q :: "u32 \<Rightarrow> bool" by (simp add: list_all2_refl)
  have cw: "(\<forall>m\<in>set_option mn. sint m \<le> sint v) \<and> (\<forall>m\<in>set_option mx. sint v \<le> sint m)"
    if "cv_write ?cv neg lval = Some v" for neg lval v
    using that by (auto simp: do_proc_dointvec_minmax_conv_def Let_def not_less split: if_splits)
  show ?thesis
    using dointvec_write_bounds [OF cw]
    by (auto simp: proc_dointvec_minmax_def do_proc_dointvec_def raw_do_proc_dointvec_def finish_write_def refl
        Let_def case_prod_beta split: sum.splits)
qed

text \<open>C26: Bounds.  Whatever is written to an entry of \<open>proc_dointvec_minmax\<close>, and whether or not the call
  fails half way, every element afterwards is the old one or lies between the bounds.\<close>

theorem proc_dointvec_minmax_bounds:
  "list_all2 (\<lambda>v w. w = v \<or> (\<forall>m\<in>set_option mn. sint m \<le> sint w) \<and> (\<forall>m\<in>set_option mx. sint w \<le> sint m))
     vs (io_vec (proc_dointvec_minmax L U mn mx (Some vs) write lenp ppos))"
  by (rule proc_dointvec_minmax_vec)

theorem proc_dointvec_minmax_bounds_witness:
  "\<exists>w. io_vec (proc_dointvec_minmax sample_klib (sample_user ''77'') (Some 3) (Some 9) (Some [5]) True 2 0) = [w]
     \<and> (w = 5 \<or> 3 \<le> sint w \<and> sint w \<le> 9)"
  using proc_dointvec_minmax_bounds [of "Some 3" "Some 9" "[5]" sample_klib "sample_user ''77''" True 2 0]
  by (auto simp: list_all2_Cons1)

text \<open>Milliseconds.  \<open>proc_doulongvec_ms_jiffies_minmax\<close> stores what is written as it is, although it
  prints a stored value as jiffies: a number of milliseconds that is written reads back ten times as
  large.\<close>

theorem ms_jiffies_written_unconverted:
  assumes "klib_ok L" and "n * 1000 < 2 ^ 64" and "u_text U = show_nat n @ [CHR 0x0A]" and "u_page U"
    and "lenp = length (u_text U)" and "length (show_nat (10 * n)) < room" and "room \<le> u_writable U"
  shows "io_vec (proc_doulongvec_ms_jiffies_minmax L U None None (Some [v]) True lenp 0) = [of_nat n]
     \<and> io_out (proc_doulongvec_ms_jiffies_minmax L U None None (Some [of_nat n]) False room 0)
         = show_nat (10 * n) @ [CHR 0x0A]"
proof -
  have n: "n < 2 ^ 64" using assms(2) by auto
  have "proc_skip_spaces L (u_text U) = u_text U"
    using klib_ok.skip_spaces_wspace [OF assms(1), of "[]" "u_text U"] hd_show_nat [of n] assms(3) by auto
  moreover have "proc_get_long L proc_wspace_sep (show_nat n @ [CHR 0x0A]) None =
      Inr (of_nat n, False, Some (CHR 0x0A), [CHR 0x0A])"
    using klib_ok.get_long_show [OF assms(1) n, of False "[CHR 0x0A]" proc_wspace_sep None] length_show_nat_64 [OF n]
    by (simp add: proc_wspace_sep_def separators_def wspace_def)
  moreover have "length (show_nat n) \<le> 20" using length_show_nat_64 [OF n] .
  then have "kbuf_of U lenp = Inr (u_text U)" using assms(3-5) by (simp add: kbuf_of_def PAGE_SIZE_def)
  moreover have "lenp \<noteq> 0" using assms(3,5) by simp
  ultimately have w: "io_vec (proc_doulongvec_ms_jiffies_minmax L U None None (Some [v]) True lenp 0) = [of_nat n]"
    using assms(3) by (simp add: proc_doulongvec_ms_jiffies_minmax_def do_proc_doulongvec_minmax_def
        raw_do_proc_doulongvec_minmax_def finish_write_def Let_def)
  have "unat (1000 * of_nat n :: u64) = n * 1000"
    using assms(2) unsigned_of_nat [of "n * 1000", where ?'a = nat and ?'b = 64]
    by (simp add: take_bit_nat_eq_self_iff mult.commute)
  then have "unat (1000 * of_nat n div HZ_64) = 10 * n" by (simp add: HZ_64_def unat_div)
  then have "io_out (proc_doulongvec_ms_jiffies_minmax L U None None (Some [of_nat n]) False room 0)
      = show_nat (10 * n) @ [CHR 0x0A]"
    using assms(6,7) by (simp add: proc_doulongvec_ms_jiffies_minmax_def do_proc_doulongvec_minmax_def
        raw_do_proc_doulongvec_minmax_def proc_put_long_def proc_put_char_def copy_out_def finish_read_def Let_def)
  with w show ?thesis ..
qed

theorem ms_jiffies_written_unconverted_witness:
  "io_vec (proc_doulongvec_ms_jiffies_minmax sample_klib (sample_user [CHR ''5'', CHR 0x0A]) None None (Some [7]) True 2 0) = [5]
     \<and> io_out (proc_doulongvec_ms_jiffies_minmax sample_klib (sample_user [CHR ''5'', CHR 0x0A]) None None (Some [5]) False 9 0)
         = [CHR ''5'', CHR ''0'', CHR 0x0A]"
proof -
  have s: "show_nat 5 = ''5''" "show_nat 50 = ''50''"
    by code_simp+
  have "(5 :: nat) * 1000 < 2 ^ 64" by simp
  from ms_jiffies_written_unconverted [OF sample_lib.klib_ok_axioms this, of "sample_user [CHR ''5'', CHR 0x0A]" 2 9 7]
  show ?thesis by (simp add: s)
qed

end
