(* ===== verification/Sysctl_Bitmap.thy ===== *)
theory Sysctl_Bitmap
  imports Sysctl_Vec_Props
begin

text \<open>
  \<open>proc_do_large_bitmap\<close> of \<open>kernel/sysctl.c\<close>: bitmaps as lists of numbers and ranges.  The bitmap
  operations are not in the repository; they are the record \<open>bitmap_ops\<close> and what the handler relies on
  is the locale \<open>bitmap\<close>, with the set of the bits that are set as the view of a bitmap.
\<close>

section \<open>Bitmaps\<close>

record 'b bitmap_ops =
  b_zero :: "nat \<Rightarrow> 'b"
  b_find_next_bit :: "'b \<Rightarrow> nat \<Rightarrow> nat \<Rightarrow> nat"
  b_find_next_zero_bit :: "'b \<Rightarrow> nat \<Rightarrow> nat \<Rightarrow> nat"
  b_set :: "nat \<Rightarrow> nat \<Rightarrow> 'b \<Rightarrow> 'b"
  b_or :: "'b \<Rightarrow> 'b \<Rightarrow> nat \<Rightarrow> 'b"
  b_copy :: "'b \<Rightarrow> 'b \<Rightarrow> nat \<Rightarrow> 'b"

text \<open>The first place in \<open>[off..<len]\<close> with a property, or \<open>len\<close>.\<close>

definition first_place :: "(nat \<Rightarrow> bool) \<Rightarrow> nat \<Rightarrow> nat \<Rightarrow> nat" where
  "first_place P len off = (case find P [off..<len] of Some i \<Rightarrow> i | None \<Rightarrow> len)"

locale bitmap =
  fixes B :: "'b bitmap_ops" and bits :: "'b \<Rightarrow> nat set"
  assumes zero: "bits (b_zero B n) = {}"
    and next_bit: "b_find_next_bit B b len off = first_place (\<lambda>i. i \<in> bits b) len off"
    and next_zero: "b_find_next_zero_bit B b len off = first_place (\<lambda>i. i \<notin> bits b) len off"
    and set: "bits (b_set B a n b) = bits b \<union> {a..<a + n}"
    and or: "bits (b_or B b c len) \<inter> {..<len} = (bits b \<union> bits c) \<inter> {..<len}"
    and copy: "bits (b_copy B b c len) \<inter> {..<len} = bits c \<inter> {..<len}"

definition set_bitmap :: "nat set bitmap_ops" where
  "set_bitmap = \<lparr>b_zero = (\<lambda>n. {}), b_find_next_bit = (\<lambda>b. first_place (\<lambda>i. i \<in> b)),
     b_find_next_zero_bit = (\<lambda>b. first_place (\<lambda>i. i \<notin> b)), b_set = (\<lambda>a n b. b \<union> {a..<a + n}),
     b_or = (\<lambda>b c len. b \<union> c), b_copy = (\<lambda>b c len. c)\<rparr>"

interpretation set_store: bitmap set_bitmap "\<lambda>b. b"
  by unfold_locales (simp_all add: set_bitmap_def)

section \<open>Writing\<close>

text \<open>
  One number or range, with the comma or newline after it.  \<open>c\<close> is \<open>None\<close> while the variable has no
  value; the outer result is \<open>None\<close> where the code reads it then.
\<close>

definition tr_a :: string where "tr_a = [CHR ''-'', CHR '','', CHR 0x0A]"
definition tr_b :: string where "tr_b = [CHR '','', CHR 0x0A, NUL]"

definition bitmap_item :: "klib \<Rightarrow> nat \<Rightarrow> string \<Rightarrow> char option \<Rightarrow> (int + (nat \<times> nat \<times> char option \<times> string)) option" where
  "bitmap_item L bitmap_len kbuf c =
     (case proc_get_long L tr_a kbuf c of
        Inl e \<Rightarrow> Some (Inl e)
      | Inr (val_a, neg, c1, k1) \<Rightarrow>
          if unat val_a \<ge> bitmap_len \<or> neg then Some (Inl (- EINVAL))
          else
            let k2 = tl k1 in
            (case c1 of
               None \<Rightarrow> None
             | Some ch \<Rightarrow>
                 if ch = CHR ''-'' then
                   (case proc_get_long L tr_b k2 c1 of
                      Inl e \<Rightarrow> Some (Inl e)
                    | Inr (val_b, neg_b, c2, k3) \<Rightarrow>
                        if unat val_b \<ge> bitmap_len \<or> neg_b \<or> val_a > val_b then Some (Inl (- EINVAL))
                        else Some (Inr (unat val_a, unat val_b, c2, tl k3)))
                 else Some (Inr (unat val_a, unat val_a, c1, k2))))"

lemma proc_get_long_rest: "proc_get_long L perm buf tr = Inr (v, neg, t, r) \<Longrightarrow> buf \<noteq> [] \<and> (\<exists>n. r = drop n buf)"
  by (auto simp: proc_get_long_def Let_def case_prod_beta split: if_splits)

lemma bitmap_item_shorter:
  assumes "bitmap_item L len kbuf c = Some (Inr (a, b, c', r))"
  shows "length r < length kbuf"
proof -
  obtain va neg c1 k1 where 1: "proc_get_long L tr_a kbuf c = Inr (va, neg, c1, k1)"
    using assms by (auto simp: bitmap_item_def split: sum.splits)
  then have k: "kbuf \<noteq> []" "length (tl k1) < length kbuf" using proc_get_long_rest [OF 1] by (auto simp: neq_Nil_conv)
  have "length (tl r') \<le> length (tl k1)" if "proc_get_long L tr_b (tl k1) c1 = Inr (vb, nb, c2, r')" for vb nb c2 r'
    using proc_get_long_rest [OF that] by auto
  then show ?thesis
    using assms 1 k by (auto simp: bitmap_item_def Let_def split: if_splits option.splits sum.splits)
qed

lemma length_skip_char: "length (proc_skip_char v buf) \<le> length buf"
  by (induction v buf rule: proc_skip_char.induct) auto

function bitmap_write :: "klib \<Rightarrow> 'b bitmap_ops \<Rightarrow> nat \<Rightarrow> string \<Rightarrow> char option \<Rightarrow> 'b \<Rightarrow> (int + 'b) option" where
  "bitmap_write L B bitmap_len kbuf c tmp =
     (if kbuf = [] then Some (Inr tmp)
      else case bitmap_item L bitmap_len kbuf c of
        None \<Rightarrow> None
      | Some (Inl e) \<Rightarrow> Some (Inl e)
      | Some (Inr (a, b, c1, rest)) \<Rightarrow>
          bitmap_write L B bitmap_len (proc_skip_char (CHR 0x0A) rest) c1 (b_set B a (b - a + 1) tmp))"
  by pat_completeness auto
termination
  by (relation "measure (\<lambda>(L, B, len, kbuf, c, tmp). length kbuf)")
    (auto dest!: bitmap_item_shorter intro: le_less_trans [OF length_skip_char])

declare bitmap_write.simps [simp del]

section \<open>Reading\<close>

definition put_item :: "user \<Rightarrow> bool \<Rightarrow> nat \<Rightarrow> nat \<Rightarrow> obuf \<Rightarrow> int + obuf" where
  "put_item U first a b ob =
     (case (if first then Inr ob else proc_put_char U (CHR '','') ob) of
        Inl e \<Rightarrow> Inl e
      | Inr ob1 \<Rightarrow>
          (case proc_put_long U (of_nat a) False ob1 of
             Inl e \<Rightarrow> Inl e
           | Inr ob2 \<Rightarrow>
               if a \<noteq> b then
                 (case proc_put_char U (CHR ''-'') ob2 of
                    Inl e \<Rightarrow> Inl e
                  | Inr ob3 \<Rightarrow> proc_put_long U (of_nat b) False ob3)
               else Inr ob2))"

lemma put_long_less: "proc_put_long U n False ob = Inr ob1 \<Longrightarrow> snd ob \<noteq> 0 \<Longrightarrow> snd ob1 < snd ob"
  using show_nat_not_Nil [of "unat n"]
  by (cases "show_nat (unat n)") (auto simp: proc_put_long_def dest!: copy_out_Inr)

lemma put_item_less:
  assumes "put_item U first a b ob = Inr ob1" and "snd ob \<noteq> 0"
  shows "snd ob1 < snd ob"
proof -
  obtain oa ob2 where o: "(if first then Inr ob else proc_put_char U (CHR '','') ob) = Inr oa"
      "proc_put_long U (of_nat a) False oa = Inr ob2"
      "ob1 = ob2 \<or> (\<exists>o3. proc_put_char U (CHR ''-'') ob2 = Inr o3 \<and> proc_put_long U (of_nat b) False o3 = Inr ob1)"
    using assms(1) unfolding put_item_def by (auto split: sum.splits if_splits)
  have le: "snd ob1 \<le> snd ob2" using o(3) put_char_left put_long_left by (metis order_refl order_trans)
  show ?thesis
  proof (cases first)
    case True
    then show ?thesis using o le put_long_less [OF o(2)] assms(2) by auto
  next
    case False
    then have "snd oa < snd ob" using o(1) put_char_room assms(2) by fastforce
    then show ?thesis using le put_long_left [OF o(2)] by simp
  qed
qed

text \<open>\<open>bit_b\<close> is where the search goes on.\<close>

function bitmap_read :: "user \<Rightarrow> 'b bitmap_ops \<Rightarrow> 'b \<Rightarrow> nat \<Rightarrow> nat \<Rightarrow> bool \<Rightarrow> obuf \<Rightarrow> int \<times> obuf" where
  "bitmap_read U B bm bitmap_len bit_b first ob =
     (if snd ob = 0 then (0, ob)
      else
        let a = b_find_next_bit B bm bitmap_len bit_b in
        if a \<ge> bitmap_len then (0, ob)
        else
          let b = b_find_next_zero_bit B bm bitmap_len (a + 1) - 1
          in case put_item U first a b ob of
               Inl e \<Rightarrow> (e, ob)
             | Inr ob1 \<Rightarrow> bitmap_read U B bm bitmap_len (b + 1) False ob1)"
  by pat_completeness auto
termination
  by (relation "measure (\<lambda>(U, B, bm, len, b, first, ob). snd ob)") (auto dest: put_item_less)

declare bitmap_read.simps [simp del]

section \<open>The handler\<close>

record 'b bitmap_io =
  bio_ret :: int
  bio_map :: 'b
  bio_out :: string
  bio_len :: nat
  bio_pos :: nat

definition proc_do_large_bitmap ::
  "klib \<Rightarrow> user \<Rightarrow> 'b bitmap_ops \<Rightarrow> nat \<Rightarrow> 'b \<Rightarrow> bool \<Rightarrow> nat \<Rightarrow> nat \<Rightarrow> 'b bitmap_io option" where
  "proc_do_large_bitmap L U B bitmap_len bm write lenp ppos =
     (let done = (\<lambda>r m out len pos. \<lparr>bio_ret = r, bio_map = m, bio_out = out, bio_len = len, bio_pos = pos\<rparr>) in
      if bitmap_len = 0 \<or> lenp = 0 \<or> (ppos \<noteq> 0 \<and> \<not> write) then Some (done 0 bm [] 0 ppos)
      else if write then
        (case kbuf_of U lenp of
           Inl e \<Rightarrow> Some (done e bm [] lenp ppos)
         | Inr kbuf \<Rightarrow>
             if \<not> u_kzalloc U then Some (done (- ENOMEM) bm [] lenp ppos)
             else case bitmap_write L B bitmap_len (proc_skip_char (CHR 0x0A) kbuf) None (b_zero B bitmap_len) of
               None \<Rightarrow> None
             | Some (Inl e) \<Rightarrow> Some (done e bm [] lenp ppos)
             | Some (Inr tmp) \<Rightarrow>
                 Some (done 0 (if ppos \<noteq> 0 then b_or B bm tmp bitmap_len else b_copy B bm tmp bitmap_len)
                   [] lenp (ppos + lenp)))
      else
        let (err, ob) = bitmap_read U B bm bitmap_len 0 True ([], lenp) in
        if err \<noteq> 0 then Some (done err bm (fst ob) lenp ppos)
        else case proc_put_char U (CHR 0x0A) ob of
          Inl e \<Rightarrow> Some (done e bm (fst ob) lenp ppos)
        | Inr ob1 \<Rightarrow> Some (done 0 bm (fst ob1) (lenp - snd ob1) (ppos + (lenp - snd ob1))))"

end
