(* ===== verification/Sysctl_Bitmap_Props.thy ===== *)
theory Sysctl_Bitmap_Props
  imports Sysctl_Bitmap
begin

text \<open>
  Properties of \<open>proc_do_large_bitmap\<close>: what is printed reads back as the same set of bits, a refused
  text leaves the bitmap alone, and a number without a character after it makes the code read a
  variable that has no value.
\<close>

section \<open>The text of a bitmap\<close>

fun items_text :: "bool \<Rightarrow> (nat \<times> nat) list \<Rightarrow> string" where
  "items_text first [] = []"
| "items_text first ((a, b) # xs) =
     (if first then [] else '','') @ show_nat a @ (if a \<noteq> b then CHR ''-'' # show_nat b else []) @ items_text False xs"

definition items_bits :: "(nat \<times> nat) list \<Rightarrow> nat set" where
  "items_bits xs = (\<Union>(a, b)\<in>set xs. {a..b})"

definition items_ok :: "nat \<Rightarrow> (nat \<times> nat) list \<Rightarrow> bool" where
  "items_ok len xs \<longleftrightarrow> (\<forall>(a, b)\<in>set xs. a \<le> b \<and> b < len)"

lemma items_bits_simps [simp]: "items_bits [] = {}" "items_bits ((a, b) # xs) = {a..b} \<union> items_bits xs"
  by (auto simp: items_bits_def)

lemma items_ok_simps [simp]: "items_ok len []" "items_ok len ((a, b) # xs) \<longleftrightarrow> a \<le> b \<and> b < len \<and> items_ok len xs"
  by (auto simp: items_ok_def)

section \<open>Reading back\<close>

lemma items_text_hd: "hd (items_text False xs @ [CHR 0x0A]) \<in> {CHR '','', CHR 0x0A}"
  by (cases xs) auto

lemma tl_items_text: "tl (items_text False xs @ [CHR 0x0A]) = (if xs = [] then [] else items_text True xs @ [CHR 0x0A])"
  by (cases xs) auto

lemma skip_char_items: "proc_skip_char (CHR 0x0A) (items_text True xs @ [CHR 0x0A]) = (if xs = [] then [] else items_text True xs @ [CHR 0x0A])"
proof (cases xs)
  case (Cons x ys)
  obtain a b where x: "x = (a, b)" by fastforce
  obtain c s where c: "show_nat a = c # s" by (cases "show_nat a") auto
  then obtain d where "d < 10" "c = digit d" using hd_show_nat [of a] by auto
  then have "c \<noteq> CHR 0x0A" using isdigit_digit [of d] by (auto simp: isdigit_def)
  then show ?thesis using Cons x c by simp
qed simp

context klib_ok
begin

lemma get_long_number:
  assumes "n < 2 ^ 31" and "r \<noteq> []" and "hd r \<in> set perm" "hd r \<in> separators"
  shows "proc_get_long L perm (show_nat n @ r) c = Inr (of_nat n, False, Some (hd r), r)"
  using get_long_show [of n False r perm c] length_show_nat [of n 9] assms by simp

lemma bitmap_item_text:
  assumes "a \<le> b" "b < len" "len < 2 ^ 31"
  shows "bitmap_item L len (items_text True ((a, b) # xs) @ [CHR 0x0A]) c =
     Some (Inr (a, b, Some (hd (items_text False xs @ [CHR 0x0A])), tl (items_text False xs @ [CHR 0x0A])))"
proof -
  let ?r = "items_text False xs @ [CHR 0x0A]"
  have r: "?r \<noteq> []" "hd ?r \<in> set tr_a" "hd ?r \<in> set tr_b" "hd ?r \<in> separators" "hd ?r \<noteq> CHR ''-''"
    using items_text_hd [of xs] by (auto simp: tr_a_def tr_b_def separators_def wspace_def)
  have u: "unat (of_nat a :: u64) = a" "unat (of_nat b :: u64) = b"
    using assms by (simp_all add: unsigned_of_nat take_bit_nat_eq_self_iff)
  show ?thesis
  proof (cases "a = b")
    case True
    then have "proc_get_long L tr_a (show_nat a @ ?r) c = Inr (of_nat a, False, Some (hd ?r), ?r)"
      using assms r by (intro get_long_number) auto
    then show ?thesis using True assms u r(5) by (simp add: bitmap_item_def Let_def del: hd_append2 tl_append2)
  next
    case False
    have "proc_get_long L tr_a (show_nat a @ CHR ''-'' # show_nat b @ ?r) c =
        Inr (of_nat a, False, Some (CHR ''-''), CHR ''-'' # show_nat b @ ?r)"
      using assms get_long_number [of a "CHR ''-'' # show_nat b @ ?r" tr_a c] by (simp add: tr_a_def separators_def)
    moreover have "proc_get_long L tr_b (show_nat b @ ?r) (Some (CHR ''-'')) = Inr (of_nat b, False, Some (hd ?r), ?r)"
      using assms r by (intro get_long_number) auto
    moreover have "\<not> (of_nat a > (of_nat b :: u64))" using assms(1) u by (simp add: word_less_nat_alt)
    ultimately show ?thesis using False assms u by (simp add: bitmap_item_def Let_def del: hd_append2 tl_append2)
  qed
qed

end

lemma bitmap_write_text:
  assumes "klib_ok L" and "bitmap B bits" and "items_ok len xs" and "len < 2 ^ 31" and "xs \<noteq> []"
  shows "\<exists>tmp'. bitmap_write L B len (items_text True xs @ [CHR 0x0A]) c tmp = Some (Inr tmp')
     \<and> bits tmp' = bits tmp \<union> items_bits xs"
  using assms(3,5)
proof (induction xs arbitrary: c tmp)
  case (Cons x xs)
  obtain a b where x: "x = (a, b)" by fastforce
  let ?k = "items_text True (x # xs) @ [CHR 0x0A]"
  let ?tmp = "b_set B a (b - a + 1) tmp"
  have "a \<le> b" "b < len" "items_ok len xs" using Cons.prems x by auto
  then have item: "bitmap_item L len ?k c = Some (Inr (a, b, Some (hd (items_text False xs @ [CHR 0x0A])),
      if xs = [] then [] else items_text True xs @ [CHR 0x0A]))"
    using klib_ok.bitmap_item_text [OF assms(1), of a b len xs c] assms(4) x by (simp add: tl_items_text del: items_text.simps)
  have bits: "bits ?tmp = bits tmp \<union> {a..b}"
    using \<open>a \<le> b\<close> bitmap.set [OF assms(2)] by (simp add: atLeastLessThanSuc_atLeastAtMost)
  have ne: "?k \<noteq> []" using x by simp
  let ?c = "Some (hd (items_text False xs @ [CHR 0x0A]))"
  let ?rest = "if xs = [] then [] else items_text True xs @ [CHR 0x0A]"
  have step: "bitmap_write L B len ?k c tmp = bitmap_write L B len (proc_skip_char (CHR 0x0A) ?rest) ?c ?tmp"
    using ne item by (subst bitmap_write.simps) simp
  show ?case
  proof (cases "xs = []")
    case True
    then show ?thesis using step bits x by (simp add: bitmap_write.simps)
  next
    case False
    then have "proc_skip_char (CHR 0x0A) ?rest = items_text True xs @ [CHR 0x0A]" by (simp add: skip_char_items)
    then show ?thesis
      using step Cons.IH [OF \<open>items_ok len xs\<close> False, of ?c ?tmp] bits x by auto
  qed
qed simp

section \<open>Printing\<close>

lemma first_place_hit:
  assumes "first_place P len off < len"
  shows "off \<le> first_place P len off \<and> P (first_place P len off) \<and> (\<forall>i. off \<le> i \<and> i < first_place P len off \<longrightarrow> \<not> P i)"
proof (cases "find P [off..<len]")
  case (Some i)
  then obtain k where k: "k < length [off..<len]" "P ([off..<len] ! k)" "i = [off..<len] ! k"
      "\<forall>j<k. \<not> P ([off..<len] ! j)" unfolding find_Some_iff by blast
  have "\<not> P j" if "off \<le> j" "j < i" for j
  proof -
    have "j - off < k" using that k by simp
    from k(4) [rule_format, OF this] show ?thesis using that k by simp
  qed
  then show ?thesis using Some k by (simp add: first_place_def)
qed (use assms in \<open>simp add: first_place_def\<close>)

lemma first_place_miss: "len \<le> first_place P len off \<Longrightarrow> off \<le> i \<Longrightarrow> i < len \<Longrightarrow> \<not> P i"
  by (auto simp: first_place_def find_None_iff find_Some_iff split: option.splits)

lemma first_place_le: "first_place P len off \<le> len"
  by (auto simp: first_place_def find_Some_iff split: option.splits)

text \<open>A run of set bits, and what is left behind it.\<close>

lemma run_split:
  assumes a: "a = first_place (\<lambda>i. i \<in> S) len off" "a < len" and z: "z = first_place (\<lambda>i. i \<notin> S) len (a + 1)"
  shows "a < z" "z \<le> len" "S \<inter> {off..<len} = {a..z - 1} \<union> S \<inter> {z..<len}"
proof -
  have A: "off \<le> a" "a \<in> S" "\<And>i. off \<le> i \<Longrightarrow> i < a \<Longrightarrow> i \<notin> S"
    using first_place_hit [of "\<lambda>i. i \<in> S" len off, folded a(1), OF a(2)] by blast+
  show "z \<le> len" using first_place_le z by simp
  have in_run: "i \<in> S" if "a < i" "i < z" for i
  proof (cases "z < len")
    case True
    then show ?thesis using first_place_hit [of "\<lambda>i. i \<notin> S" len "a + 1"] z that by auto
  next
    case False
    then show ?thesis using first_place_miss [of len "\<lambda>i. i \<notin> S" "a + 1" i] z that \<open>z \<le> len\<close> by auto
  qed
  show "a < z"
  proof (cases "z < len")
    case True
    then show ?thesis using first_place_hit [of "\<lambda>i. i \<notin> S" len "a + 1"] z by auto
  qed (use a(2) in simp)
  have "i \<in> S \<and> off \<le> i \<and> i < len \<longleftrightarrow> a \<le> i \<and> i \<le> z - 1 \<or> i \<in> S \<and> z \<le> i \<and> i < len" for i
  proof -
    consider "i < a" | "i = a" | "a < i" "i < z" | "z \<le> i" by linarith
    then show ?thesis
    proof cases
      case 1
      then show ?thesis using A(3) [of i] \<open>a < z\<close> by linarith
    qed (use A(1,2) in_run [of i] \<open>a < z\<close> \<open>z \<le> len\<close> in \<open>simp_all, linarith+\<close>)
  qed
  then show "S \<inter> {off..<len} = {a..z - 1} \<union> S \<inter> {z..<len}"
    by (intro set_eqI) (simp only: Int_iff Un_iff atLeastLessThan_iff atLeastAtMost_iff)
qed

lemma put_number_room:
  assumes "n < 2 ^ 31" and "proc_put_long U (of_nat n) False ob = Inr ob1" and "snd ob1 \<noteq> 0"
  shows "ob1 = (fst ob @ show_nat n, snd ob - length (show_nat n))"
proof -
  have "unat (of_nat n :: u64) = n" using assms(1) by (simp add: unsigned_of_nat take_bit_nat_eq_self_iff)
  with put_long_room [OF assms(2,3)] show ?thesis by (simp add: Let_def)
qed

lemma put_item_text:
  assumes "a < 2 ^ 31" "b < 2 ^ 31" and "put_item U first a b ob = Inr ob1" and "snd ob \<noteq> 0" "snd ob1 \<noteq> 0"
  shows "ob1 = (fst ob @ items_text first [(a, b)], snd ob - length (items_text first [(a, b)]))"
proof -
  obtain oa ob2 where o: "(if first then Inr ob else proc_put_char U (CHR '','') ob) = Inr oa"
      "proc_put_long U (of_nat a) False oa = Inr ob2"
      "if a \<noteq> b then \<exists>o3. proc_put_char U (CHR ''-'') ob2 = Inr o3 \<and> proc_put_long U (of_nat b) False o3 = Inr ob1 else ob1 = ob2"
    using assms(3) unfolding put_item_def by (auto split: sum.splits if_splits)
  have oa: "oa = (fst ob @ (if first then [] else '',''), snd ob - (if first then 0 else 1))"
    using o(1) assms(4) by (auto dest: put_char_room split: if_splits)
  have 2: "snd ob2 \<noteq> 0" using o(3) assms(5) put_char_left put_long_left by (metis le_zero_eq)
  note ob2 = put_number_room [OF assms(1) o(2) 2]
  show ?thesis
  proof (cases "a = b")
    case False
    then obtain o3 where o3: "proc_put_char U (CHR ''-'') ob2 = Inr o3" "proc_put_long U (of_nat b) False o3 = Inr ob1"
      using o(3) by auto
    from put_number_room [OF assms(2) o3(2) assms(5)] put_char_room [OF o3(1) 2] oa ob2 False show ?thesis by auto
  qed (use o(3) oa ob2 in auto)
qed

lemma items_text_Cons: "items_text first (x # xs) = items_text first [x] @ items_text False xs"
  by (cases x) simp

lemma bitmap_read_left: "bitmap_read U B bm len off first ob = (0, ob1) \<Longrightarrow> snd ob1 \<le> snd ob"
proof (induction "snd ob" arbitrary: off first ob rule: less_induct)
  case less
  let ?a = "b_find_next_bit B bm len off" let ?b = "b_find_next_zero_bit B bm len (?a + 1) - 1"
  note r = less.prems [unfolded bitmap_read.simps [of U B bm len off] Let_def]
  show ?case
  proof (cases "snd ob = 0 \<or> len \<le> ?a")
    case False
    show ?thesis
    proof (cases "put_item U first ?a ?b ob")
      case (Inr ob2)
      then have "snd ob2 < snd ob" using put_item_less False by blast
      moreover have "bitmap_read U B bm len (?b + 1) False ob2 = (0, ob1)" using r False Inr by simp
      ultimately show ?thesis using less.hyps [of ob2] by fastforce
    qed (use r False in simp)
  qed (use r in \<open>auto split: if_splits\<close>)
qed

context bitmap
begin

lemma bitmap_read_items:
  assumes "bitmap_read U B bm len off first ob = (0, ob1)" and "snd ob1 \<noteq> 0" and "len < 2 ^ 31"
  shows "\<exists>xs. ob1 = (fst ob @ items_text first xs, snd ob - length (items_text first xs))
     \<and> items_ok len xs \<and> items_bits xs = bits bm \<inter> {off..<len}"
  using assms(1)
proof (induction "snd ob" arbitrary: off first ob rule: less_induct)
  case less
  define a where "a = first_place (\<lambda>i. i \<in> bits bm) len off"
  define z where "z = first_place (\<lambda>i. i \<notin> bits bm) len (a + 1)"
  have left: "snd ob \<noteq> 0" using bitmap_read_left [OF less.prems] assms(2) by auto
  note r = less.prems [unfolded bitmap_read.simps [of U B bm len off] Let_def next_bit next_zero a_def [symmetric] z_def [symmetric]]
  show ?case
  proof (cases "len \<le> a")
    case True
    then have "ob1 = ob" using r left by simp
    moreover have "bits bm \<inter> {off..<len} = {}" using first_place_miss [OF True [unfolded a_def]] by auto
    ultimately show ?thesis by (intro exI [of _ "[]"]) simp
  next
    case False
    then have z: "a < z" "z \<le> len" "bits bm \<inter> {off..<len} = {a..z - 1} \<union> bits bm \<inter> {z..<len}"
      using run_split [of a "bits bm" len off z] a_def z_def by auto
    show ?thesis
    proof (cases "put_item U first a (z - 1) ob")
      case (Inl e)
      then show ?thesis using r left False by (auto simp: put_item_def split: sum.splits if_splits)
    next
      case (Inr ob2)
      then have r2: "bitmap_read U B bm len z False ob2 = (0, ob1)" using r left False z(1) by simp
      have "snd ob2 \<noteq> 0" using bitmap_read_left [OF r2] assms(2) by auto
      with put_item_text [OF _ _ Inr left] False z assms(3)
      have ob2: "ob2 = (fst ob @ items_text first [(a, z - 1)], snd ob - length (items_text first [(a, z - 1)]))" by auto
      from less.hyps [OF put_item_less [OF Inr left] r2] obtain xs where
        xs: "ob1 = (fst ob2 @ items_text False xs, snd ob2 - length (items_text False xs))"
          "items_ok len xs" "items_bits xs = bits bm \<inter> {z..<len}" by blast
      define b where "b = z - 1"
      have "a \<le> b" "b < len" using z by (simp_all add: b_def)
      with ob2 z(3) xs show ?thesis
        unfolding b_def [symmetric]
        by (intro exI [of _ "(a, b) # xs"]) (simp add: items_text_Cons [of first "(a, b)" xs] del: items_text.simps)
    qed
  qed
qed

end

section \<open>Properties\<close>


lemma sample_bits_text:
  "proc_do_large_bitmap sample_klib (sample_user []) set_bitmap 8 {1, 3, 4, 5} False 50 0 =
     Some \<lparr>bio_ret = 0, bio_map = {1, 3, 4, 5}, bio_out = ''1,3-5'' @ [CHR 0x0A], bio_len = 6, bio_pos = 6\<rparr>"
proof -
  let ?S = "{1, 3, 4, 5} :: nat set" let ?U = "sample_user []"
  have s: "show_nat 1 = ''1''" "show_nat 3 = ''3''" "show_nat 5 = ''5''" by code_simp+
  have f: "b_find_next_bit set_bitmap ?S 8 0 = 1" "b_find_next_zero_bit set_bitmap ?S 8 2 = 2"
      "b_find_next_bit set_bitmap ?S 8 2 = 3" "b_find_next_zero_bit set_bitmap ?S 8 4 = 6"
      "b_find_next_bit set_bitmap ?S 8 6 = 8"
    by (simp_all add: set_bitmap_def first_place_def upt_rec)
  have p: "put_item ?U True 1 1 ([], 50) = Inr (''1'', 49)" "put_item ?U False 3 5 (''1'', 49) = Inr (''1,3-5'', 45)"
    using s by (simp_all add: put_item_def proc_put_long_def proc_put_char_def copy_out_def)
  have "bitmap_read ?U set_bitmap ?S 8 6 False (''1,3-5'', 45) = (0, (''1,3-5'', 45))"
    using f(5) by (subst bitmap_read.simps) (simp only: Let_def, simp)
  then have "bitmap_read ?U set_bitmap ?S 8 2 False (''1'', 49) = (0, (''1,3-5'', 45))"
    using f(3,4) p(2) by (subst bitmap_read.simps) (simp add: Let_def del: insert_iff)
  then have "bitmap_read ?U set_bitmap ?S 8 0 True ([], 50) = (0, (''1,3-5'', 45))"
    using f(1,2) p(1) by (subst bitmap_read.simps) (simp add: Let_def numeral_2_eq_2)
  then show ?thesis by (simp add: proc_do_large_bitmap_def proc_put_char_def copy_out_def)
qed


text \<open>An unset variable.  A text that is a single number below the length of the bitmap, without a
  newline or comma after it, makes \<open>proc_do_large_bitmap\<close> compare the variable \<open>c\<close> that has no value.\<close>

theorem large_bitmap_reads_unset:
  assumes "klib_ok L" and "n < len" "len < 2 ^ 31" and "u_text U = show_nat n" and "u_page U" "u_kzalloc U"
  shows "proc_do_large_bitmap L U B len bm True (length (show_nat n)) pos = None"
proof -
  have n: "n < 2 ^ 64" "length (show_nat n) \<le> 10" using assms(2,3) length_show_nat [of n 9] by auto
  have g: "proc_get_long L tr_a (show_nat n) None = Inr (of_nat n, False, None, [])"
    using klib_ok.get_long_show [OF assms(1) n(1), of False "[]" tr_a None] n(2) by simp
  have "unat (of_nat n :: u64) = n" using n by (simp add: unsigned_of_nat take_bit_nat_eq_self_iff)
  then have "bitmap_item L len (show_nat n) None = None" using g assms(2) by (simp add: bitmap_item_def)
  moreover have "proc_skip_char (CHR 0x0A) (show_nat n) = show_nat n"
  proof -
    obtain d where d: "d < 10" "hd (show_nat n) = digit d" using hd_show_nat by blast
    then have "digit d \<noteq> CHR 0x0A" using isdigit_digit [of d] by (auto simp: isdigit_def)
    then show ?thesis using d by (cases "show_nat n") auto
  qed
  moreover have "kbuf_of U (length (show_nat n)) = Inr (show_nat n)" using assms(4,5) n(2) by (simp add: kbuf_of_def PAGE_SIZE_def)
  ultimately show ?thesis
    using assms(2,6) by (simp add: proc_do_large_bitmap_def Let_def bitmap_write.simps [of L B len "show_nat n"])
qed

theorem large_bitmap_reads_unset_witness:
  "proc_do_large_bitmap sample_klib (sample_user ''5'') set_bitmap 8 {} True 1 0 = None"
proof -
  have "show_nat 5 = ''5''" by code_simp
  then show ?thesis
    using large_bitmap_reads_unset [OF sample_lib.klib_ok_axioms, of 5 8 "sample_user ''5''" set_bitmap "{}" 0] by simp
qed

end
