(* ===== verification/Sysctl_Sched.thy ===== *)
theory Sysctl_Sched
  imports Sysctl_Vec_Props Sched_Fair_Runs Sched_Dummy_Props
begin

text \<open>
  The scheduler's entries of \<open>kern_table\<close> in \<open>kernel/sysctl.c\<close> (with \<open>CONFIG_SCHED_DEBUG\<close>, without
  \<open>CONFIG_SMP\<close>), the handler \<open>sched_proc_update_handler\<close> of \<open>kernel/sched/fair.c\<close> behind three of them,
  and what writing them does to the classes that read them.
\<close>

section \<open>The table\<close>

datatype sched_entry = Child_runs_first | Min_granularity_ns | Latency_ns | Wakeup_granularity_ns
  | Dummy_timeslice | Dummy_age_threshold

definition NSEC_PER_SEC :: u32 where "NSEC_PER_SEC = 1000000000"
definition min_sched_granularity_ns :: u32 where "min_sched_granularity_ns = 100000"
definition max_sched_granularity_ns :: u32 where "max_sched_granularity_ns = NSEC_PER_SEC"
definition min_wakeup_granularity_ns :: u32 where "min_wakeup_granularity_ns = 0"
definition max_wakeup_granularity_ns :: u32 where "max_wakeup_granularity_ns = NSEC_PER_SEC"

lemmas granularity_consts = NSEC_PER_SEC_def min_sched_granularity_ns_def max_sched_granularity_ns_def
  min_wakeup_granularity_ns_def max_wakeup_granularity_ns_def

text \<open>The variable at \<open>data\<close>, one \<open>unsigned int\<close>.\<close>

fun entry_value :: "sched_entry \<Rightarrow> ('h, 'r, 'x) sched \<Rightarrow> u32" where
  "entry_value Child_runs_first s = child_runs_first (tun s)"
| "entry_value Min_granularity_ns s = min_granularity (tun s)"
| "entry_value Latency_ns s = sched_latency (tun s)"
| "entry_value Wakeup_granularity_ns s = wakeup_granularity (tun s)"
| "entry_value Dummy_timeslice s = sysctl_timeslice s"
| "entry_value Dummy_age_threshold s = sysctl_age_threshold s"

fun set_entry :: "sched_entry \<Rightarrow> u32 \<Rightarrow> ('h, 'r, 'x) sched \<Rightarrow> ('h, 'r, 'x) sched" where
  "set_entry Child_runs_first v s = s\<lparr>tun := (tun s)\<lparr>child_runs_first := v\<rparr>\<rparr>"
| "set_entry Min_granularity_ns v s = s\<lparr>tun := (tun s)\<lparr>min_granularity := v\<rparr>\<rparr>"
| "set_entry Latency_ns v s = s\<lparr>tun := (tun s)\<lparr>sched_latency := v\<rparr>\<rparr>"
| "set_entry Wakeup_granularity_ns v s = s\<lparr>tun := (tun s)\<lparr>wakeup_granularity := v\<rparr>\<rparr>"
| "set_entry Dummy_timeslice v s = s\<lparr>sysctl_timeslice := v\<rparr>"
| "set_entry Dummy_age_threshold v s = s\<lparr>sysctl_age_threshold := v\<rparr>"

text \<open>\<open>extra1\<close> and \<open>extra2\<close> of the entries that \<open>sched_proc_update_handler\<close> serves.\<close>

fun entry_bounds :: "sched_entry \<Rightarrow> u32 option \<times> u32 option" where
  "entry_bounds Min_granularity_ns = (Some min_sched_granularity_ns, Some max_sched_granularity_ns)"
| "entry_bounds Latency_ns = (Some min_sched_granularity_ns, Some max_sched_granularity_ns)"
| "entry_bounds Wakeup_granularity_ns = (Some min_wakeup_granularity_ns, Some max_wakeup_granularity_ns)"
| "entry_bounds _ = (None, None)"

section \<open>The handlers\<close>

definition DIV_ROUND_UP :: "u32 \<Rightarrow> u32 \<Rightarrow> u32" where
  "DIV_ROUND_UP n d = (n + d - 1) div d"

text \<open>\<open>None\<close> where the code divides by zero.  One processor is online.\<close>

definition sched_proc_update_handler ::
  "klib \<Rightarrow> user \<Rightarrow> sched_entry \<Rightarrow> bool \<Rightarrow> nat \<Rightarrow> nat \<Rightarrow> ('h, 'r, 'x) sched \<Rightarrow> (u32 io \<times> ('h, 'r, 'x) sched) option" where
  "sched_proc_update_handler L U e write lenp ppos s =
     (let (mn, mx) = entry_bounds e;
          r = proc_dointvec_minmax L U mn mx (Some [entry_value e s]) write lenp ppos;
          s1 = set_entry e (hd (io_vec r)) s;
          factor = get_update_sysctl_factor 1 (tun s1)
      in if io_ret r \<noteq> 0 \<or> \<not> write then Some (r, s1)
         else if min_granularity (tun s1) = 0 \<or> factor = 0 then None
         else
           let t = tun s1
           in Some (r, s1\<lparr>tun := t\<lparr>sched_nr_latency := DIV_ROUND_UP (sched_latency t) (min_granularity t),
                normalized_min_granularity := min_granularity t div factor,
                normalized_latency := sched_latency t div factor,
                normalized_wakeup_granularity := wakeup_granularity t div factor\<rparr>\<rparr>))"

definition kern_table_handler ::
  "klib \<Rightarrow> user \<Rightarrow> sched_entry \<Rightarrow> bool \<Rightarrow> nat \<Rightarrow> nat \<Rightarrow> ('h, 'r, 'x) sched \<Rightarrow> (u32 io \<times> ('h, 'r, 'x) sched) option" where
  "kern_table_handler L U e write lenp ppos s =
     (if e \<in> {Min_granularity_ns, Latency_ns, Wakeup_granularity_ns}
      then sched_proc_update_handler L U e write lenp ppos s
      else let r = proc_dointvec L U (Some [entry_value e s]) write lenp ppos
           in Some (r, set_entry e (hd (io_vec r)) s))"

section \<open>Well-formed tunables\<close>

definition between :: "u32 \<Rightarrow> u32 \<Rightarrow> u32 \<Rightarrow> bool" where
  "between lo hi v \<longleftrightarrow> sint lo \<le> sint v \<and> sint v \<le> sint hi"

text \<open>The granularities are within the bounds of the table, and \<open>sched_nr_latency\<close> is the exact number
  of slices in a period, rounded up.\<close>

definition tunables_ok :: "tunables \<Rightarrow> bool" where
  "tunables_ok t \<longleftrightarrow> between min_sched_granularity_ns max_sched_granularity_ns (min_granularity t)
     \<and> between min_sched_granularity_ns max_sched_granularity_ns (sched_latency t)
     \<and> between min_wakeup_granularity_ns max_wakeup_granularity_ns (wakeup_granularity t)
     \<and> (tunable_scaling t \<in> {0, 1, 2})
     \<and> unat (sched_latency t) \<le> unat (sched_nr_latency t) * unat (min_granularity t)
     \<and> unat (sched_nr_latency t) * unat (min_granularity t) < unat (sched_latency t) + unat (min_granularity t)"

lemma between_unat:
  assumes "between lo hi v" and "0 \<le> sint lo"
  shows "unat lo \<le> unat v" "unat v \<le> unat hi"
proof -
  have u: "int (unat w) = sint w" if "0 \<le> sint w" for w :: u32
  proof -
    have "uint w = uint (word_of_int (sint w) :: u32)" by simp
    also have "\<dots> = sint w" using that sint_less [of w] by (simp only: unsigned_of_int) (simp add: take_bit_int_eq_self_iff)
    finally show ?thesis by simp
  qed
  show "unat lo \<le> unat v" "unat v \<le> unat hi"
    using u [of lo] u [of v] u [of hi] assms unfolding between_def by linarith+
qed

lemma DIV_ROUND_UP_exact:
  assumes "between min_sched_granularity_ns max_sched_granularity_ns n"
    and "between min_sched_granularity_ns max_sched_granularity_ns d"
  shows "unat n \<le> unat (DIV_ROUND_UP n d) * unat d" "unat (DIV_ROUND_UP n d) * unat d < unat n + unat d"
proof -
  have c: "unat min_sched_granularity_ns = 100000" "unat max_sched_granularity_ns = 1000000000"
      "0 \<le> sint min_sched_granularity_ns"
    by (simp_all add: granularity_consts)
  have b: "100000 \<le> unat n" "unat n \<le> 1000000000" "100000 \<le> unat d" "unat d \<le> 1000000000"
    using between_unat [OF assms(1) c(3)] between_unat [OF assms(2) c(3)] c by simp_all
  have "unat (n + d) = unat n + unat d" using b by (simp add: unat_word_ariths)
  moreover have "1 \<le> n + d" using b calculation by (simp add: word_le_nat_alt)
  ultimately have "unat (n + d - 1) = unat n + unat d - 1" by (simp add: unat_sub)
  then have k: "unat (DIV_ROUND_UP n d) = (unat n + unat d - 1) div unat d" by (simp add: DIV_ROUND_UP_def unat_div)
  have "(unat n + unat d - 1) div unat d * unat d + (unat n + unat d - 1) mod unat d = unat n + unat d - 1" by simp
  moreover have "(unat n + unat d - 1) mod unat d < unat d" using b by simp
  ultimately show "unat n \<le> unat (DIV_ROUND_UP n d) * unat d" "unat (DIV_ROUND_UP n d) * unat d < unat n + unat d"
    unfolding k using b by linarith+
qed

lemma update_handler_vec:
  "\<exists>w. io_vec (proc_dointvec_minmax L U (Some lo) (Some hi) (Some [v]) write lenp ppos) = [w]
     \<and> (w = v \<or> between lo hi w)"
  using proc_dointvec_minmax_vec [of "Some lo" "Some hi" "[v]" L U "write" lenp ppos]
  by (auto simp: list_all2_Cons1 between_def)

lemma dointvec_vec: "\<exists>w. io_vec (proc_dointvec L U (Some [v]) write lenp ppos) = [w]"
  using dointvec_write_bounds [of do_proc_dointvec_conv "\<lambda>_. True" "[v]" L _ True]
  by (auto simp: proc_dointvec_def do_proc_dointvec_def raw_do_proc_dointvec_def finish_write_def list_all2_Cons1
      Let_def case_prod_beta split: sum.splits)

section \<open>Tunables stay well formed\<close>

lemma factor_pos: "tunable_scaling t \<in> {0, 1, 2} \<Longrightarrow> get_update_sysctl_factor 1 t = 1"
  by (auto simp: get_update_sysctl_factor_def ilog2_upto_8_def)

lemma min_granularity_pos: "between min_sched_granularity_ns max_sched_granularity_ns v \<Longrightarrow> v \<noteq> 0"
  by (auto simp: between_def granularity_consts)

lemma one_int_unchanged:
  assumes "io_ret (do_proc_dointvec L U cv (Some [v]) write lenp ppos) \<noteq> 0 \<or> \<not> write"
  shows "io_vec (do_proc_dointvec L U cv (Some [v]) write lenp ppos) = [v]"
  using assms
  by (auto simp: do_proc_dointvec_def raw_do_proc_dointvec_def finish_write_def Let_def case_prod_beta
      split: sum.splits option.splits if_splits)

lemma set_entry_same: "set_entry e (entry_value e s) s = s"
  by (cases e) simp_all

text \<open>The value in the entry after a write is within the entry's bounds if it was before.\<close>

lemma update_handler_ok:
  assumes "tunables_ok (tun s)" and "e \<in> {Min_granularity_ns, Latency_ns, Wakeup_granularity_ns}"
  shows "\<exists>r t. sched_proc_update_handler L U e write lenp ppos s = Some (r, t) \<and> tunables_ok (tun t)"
proof -
  obtain lo hi where b: "entry_bounds e = (Some lo, Some hi)" using assms(2) by auto
  let ?r = "proc_dointvec_minmax L U (Some lo) (Some hi) (Some [entry_value e s]) write lenp ppos"
  obtain w where w: "io_vec ?r = [w]" "w = entry_value e s \<or> between lo hi w" using update_handler_vec by blast
  have same: "w = entry_value e s" if "io_ret ?r \<noteq> 0 \<or> \<not> write"
    using one_int_unchanged [of L U "do_proc_dointvec_minmax_conv (Some lo) (Some hi)" "entry_value e s"] that w(1)
    by (simp add: proc_dointvec_minmax_def)
  let ?t = "tun (set_entry e w s)"
  have "between lo hi w" using w(2) assms b by (auto simp: tunables_ok_def)
  then have t: "between min_sched_granularity_ns max_sched_granularity_ns (min_granularity ?t)"
      "between min_sched_granularity_ns max_sched_granularity_ns (sched_latency ?t)"
      "between min_wakeup_granularity_ns max_wakeup_granularity_ns (wakeup_granularity ?t)"
      "tunable_scaling ?t \<in> {0, 1, 2}"
    using assms b by (auto simp: tunables_ok_def)
  show ?thesis
  proof (cases "io_ret ?r \<noteq> 0 \<or> \<not> write")
    case True
    then have "set_entry e w s = s" using same set_entry_same by metis
    then show ?thesis using True b w(1) assms(1) by (auto simp: sched_proc_update_handler_def Let_def)
  next
    case False
    then show ?thesis
      using b w(1) t factor_pos [OF t(4)] min_granularity_pos [OF t(1)] DIV_ROUND_UP_exact [OF t(2,1)]
      by (auto simp: sched_proc_update_handler_def Let_def tunables_ok_def)
  qed
qed

section \<open>Aging with an unreachable threshold\<close>

lemma age_entry_never: "sysctl_age_threshold s = - 1 \<Longrightarrow> age_entry Ls i p s = set_age p (dummy_age_tick (task_of s p) + 1) s"
  using word_order.extremum [of "dummy_age_tick (task_of s p)"]
  by (simp add: age_entry_def get_age_threshold_def Let_def leD)

lemma age_fold_never:
  assumes "sysctl_age_threshold s = - 1"
  shows "links (fold (age_entry Ls i) ps s) = links s \<and> sysctl_age_threshold (fold (age_entry Ls i) ps s) = - 1"
  using assms by (induction ps arbitrary: s) (simp_all add: age_entry_never)

lemma age_queues_never:
  assumes "sysctl_age_threshold s = - 1"
  shows "links (age_queues Ls s) = links s"
proof -
  have "links (fold (age_queue Ls) is s) = links s" for "is"
    using assms
  proof (induction "is" arbitrary: s)
    case (Cons i "is")
    then show ?case using age_fold_never [of s Ls i] by (simp add: age_queue_def)
  qed simp
  then show ?thesis by (simp add: age_queues_def)
qed

section \<open>Properties\<close>

text \<open>C28: Valid tunables.  Whatever is written to an entry of the scheduler in \<open>/proc/sys/kernel\<close>, the
  handler never divides by zero, the granularities stay within their bounds, and \<open>sched_nr_latency\<close>
  stays the number of minimal slices in a period, rounded up, without overflow.\<close>

theorem sched_tunables_stay_valid:
  assumes "tunables_ok (tun s)"
  shows "\<exists>r t. kern_table_handler L U e write lenp ppos s = Some (r, t) \<and> tunables_ok (tun t)"
proof (cases "e \<in> {Min_granularity_ns, Latency_ns, Wakeup_granularity_ns}")
  case True
  then show ?thesis using update_handler_ok [OF assms True] by (simp add: kern_table_handler_def)
next
  case False
  then show ?thesis
    using assms by (cases e) (auto simp: kern_table_handler_def Let_def tunables_ok_def)
qed

theorem sched_tunables_stay_valid_witness:
  "\<exists>r t. kern_table_handler sample_klib (sample_user ''200000'') Min_granularity_ns True 6 0 sample_sched = Some (r, t)
     \<and> tunables_ok (tun t)"
proof -
  have "tunables_ok (tun sample_sched)"
    by (simp add: tunables_ok_def sample_sched_def between_def granularity_consts)
  then show ?thesis by (rule sched_tunables_stay_valid)
qed

text \<open>Aging can be turned off from user space.  The entry for the age threshold has no bounds: \<open>-1\<close>,
  written to it, is accepted and becomes the largest unsigned value, after which no task is ever moved
  to a better queue.\<close>

theorem negative_age_threshold_stops_aging:
  assumes "klib_ok L" and "u_text U = ''-1'' @ [CHR 0x0A]" and "u_page U"
  shows "\<exists>r t. kern_table_handler L U Dummy_age_threshold True 3 0 s = Some (r, t) \<and> io_ret r = 0
     \<and> get_age_threshold t = - 1 \<and> (\<forall>u. get_age_threshold u = get_age_threshold t \<longrightarrow> links (age_queues Ls u) = links u)"
proof -
  have s1: "show_nat 1 = ''1''" by code_simp
  have "vec_text True [- 1] = ''-1''" using s1 by (simp add: show_val_def sign_and_value_def)
  then have "dointvec_write L do_proc_dointvec_conv (''-1'' @ [CHR 0x0A]) [entry_value Dummy_age_threshold s] True
      = (0, [CHR 0x0A], [- 1], False)"
    using klib_ok.dointvec_write_text [OF assms(1), of "[entry_value Dummy_age_threshold s]" "[- 1]" True]
    by (simp add: INT_MIN_32_def)
  moreover have "kbuf_of U 3 = Inr (''-1'' @ [CHR 0x0A])" using assms(2,3) by (simp add: kbuf_of_def PAGE_SIZE_def)
  ultimately have "\<exists>r. proc_dointvec L U (Some [entry_value Dummy_age_threshold s]) True 3 0 = r \<and> io_ret r = 0 \<and> io_vec r = [- 1]"
    by (simp add: proc_dointvec_def do_proc_dointvec_def raw_do_proc_dointvec_def finish_write_def Let_def)
  then show ?thesis
    using age_queues_never by (auto simp: kern_table_handler_def get_age_threshold_def Let_def)
qed

theorem negative_age_threshold_stops_aging_witness:
  "\<exists>r t. kern_table_handler sample_klib (sample_user (''-1'' @ [CHR 0x0A])) Dummy_age_threshold True 3 0 sample_sched = Some (r, t)
     \<and> io_ret r = 0 \<and> links (age_queues seq_ops t) = links t"
  using negative_age_threshold_stops_aging [OF sample_lib.klib_ok_axioms, of "sample_user (''-1'' @ [CHR 0x0A])" sample_sched seq_ops]
  by auto

end
