(* ===== verification/Spec2Isabelle.thy ===== *)
theory Spec2Isabelle
  imports Vfat_Fuse Shell_Trace Sched_Core_Props Sched_Load_Props Sched_Wait_Props Sched_Pelt_Props Sched_Files_Props Sched_Acct Sysctl_Bitmap_Props Sysctl_Sched
begin

text \<open>
  Verification of the three programs of an operating-systems course: a shell
  (\<open>task1_shell/shell.c\<close>), a scheduling class added to a Linux 3.8.3 kernel
  (\<open>task2_scheduler/linux-3.8.3\<close>) and a read-only FAT32 file system for FUSE
  (\<open>task3_vfat/vfat.c\<close>).  The programs share no code; \<open>Os_Prelude\<close> holds what their models share:
  fixed-width integers, packed little-endian structures, C strings in buffers, \<open>pread\<close> and list facts.

  \<^bold>\<open>The scheduler.\<close>  The kernel is modelled as it is configured for the course: user-mode Linux on one
  64-bit processor (no \<open>CONFIG_SMP\<close>), \<open>HZ\<close> = 100, \<open>CONFIG_NO_HZ\<close>, no group scheduling (but see below), no bandwidth
  control, no scheduler statistics and no high-resolution tick.  Locks are not modelled: each operation
  runs with the run queue locked, or with interrupts off, on the only processor.

  \<^item> \<open>Sched_State\<close>: \<open>struct task_struct\<close>, \<open>struct sched_entity\<close> and \<open>struct rq\<close> as the records \<open>task\<close>,
    \<open>sched_entity\<close> and \<open>sched\<close>; priorities, policies and flags of \<open>include/linux/sched.h\<close> and
    \<open>kernel/sched/sched.h\<close>.  A task pointer is a number; \<open>None\<close> as the result of an operation is
    undefined behaviour or \<open>BUG()\<close>.
  \<^item> \<open>Sched_Klist\<close>, \<open>Sched_Rbtree\<close>: kernel lists and red-black trees, whose code is not in the repository.
    They are records of operations (\<open>list_ops\<close>, \<open>rb_ops\<close>); the locales \<open>klist\<close> and \<open>rbtree\<close> state what
    the scheduler relies on, and executable lists and trees satisfy them (\<open>seq_list\<close>, \<open>tree_store\<close>).
  \<^item> \<open>Sched_Weight\<close>, \<open>Sched_Load\<close>: load weights and \<open>calc_delta_mine\<close>; the load averages of core.c.
  \<^item> \<open>Sched_Dummy\<close>: \<open>kernel/sched/dummy.c\<close>, function by function.  \<open>Sched_Dummy_Props\<close>: the class as a
    step relation \<open>dummy_step\<close> with its invariant by rule induction (queues well formed, a task at its
    priority's queue or above, \<open>nr_running\<close> exact), first non-empty queue first, round robin, bounded
    waiting through aging (\<open>dummy_wait\<close>), and the inverted preemption test.
  \<^item> \<open>Sched_Fair\<close>: \<open>kernel/sched/fair.c\<close> on one processor.  \<open>Sched_Fair_Props\<close>, \<open>Sched_Fair_Inv\<close>,
    \<open>Sched_Fair_Runs\<close>: the timeline stays sorted with its leftmost entity cached under \<open>fair_step\<close>, as
    long as virtual times stay within half the range of the 64-bit counter, whose wrap-around is part
    of the model; the choice is fair up to the wakeup granularity; placement and lag of a task.
  \<^item> \<open>Sched_Core\<close>, \<open>Sched_Run\<close>, \<open>Sched_Policy\<close>: \<open>kernel/sched/core.c\<close>: the table of classes, wakeups and
    fork; start-up, the tick, \<open>__schedule\<close>, yielding; nice values, policies and the system calls.  The
    real-time, stop and idle classes and the hooks of other subsystems are fields of \<open>core_env\<close>.
    \<open>Sched_Core_Props\<close>, \<open>Sched_Load_Props\<close>: the class of a forked task, the order of classes, privileges
    of \<open>sched_setscheduler\<close>, the index error of \<open>set_user_nice\<close>, bounds on the averages.
    \<open>Sched_Sample\<close> holds a small state for instances.
  \<^item> \<open>Sched_Wait\<close>: wait queues, completions and \<open>sleep_on\<close> of core.c.  A queue is the list of its entries;
    \<open>schedule_timeout\<close> is a parameter that maps the state when a task falls asleep to the state when it
    returns.  The waiting loop is a partial function.  \<open>Sched_Wait_Props\<close>: the first sleeper is woken, a wait
    takes one completion or none and ends if its sleeps do, the counter overflows.

  \<^bold>\<open>Task groups.\<close>  The code of \<open>fair.c\<close> and \<open>core.c\<close> for \<open>CONFIG_FAIR_GROUP_SCHED\<close> and \<open>CONFIG_CFS_BANDWIDTH\<close> on
  several processors, on a state of its own: stores of entities, run queues, groups and processors (the record
  \<open>grp\<close>).  The timelines of the run queues are the field \<open>elsewhere\<close>; the operations on them, modelled on one run queue
  in \<open>Sched_Fair\<close>, are here the record \<open>ent_ops\<close>, and their laws the locales \<open>entity_level\<close> and \<open>bw_world\<close>.

  \<^item> \<open>Sched_Tree\<close>: the walk over the tree of groups with its jumps, a partial function, and the recursive
    traversal that it equals (locale \<open>walk\<close>).  \<open>Sched_Group\<close>: the state, entity chains, leaf lists.
  \<^item> \<open>Sched_Pelt\<close>: per-entity load tracking.  \<open>Sched_Pelt_Props\<close>: the averages stay bounded, a task's contribution is
    its share of its weight when that fits 32 bits, the load of a group is the sum of its run queues' contributions.
  \<^item> \<open>Sched_Shares\<close>: shares and weights of group entities.  \<open>Sched_Shares_Props\<close>: a change of shares keeps the load of
    every run queue the sum of the weights on it.
  \<^item> \<open>Sched_Bandwidth\<close>: quotas, slices, throttling and the timers.  \<open>Sched_Bandwidth_Props\<close>: what each operation does to
    the credit of a group.  \<open>Sched_Bandwidth_Budget\<close>: over any run the time consumed is covered by the quotas, as long
    as the counters stay within \<open>2 ^ 62\<close> nanoseconds (146 years), and the period timer ends.
  \<^item> \<open>Sched_Files\<close>: the control files for quotas and real-time bandwidth with their tests over the tree, and the sysctl
    handler of the real-time limits, on \<open>proc_dointvec\<close> of \<open>Sysctl_Vec\<close>.  \<open>Sched_Files_Props\<close>: a setting is made exactly
    when every group fits with it; a new quota starts the group afresh and is read back; the overflow of the ratio.
  \<^item> \<open>Sched_Create\<close>: making and removing groups.  \<open>Sched_Create_Props\<close>: the groups stay a tree, so that the walks end,
    and a new group has the invariant of bandwidth control.  \<open>Sched_Acct\<close>: CPU accounting along the chain of groups.

  \<^bold>\<open>The control files.\<close>  The handlers of \<open>kernel/sysctl.c\<close> that read and write \<open>/proc/sys\<close>.  The user buffer and
  the outcome of allocations are the record \<open>user\<close>; \<open>simple_strtoul\<close> and the unit conversions are the record
  \<open>klib\<close>, whose laws are the locale \<open>klib_ok\<close>.

  \<^item> \<open>Sysctl_Lib\<close>, \<open>Sysctl_Vec\<close>: \<open>proc_get_long\<close>, \<open>proc_put_long\<close> and the handlers for strings, vectors of
    \<open>int\<close> and \<open>unsigned long\<close>, jiffies, the taint mask and the Ctrl-Alt-Del pid.  \<open>Sysctl_Vec_Props\<close>: what was
    read can be written back; bounded vectors stay within their bounds; milliseconds that are not converted.
  \<^item> \<open>Sysctl_Bitmap\<close>: \<open>proc_do_large_bitmap\<close> over the interface \<open>bitmap\<close> of the kernel's bitmap library.
    \<open>Sysctl_Bitmap_Props\<close>: its round trip, and the variable it reads before it is set.
  \<^item> \<open>Sysctl_Sched\<close>: the scheduler's entries of \<open>kern_table\<close> with \<open>sched_proc_update_handler\<close> of fair.c; the
    tunables stay valid, and the dummy class's age threshold can be set to never.

  \<^bold>\<open>The shell.\<close>  The process is a record (descriptor table, output buffer, statics of the source) and a
  system call is a function on it whose answer is given by the environment \<open>env\<close>; the result of an
  action is a return, an exit, an execution of another program or a crash.

  \<^item> \<open>Shell_Sys\<close>: processes, system calls, the locale \<open>act_rel\<close> of relations that every action respects.
  \<^item> \<open>Shell_Parse\<close>: \<open>parseword\<close>, a total function on a terminated line, with its maximal word.
  \<^item> \<open>Shell_Run\<close>: builtins, \<open>restore_std\<close>, \<open>run_command2\<close> with both sides of the fork.
  \<^item> \<open>Shell_Process\<close>: \<open>process_command\<close>, redirections, \<open>process\<close> with background commands, the prompt
    and \<open>main\<close>'s loop.  The loop over a line is a function with fuel; the length of the line is enough.
  \<^item> \<open>Shell_Seq\<close>: an abstract syntax of command sequences with a printer and a meaning;
    \<open>process_command\<close> on the printed line does what the sequence means.
  \<^item> \<open>Shell_Stdio\<close>, \<open>Shell_Trace\<close>: standard descriptors are restored, pipes connect, background splits,
    statuses that are lost, and that what a process has done is only extended.

  \<^bold>\<open>The file system.\<close>  The device is a list of bytes; the state is the record \<open>vfat\<close> of \<open>struct vfat\<close>.

  \<^item> \<open>Vfat_Layout\<close>: boot sector and directory records with their byte layout and round trips.
  \<^item> \<open>Vfat_Init\<close>: \<open>vfat_init\<close> in 32-bit arithmetic, exactly which devices it accepts, cluster addresses.
  \<^item> \<open>Vfat_Fat\<close>: \<open>get_next_cluster_number\<close>; the locale \<open>cluster_cursor\<close> of walks along a chain.
  \<^item> \<open>Vfat_Read\<close>: \<open>vfat_fuse_read\<close>; its loop takes fuel, and one unit per cluster and one more is enough.
  \<^item> \<open>Vfat_Dir\<close>, \<open>Vfat_Fuse\<close>: trimming, long-name checksums, directory scans (fuel: one unit per record
    and one for the end marker), path splitting, resolution and the FUSE handlers.

  \<^bold>\<open>Not modelled.\<close>  SMP balancing and migration, which decide by heuristics over the topology of the
  machine; moving tasks between groups and autogroups; \<open>context_switch\<close>, which acts on the address
  space and the stack; the entries of \<open>kern_table\<close> that belong to other subsystems; debugging output;
  \<open>vfat_test_read_all\<close>, which only prints; the FUSE examples and the test programs of the assignments.
\<close>

end
